theory Spec2Isabelle
  imports Main
begin

section \<open>Python values used by the stores\<close>

text \<open>
  The classroom reservation service keeps three dictionaries in memory (reservations,
  waitlist, notifications) and reads the wall clock, the user directory and the classroom
  directory.  This theory embeds the functions of \<^verbatim>\<open>reservation_db.py\<close>,
  \<^verbatim>\<open>waitlist_db.py\<close> and \<^verbatim>\<open>notification_db.py\<close>.

  Strings are byte strings (\<^typ>\<open>string\<close>); the library functions \<^verbatim>\<open>int\<close>,
  \<^verbatim>\<open>str.strip\<close>, \<^verbatim>\<open>str.split\<close> and \<^verbatim>\<open>datetime.strptime\<close> are embedded for
  ASCII input (Unicode digits and Unicode blanks outside ASCII are not recognised here).
  An exception that leaves a function is a value of type \<open>exn\<close>.

  Not modelled: the files the dictionaries are written to after each change (a failed
  write is swallowed by the source and changes no dictionary),
  \<^verbatim>\<open>schedule_reservation_notification\<close>, which nothing calls, and the limit that recent
  versions of Python put on the number of digits \<^verbatim>\<open>int\<close> converts (4300 by default, a
  \<^verbatim>\<open>ValueError\<close> beyond it); the literals evaluated below have at most ten digits.
\<close>

datatype exn = ValueError | OverflowError | KeyError

text \<open>\<^verbatim>\<open>datetime.time(hour, minute)\<close>; seconds and microseconds of a parsed time are 0.\<close>

datatype time = Time (hour: nat) (minute: nat)

text \<open>Python compares two \<^verbatim>\<open>time\<close> objects field by field, hour first.\<close>

definition time_less :: "time \<Rightarrow> time \<Rightarrow> bool" where
  "time_less a b \<longleftrightarrow> hour a < hour b \<or> (hour a = hour b \<and> minute a < minute b)"

definition time_ge :: "time \<Rightarrow> time \<Rightarrow> bool" where
  "time_ge a b \<longleftrightarrow> \<not> time_less a b"

text \<open>
  A \<^verbatim>\<open>date\<close> is kept as its proleptic Gregorian ordinal (\<^verbatim>\<open>date.toordinal()\<close>,
  day 1 is 0001-01-01), a \<^verbatim>\<open>datetime\<close> as the number of microseconds since the start of
  day 0.  On the objects Python can build both orders are the field-wise orders of Python.
\<close>

type_synonym date = int
type_synonym datetime = int

definition day_micros :: int where
  "day_micros = 86400000000"

definition combine :: "date \<Rightarrow> time \<Rightarrow> datetime" where
  "combine d t = d * day_micros + (int (hour t) * 60 + int (minute t)) * 60000000"

definition date_of :: "datetime \<Rightarrow> date" where
  "date_of now = now div day_micros"

definition is_leap :: "nat \<Rightarrow> bool" where
  "is_leap y \<longleftrightarrow> y mod 4 = 0 \<and> (y mod 100 \<noteq> 0 \<or> y mod 400 = 0)"

definition days_in_month :: "nat \<Rightarrow> nat \<Rightarrow> nat" where
  "days_in_month y m =
     (if m = 2 then (if is_leap y then 29 else 28)
      else if m = 4 \<or> m = 6 \<or> m = 9 \<or> m = 11 then 30 else 31)"

definition days_before_year :: "nat \<Rightarrow> nat" where
  "days_before_year y = (y - 1) * 365 + (y - 1) div 4 - (y - 1) div 100 + (y - 1) div 400"

definition days_before_month :: "nat \<Rightarrow> nat \<Rightarrow> nat" where
  "days_before_month y m =
     (if m = 1 then 0 else if m = 2 then 31 else if m = 3 then 59 else if m = 4 then 90
      else if m = 5 then 120 else if m = 6 then 151 else if m = 7 then 181
      else if m = 8 then 212 else if m = 9 then 243 else if m = 10 then 273
      else if m = 11 then 304 else 334)
     + (if m > 2 \<and> is_leap y then 1 else 0)"

definition ymd2ord :: "nat \<Rightarrow> nat \<Rightarrow> nat \<Rightarrow> date" where
  "ymd2ord y m d = int (days_before_year y + days_before_month y m + d)"

text \<open>\<^verbatim>\<open>datetime(y, m, d, hh, mm, ss, us)\<close>, for writing clock readings.\<close>

definition mk_datetime :: "nat \<Rightarrow> nat \<Rightarrow> nat \<Rightarrow> nat \<Rightarrow> nat \<Rightarrow> nat \<Rightarrow> nat \<Rightarrow> datetime" where
  "mk_datetime y m d hh mm ss us =
     combine (ymd2ord y m d) (Time hh mm) + int ss * 1000000 + int us"

subsection \<open>Parsing\<close>

definition is_digit :: "char \<Rightarrow> bool" where
  "is_digit c \<longleftrightarrow> 48 \<le> (of_char c :: nat) \<and> (of_char c :: nat) \<le> 57"

definition digit_val :: "char \<Rightarrow> nat" where
  "digit_val c = of_char c - 48"

text \<open>The blanks \<^verbatim>\<open>int\<close> skips around a literal: tab, LF, VT, FF, CR and space.\<close>

definition int_space :: "char \<Rightarrow> bool" where
  "int_space c \<longleftrightarrow> (of_char c :: nat) \<in> {9, 10, 11, 12, 13, 32}"

text \<open>The blanks \<^verbatim>\<open>str.strip()\<close> removes: those and the separators 28 to 31.\<close>

definition str_space :: "char \<Rightarrow> bool" where
  "str_space c \<longleftrightarrow> (of_char c :: nat) \<in> {9, 10, 11, 12, 13, 28, 29, 30, 31, 32}"

definition trim :: "(char \<Rightarrow> bool) \<Rightarrow> string \<Rightarrow> string" where
  "trim sp s = rev (dropWhile sp (rev (dropWhile sp s)))"

definition strip :: "string \<Rightarrow> string" where
  "strip s = trim str_space s"

text \<open>Digits of a decimal literal after the first one; a single underscore may separate
  two digits.\<close>

fun int_digits :: "nat \<Rightarrow> string \<Rightarrow> nat option" where
  "int_digits acc [] = Some acc"
| "int_digits acc [c] = (if is_digit c then Some (acc * 10 + digit_val c) else None)"
| "int_digits acc (c # d # cs) =
     (if is_digit c then int_digits (acc * 10 + digit_val c) (d # cs)
      else if c = CHR ''_'' \<and> is_digit d then int_digits (acc * 10 + digit_val d) cs
      else None)"

definition unsigned_int :: "string \<Rightarrow> nat option" where
  "unsigned_int s =
     (case s of [] \<Rightarrow> None
      | c # cs \<Rightarrow> if is_digit c then int_digits (digit_val c) cs else None)"

text \<open>\<^verbatim>\<open>int(s)\<close>: \<open>None\<close> stands for the \<^verbatim>\<open>ValueError\<close> of an invalid literal.\<close>

definition py_int :: "string \<Rightarrow> int option" where
  "py_int s =
     (case trim int_space s of
        [] \<Rightarrow> None
      | c # cs \<Rightarrow>
          if c = CHR ''-'' then map_option (\<lambda>n. - int n) (unsigned_int cs)
          else if c = CHR ''+'' then map_option int (unsigned_int cs)
          else map_option int (unsigned_int (c # cs)))"

text \<open>\<^verbatim>\<open>s.split(":")\<close>.\<close>

fun split_colon :: "string \<Rightarrow> string list" where
  "split_colon [] = [[]]"
| "split_colon (c # cs) =
     (if c = CHR '':'' then [] # split_colon cs
      else (case split_colon cs of p # ps \<Rightarrow> (c # p) # ps | [] \<Rightarrow> [[c]]))"

text \<open>
  \<^verbatim>\<open>time(hour, minute)\<close>: an argument outside the range of a C \<^verbatim>\<open>int\<close> raises
  \<^verbatim>\<open>OverflowError\<close> while the arguments are converted; a field out of range raises
  \<^verbatim>\<open>ValueError\<close>.
\<close>

definition c_int_range :: "int \<Rightarrow> bool" where
  "c_int_range i \<longleftrightarrow> - 2147483648 \<le> i \<and> i \<le> 2147483647"

definition mk_time :: "int \<Rightarrow> int \<Rightarrow> exn + time" where
  "mk_time h m =
     (if \<not> c_int_range h \<or> \<not> c_int_range m then Inl OverflowError
      else if 0 \<le> h \<and> h \<le> 23 \<and> 0 \<le> m \<and> m \<le> 59 then Inr (Time (nat h) (nat m))
      else Inl ValueError)"

text \<open>
  \<^verbatim>\<open>_parse_time\<close> (reservation_db.py, lines 42 to 48): the \<^verbatim>\<open>except\<close> clause turns
  \<^verbatim>\<open>ValueError\<close> into a \<^verbatim>\<open>ValueError\<close> carrying the message; \<^verbatim>\<open>OverflowError\<close> is
  not caught.  Unpacking into two names fails unless there are exactly two parts, and
  converts every part it reaches before it does.
\<close>

definition parse_time :: "string \<Rightarrow> exn + time" where
  "parse_time s =
     (case split_colon s of
        [a, b] \<Rightarrow>
          (case py_int a of None \<Rightarrow> Inl ValueError
           | Some h \<Rightarrow> (case py_int b of None \<Rightarrow> Inl ValueError | Some m \<Rightarrow> mk_time h m))
      | _ \<Rightarrow> Inl ValueError)"

text \<open>
  \<^verbatim>\<open>_parse_date\<close> (lines 50 to 55): \<^verbatim>\<open>strptime(s, "%Y-%m-%d")\<close> matches four digits,
  a dash, a month \<^verbatim>\<open>1[0-2]|0[1-9]|[1-9]\<close>, a dash and a day
  \<^verbatim>\<open>3[0-1]|[1-2]\d|0[1-9]|[1-9]| [1-9]\<close>, taking the first alternative that matches;
  nothing may follow, and the date must exist.  Every failure is a \<^verbatim>\<open>ValueError\<close>.
\<close>

definition match_month :: "string \<Rightarrow> (nat \<times> string) option" where
  "match_month s =
     (case s of
        c # d # r \<Rightarrow>
          if c = CHR ''1'' \<and> d \<in> {CHR ''0'', CHR ''1'', CHR ''2''} then Some (10 + digit_val d, r)
          else if c = CHR ''0'' \<and> is_digit d \<and> d \<noteq> CHR ''0'' then Some (digit_val d, r)
          else if is_digit c \<and> c \<noteq> CHR ''0'' then Some (digit_val c, d # r)
          else None
      | [c] \<Rightarrow> if is_digit c \<and> c \<noteq> CHR ''0'' then Some (digit_val c, []) else None
      | [] \<Rightarrow> None)"

definition match_day :: "string \<Rightarrow> (nat \<times> string) option" where
  "match_day s =
     (case s of
        c # d # r \<Rightarrow>
          if c = CHR ''3'' \<and> d \<in> {CHR ''0'', CHR ''1''} then Some (30 + digit_val d, r)
          else if c \<in> {CHR ''1'', CHR ''2''} \<and> is_digit d then Some (digit_val c * 10 + digit_val d, r)
          else if c = CHR ''0'' \<and> is_digit d \<and> d \<noteq> CHR ''0'' then Some (digit_val d, r)
          else if is_digit c \<and> c \<noteq> CHR ''0'' then Some (digit_val c, d # r)
          else if c = CHR '' '' \<and> is_digit d \<and> d \<noteq> CHR ''0'' then Some (digit_val d, r)
          else None
      | [c] \<Rightarrow> if is_digit c \<and> c \<noteq> CHR ''0'' then Some (digit_val c, []) else None
      | [] \<Rightarrow> None)"

definition parse_date :: "string \<Rightarrow> exn + date" where
  "parse_date s =
     (case s of
        y1 # y2 # y3 # y4 # dash # r \<Rightarrow>
          if is_digit y1 \<and> is_digit y2 \<and> is_digit y3 \<and> is_digit y4 \<and> dash = CHR ''-'' then
            (case match_month r of
               None \<Rightarrow> Inl ValueError
             | Some (m, r') \<Rightarrow>
                 (case r' of
                    dash' # r'' \<Rightarrow>
                      if dash' = CHR ''-'' then
                        (case match_day r'' of
                           None \<Rightarrow> Inl ValueError
                         | Some (d, rest) \<Rightarrow>
                             (let y = ((digit_val y1 * 10 + digit_val y2) * 10 + digit_val y3) * 10
                                        + digit_val y4
                              in if rest = [] \<and> 1 \<le> y \<and> d \<le> days_in_month y m
                                 then Inr (ymd2ord y m d) else Inl ValueError))
                      else Inl ValueError
                  | [] \<Rightarrow> Inl ValueError))
          else Inl ValueError
      | _ \<Rightarrow> Inl ValueError)"

subsection \<open>Slot validation and overlap\<close>

text \<open>\<^verbatim>\<open>_is_past_datetime\<close> (lines 57 to 61).\<close>

definition is_past_datetime :: "datetime \<Rightarrow> date \<Rightarrow> time \<Rightarrow> bool" where
  "is_past_datetime now reservation_date start_time \<longleftrightarrow> combine reservation_date start_time < now"

text \<open>\<^verbatim>\<open>_is_within_7_days\<close> (lines 63 to 67): \<open>max_date\<close> is the date with ordinal
  \<open>today + 6\<close>.\<close>

definition is_within_7_days :: "datetime \<Rightarrow> date \<Rightarrow> bool" where
  "is_within_7_days now reservation_date \<longleftrightarrow>
     (let today = date_of now; max_date = today + 6
      in today \<le> reservation_date \<and> reservation_date \<le> max_date)"

text \<open>\<^verbatim>\<open>_is_valid_time_slot\<close> (lines 90 to 119), statement by statement.\<close>

definition is_valid_time_slot :: "time \<Rightarrow> time \<Rightarrow> bool" where
  "is_valid_time_slot start_time end_time =
     (if minute start_time \<noteq> 0 \<or> minute end_time \<noteq> 0 then False
      else if time_ge start_time end_time then False
      else if hour end_time = 0 \<and> minute end_time = 0 then
        (if hour start_time = 23 then True else False)
      else if hour end_time \<le> hour start_time then False
      else int (hour end_time) - int (hour start_time) > 0)"

text \<open>\<^verbatim>\<open>_is_time_overlap\<close> (lines 121 to 133) with its local \<^verbatim>\<open>time_to_minutes\<close>.\<close>

definition time_to_minutes :: "time \<Rightarrow> nat" where
  "time_to_minutes t = hour t * 60 + minute t"

definition is_time_overlap :: "time \<Rightarrow> time \<Rightarrow> time \<Rightarrow> time \<Rightarrow> bool" where
  "is_time_overlap start1 end1 start2 end2 \<longleftrightarrow>
     time_to_minutes start1 < time_to_minutes end2 \<and> time_to_minutes start2 < time_to_minutes end1"

text \<open>The \<^verbatim>\<open>time\<close> objects Python can build.\<close>

definition valid_time :: "time \<Rightarrow> bool" where
  "valid_time t \<longleftrightarrow> hour t < 24 \<and> minute t < 60"

section \<open>The stores\<close>

text \<open>
  A Python \<^verbatim>\<open>dict\<close> keeps its keys in insertion order; the loops over
  \<^verbatim>\<open>.values()\<close> and \<^verbatim>\<open>.items()\<close> run in that order.  A dictionary is a list of
  key/value pairs in insertion order.
\<close>

definition dict_keys :: "('k \<times> 'v) list \<Rightarrow> 'k list" where
  "dict_keys d = map fst d"

definition dict_set :: "'k \<Rightarrow> 'v \<Rightarrow> ('k \<times> 'v) list \<Rightarrow> ('k \<times> 'v) list" where
  "dict_set k v d =
     (if k \<in> set (dict_keys d) then map (\<lambda>p. if fst p = k then (k, v) else p) d
      else d @ [(k, v)])"

definition dict_del :: "'k \<Rightarrow> ('k \<times> 'v) list \<Rightarrow> ('k \<times> 'v) list" where
  "dict_del k d = filter (\<lambda>p. fst p \<noteq> k) d"

definition dict_get :: "('k \<times> 'v) list \<Rightarrow> 'k \<Rightarrow> 'v option" where
  "dict_get d k = map_of d k"

text \<open>\<^verbatim>\<open>max(d.keys())\<close> of a dictionary that is not empty.\<close>

fun max_key :: "int list \<Rightarrow> int" where
  "max_key [] = 0"
| "max_key (k # ks) = fold max ks k"

text \<open>
  \<^verbatim>\<open>xs.sort(key=...)\<close> is stable.  \<open>sort_by le\<close> is the stable sort for the order
  \<open>le\<close> on the keys: an element goes in front of the first one it is not greater than.
\<close>

fun insort_by :: "('a \<Rightarrow> 'a \<Rightarrow> bool) \<Rightarrow> 'a \<Rightarrow> 'a list \<Rightarrow> 'a list" where
  "insort_by le x [] = [x]"
| "insort_by le x (y # ys) = (if le x y then x # y # ys else y # insort_by le x ys)"

definition sort_by :: "('a \<Rightarrow> 'a \<Rightarrow> bool) \<Rightarrow> 'a list \<Rightarrow> 'a list" where
  "sort_by le xs = foldr (insort_by le) xs []"

record reservation =
  r_user_id :: string
  r_classroom_id :: int
  r_date :: string
  r_start_time :: string
  r_end_time :: string
  r_participants :: "string list"

text \<open>
  \<open>w_created_at\<close> is \<^verbatim>\<open>datetime.now().isoformat()\<close>.  The source compares these strings;
  the ISO format has fixed-width fields and leaves the fraction out only when it is zero,
  so the order of the strings is the order of the instants.
\<close>

record waitlist_entry =
  w_user_id :: string
  w_classroom_id :: int
  w_date :: string
  w_start_time :: string
  w_end_time :: string
  w_created_at :: datetime
  w_priority :: nat

text \<open>
  The text of a classroom in a notification: its name from the classroom directory, or the
  fallback text built from the id when the directory has no such classroom.
\<close>

datatype cname = Named string | Unnamed int

text \<open>
  The texts the stores hand to the user are Korean sentences; each constructor stands for
  one text of the source and carries the values put into it.
  \<^item> \<open>BadDateFormat\<close>, \<open>BadTimeFormat\<close>: reservation_db.py lines 55 and 48;
  \<^item> \<open>PastTime\<close> 154, \<open>OutOfWindow\<close> 158, \<open>InvalidSlot\<close> 162, \<open>QuotaExceeded\<close> 172,
    \<open>ParticipantQuotaExceeded\<close> 187, \<open>TimeConflict\<close> 211 (requested start and end, then
    start, end and owner of each conflicting reservation), \<open>ReservationCreated\<close> 227;
  \<^item> \<open>ReservationNotFound\<close> 263, \<open>NotReservationOwner\<close> 267, \<open>ReservationCancelled\<close> 271;
  \<^item> \<open>WaitlistQuota\<close>, \<open>WaitlistDuplicate\<close>, \<open>WaitlistCreated\<close> (with the rank shown,
    priority + 1): waitlist_db.py lines 67, 88, 112; \<open>WaitlistNotFound\<close> 145,
    \<open>NotWaitlistOwner\<close> 149, \<open>WaitlistCancelled\<close> 175;
  \<^item> \<open>Reminder\<close>: notification_db.py line 179, classroom text and start time; the text ends
    with the marker the scan looks for;
  \<^item> \<open>Promoted\<close>: waitlist_db.py line 270, classroom text, date, start and end.
\<close>

datatype message =
    BadDateFormat string
  | BadTimeFormat string
  | PastTime
  | OutOfWindow
  | InvalidSlot
  | QuotaExceeded
  | ParticipantQuotaExceeded string
  | TimeConflict string string "(string \<times> string \<times> string) list"
  | ReservationCreated
  | ReservationNotFound
  | NotReservationOwner
  | ReservationCancelled
  | WaitlistQuota
  | WaitlistDuplicate
  | WaitlistCreated nat
  | WaitlistNotFound
  | NotWaitlistOwner
  | WaitlistCancelled
  | Reminder cname string
  | Promoted cname string string string

record notification =
  n_user_id :: string
  n_reservation_id :: int
  n_message :: message
  n_created_at :: datetime
  n_read :: bool

text \<open>The three module-level dictionaries and their \<^verbatim>\<open>_next_id\<close> counters.\<close>

record state =
  RESERVATIONS :: "(int \<times> reservation) list"
  res_next_id :: int
  WAITLIST :: "(int \<times> waitlist_entry) list"
  wl_next_id :: int
  NOTIFICATIONS :: "(int \<times> notification) list"
  notif_next_id :: int

text \<open>The stores when no file is found: empty, counters at 1.\<close>

definition init_state :: state where
  "init_state =
     \<lparr>RESERVATIONS = [], res_next_id = 1, WAITLIST = [], wl_next_id = 1,
      NOTIFICATIONS = [], notif_next_id = 1\<rparr>"

text \<open>
  What the stores use and this repository part does not define: \<^verbatim>\<open>user_db.get_user\<close>
  (only its truth value is used), \<^verbatim>\<open>classroom_db.get_classroom\<close> (only the name is used),
  and the order in which Python iterates a \<^verbatim>\<open>set\<close> of strings.  The wall clock is an
  argument \<open>now\<close> of each operation, read once per operation.
\<close>

record env =
  get_user :: "string \<Rightarrow> bool"
  get_classroom :: "int \<Rightarrow> string option"
  set_order :: "string list \<Rightarrow> string list"

text \<open>
  \<^verbatim>\<open>list(set(xs))\<close>: the members of \<open>xs\<close>, once each, in the order of the process;
  \<open>set_order\<close> gives that order and is used where it returns exactly the members.
\<close>

definition list_of_set :: "env \<Rightarrow> string list \<Rightarrow> string list" where
  "list_of_set env xs =
     (let ys = set_order env xs
      in if distinct ys \<and> set ys = set xs then ys else remdups xs)"

definition classroom_text :: "env \<Rightarrow> int \<Rightarrow> cname" where
  "classroom_text env classroom_id =
     (case get_classroom env classroom_id of Some n \<Rightarrow> Named n | None \<Rightarrow> Unnamed classroom_id)"

subsection \<open>reservation_db.py\<close>

text \<open>\<^verbatim>\<open>datetime.combine(_parse_date(r["date"]), _parse_time(r["start_time"]))\<close>.\<close>

definition reservation_datetime :: "reservation \<Rightarrow> exn + datetime" where
  "reservation_datetime r =
     (case parse_date (r_date r) of
        Inl e \<Rightarrow> Inl e
      | Inr d \<Rightarrow> (case parse_time (r_start_time r) of Inl e \<Rightarrow> Inl e | Inr t \<Rightarrow> Inr (combine d t)))"

text \<open>One of the two \<^verbatim>\<open>if\<close> statements of the loop body of
  \<^verbatim>\<open>count_active_reservations\<close>.\<close>

definition count_role :: "datetime \<Rightarrow> reservation \<Rightarrow> bool \<Rightarrow> nat \<Rightarrow> exn + nat" where
  "count_role now r in_role count =
     (if in_role then
        (case reservation_datetime r of
           Inl e \<Rightarrow> Inl e
         | Inr dt \<Rightarrow> Inr (if dt \<ge> now then count + 1 else count))
      else Inr count)"

fun count_active_loop :: "datetime \<Rightarrow> string \<Rightarrow> reservation list \<Rightarrow> nat \<Rightarrow> exn + nat" where
  "count_active_loop now user_id [] count = Inr count"
| "count_active_loop now user_id (r # rs) count =
     (case count_role now r (r_user_id r = user_id) count of
        Inl e \<Rightarrow> Inl e
      | Inr c1 \<Rightarrow>
          (case count_role now r (user_id \<in> set (r_participants r)) c1 of
             Inl e \<Rightarrow> Inl e
           | Inr c2 \<Rightarrow> count_active_loop now user_id rs c2))"

text \<open>\<^verbatim>\<open>count_active_reservations\<close> (lines 69 to 88); a stored date or time that does not
  parse makes it raise.\<close>

definition count_active_reservations :: "state \<Rightarrow> datetime \<Rightarrow> string \<Rightarrow> exn + nat" where
  "count_active_reservations s now user_id =
     count_active_loop now user_id (map snd (RESERVATIONS s)) 0"

text \<open>Line 177: strip every name, drop the blank ones and the requester, make a set.\<close>

definition clean_participants :: "env \<Rightarrow> string \<Rightarrow> string list option \<Rightarrow> string list" where
  "clean_participants env user_id participants =
     list_of_set env
       (map strip (filter (\<lambda>p. strip p \<noteq> [] \<and> strip p \<noteq> user_id)
          (case participants of None \<Rightarrow> [] | Some ps \<Rightarrow> ps)))"

text \<open>Lines 180 to 187: the first registered participant with three active reservations.\<close>

fun check_participants :: "env \<Rightarrow> state \<Rightarrow> datetime \<Rightarrow> string list \<Rightarrow> exn + string option" where
  "check_participants env s now [] = Inr None"
| "check_participants env s now (p # ps) =
     (if get_user env p then
        (case count_active_reservations s now p of
           Inl e \<Rightarrow> Inl e
         | Inr n \<Rightarrow> if n \<ge> 3 then Inr (Some p) else check_participants env s now ps)
      else check_participants env s now ps)"

text \<open>Lines 190 to 203: start, end and owner of every reservation of the classroom with
  the same date string whose interval overlaps the requested one.\<close>

fun find_conflicts ::
  "int \<Rightarrow> string \<Rightarrow> time \<Rightarrow> time \<Rightarrow> reservation list \<Rightarrow> exn + (string \<times> string \<times> string) list"
where
  "find_conflicts classroom_id reservation_date start_time end_time [] = Inr []"
| "find_conflicts classroom_id reservation_date start_time end_time (r # rs) =
     (if r_classroom_id r = classroom_id \<and> r_date r = reservation_date then
        (case parse_time (r_start_time r) of
           Inl e \<Rightarrow> Inl e
         | Inr existing_start \<Rightarrow>
             (case parse_time (r_end_time r) of
                Inl e \<Rightarrow> Inl e
              | Inr existing_end \<Rightarrow>
                  (case find_conflicts classroom_id reservation_date start_time end_time rs of
                     Inl e \<Rightarrow> Inl e
                   | Inr cs \<Rightarrow>
                       Inr (if is_time_overlap start_time end_time existing_start existing_end
                            then (r_start_time r, r_end_time r, r_user_id r) # cs else cs))))
      else find_conflicts classroom_id reservation_date start_time end_time rs)"

text \<open>
  \<^verbatim>\<open>create_reservation\<close> (lines 135 to 227).  The result is the new state and either the
  exception that left the function or the pair (success, message) it returned.  The
  \<^verbatim>\<open>try\<close> of step 1 catches \<^verbatim>\<open>ValueError\<close> only.
\<close>

definition create_reservation ::
  "env \<Rightarrow> datetime \<Rightarrow> state \<Rightarrow> string \<Rightarrow> int \<Rightarrow> string \<Rightarrow> string \<Rightarrow> string \<Rightarrow> string list option
     \<Rightarrow> state \<times> (exn + bool \<times> message)"
where
  "create_reservation env now s user_id classroom_id reservation_date start_time_str end_time_str
     participants =
     (case parse_date reservation_date of
        Inl ValueError \<Rightarrow> (s, Inr (False, BadDateFormat reservation_date))
      | Inl e \<Rightarrow> (s, Inl e)
      | Inr reservation_date_obj \<Rightarrow>
     (case parse_time start_time_str of
        Inl ValueError \<Rightarrow> (s, Inr (False, BadTimeFormat start_time_str))
      | Inl e \<Rightarrow> (s, Inl e)
      | Inr start_time_obj \<Rightarrow>
     (case parse_time end_time_str of
        Inl ValueError \<Rightarrow> (s, Inr (False, BadTimeFormat end_time_str))
      | Inl e \<Rightarrow> (s, Inl e)
      | Inr end_time_obj \<Rightarrow>
     if is_past_datetime now reservation_date_obj start_time_obj then (s, Inr (False, PastTime))
     else if \<not> is_within_7_days now reservation_date_obj then (s, Inr (False, OutOfWindow))
     else if \<not> is_valid_time_slot start_time_obj end_time_obj then (s, Inr (False, InvalidSlot))
     else
     (case count_active_reservations s now user_id of
        Inl e \<Rightarrow> (s, Inl e)
      | Inr active_count \<Rightarrow>
     if active_count \<ge> 3 then (s, Inr (False, QuotaExceeded))
     else
     (let participants' = clean_participants env user_id participants in
      case check_participants env s now participants' of
        Inl e \<Rightarrow> (s, Inl e)
      | Inr (Some participant_id) \<Rightarrow> (s, Inr (False, ParticipantQuotaExceeded participant_id))
      | Inr None \<Rightarrow>
     (case find_conflicts classroom_id reservation_date start_time_obj end_time_obj
             (map snd (RESERVATIONS s)) of
        Inl e \<Rightarrow> (s, Inl e)
      | Inr conflicting_reservations \<Rightarrow>
     if conflicting_reservations \<noteq> [] then
       (s, Inr (False, TimeConflict start_time_str end_time_str conflicting_reservations))
     else
       (s\<lparr>RESERVATIONS :=
             dict_set (res_next_id s)
               \<lparr>r_user_id = user_id, r_classroom_id = classroom_id, r_date = reservation_date,
                r_start_time = start_time_str, r_end_time = end_time_str,
                r_participants = participants'\<rparr>
               (RESERVATIONS s),
           res_next_id := res_next_id s + 1\<rparr>,
        Inr (True, ReservationCreated))))))))"

text \<open>\<^verbatim>\<open>cancel_reservation\<close> (lines 260 to 271) and \<^verbatim>\<open>delete_reservation\<close> (273 to 279).\<close>

definition cancel_reservation :: "state \<Rightarrow> int \<Rightarrow> string \<Rightarrow> state \<times> bool \<times> message" where
  "cancel_reservation s reservation_id user_id =
     (case dict_get (RESERVATIONS s) reservation_id of
        None \<Rightarrow> (s, False, ReservationNotFound)
      | Some reservation \<Rightarrow>
          if r_user_id reservation \<noteq> user_id then (s, False, NotReservationOwner)
          else (s\<lparr>RESERVATIONS := dict_del reservation_id (RESERVATIONS s)\<rparr>,
                True, ReservationCancelled))"

definition delete_reservation :: "state \<Rightarrow> int \<Rightarrow> state \<times> bool" where
  "delete_reservation s reservation_id =
     (if reservation_id \<in> set (dict_keys (RESERVATIONS s))
      then (s\<lparr>RESERVATIONS := dict_del reservation_id (RESERVATIONS s)\<rparr>, True)
      else (s, False))"

subsection \<open>notification_db.py\<close>

text \<open>\<^verbatim>\<open>create_notification\<close> (lines 42 to 56).\<close>

definition create_notification :: "datetime \<Rightarrow> state \<Rightarrow> string \<Rightarrow> int \<Rightarrow> message \<Rightarrow> state" where
  "create_notification now s user_id reservation_id msg =
     s\<lparr>NOTIFICATIONS :=
         dict_set (notif_next_id s)
           \<lparr>n_user_id = user_id, n_reservation_id = reservation_id, n_message = msg,
            n_created_at = now, n_read = False\<rparr>
           (NOTIFICATIONS s),
       notif_next_id := notif_next_id s + 1\<rparr>"

text \<open>\<^verbatim>\<open>get_user_notifications(user_id)\<close> (lines 58 to 71) with \<^verbatim>\<open>unread_only\<close> false:
  the notifications of the user, newest first.\<close>

definition get_user_notifications :: "state \<Rightarrow> string \<Rightarrow> (int \<times> notification) list" where
  "get_user_notifications s user_id =
     sort_by (\<lambda>a b. n_created_at (snd a) \<ge> n_created_at (snd b))
       (filter (\<lambda>p. n_user_id (snd p) = user_id) (NOTIFICATIONS s))"

text \<open>\<^verbatim>\<open>mark_as_read\<close> (lines 73 to 84) and \<^verbatim>\<open>mark_all_as_read\<close> (86 to 96).\<close>

definition mark_as_read :: "state \<Rightarrow> int \<Rightarrow> string \<Rightarrow> state \<times> bool" where
  "mark_as_read s notification_id user_id =
     (case dict_get (NOTIFICATIONS s) notification_id of
        None \<Rightarrow> (s, False)
      | Some n \<Rightarrow>
          if n_user_id n \<noteq> user_id then (s, False)
          else (s\<lparr>NOTIFICATIONS :=
                    map (\<lambda>p. if fst p = notification_id then (fst p, (snd p)\<lparr>n_read := True\<rparr>) else p)
                      (NOTIFICATIONS s)\<rparr>, True))"

definition mark_all_as_read :: "state \<Rightarrow> string \<Rightarrow> state \<times> nat" where
  "mark_all_as_read s user_id =
     (s\<lparr>NOTIFICATIONS :=
          map (\<lambda>p. if n_user_id (snd p) = user_id \<and> \<not> n_read (snd p)
                   then (fst p, (snd p)\<lparr>n_read := True\<rparr>) else p)
            (NOTIFICATIONS s)\<rparr>,
      length (filter (\<lambda>p. n_user_id (snd p) = user_id \<and> \<not> n_read (snd p)) (NOTIFICATIONS s)))"

text \<open>
  The marker the scan looks for in a message (line 170), as UTF-8 bytes: the digits 3 and
  0, a Hangul syllable, a blank, a syllable, a blank and two syllables.
\<close>

definition reminder_marker :: string where
  "reminder_marker =
     map char_of [0x33, 0x30, 0xEB, 0xB6, 0x84, 0x20, 0xEC, 0xA0, 0x84, 0x20,
                  0xEC, 0x95, 0x8C, 0xEB, 0xA6, 0xBC :: nat]"

fun contains :: "string \<Rightarrow> string \<Rightarrow> bool" where
  "contains m [] \<longleftrightarrow> m = []"
| "contains m (c # cs) \<longleftrightarrow> take (length m) (c # cs) = m \<or> contains m cs"

text \<open>
  \<^verbatim>\<open>"..." in n["message"]\<close>: the reminder text ends with the marker; in the promotion
  text only the classroom name can hold it (the fixed words do not, and date and times of
  a promotion have been parsed); the fallback classroom text does not.
\<close>

fun has_marker :: "message \<Rightarrow> bool" where
  "has_marker (Reminder c t) \<longleftrightarrow> True"
| "has_marker (Promoted (Named n) d st en) \<longleftrightarrow> contains reminder_marker n"
| "has_marker m \<longleftrightarrow> False"

text \<open>Lines 166 to 172: has the owner a reminder for this reservation already?\<close>

definition notification_exists :: "state \<Rightarrow> string \<Rightarrow> int \<Rightarrow> bool" where
  "notification_exists s user_id reservation_id \<longleftrightarrow>
     list_ex (\<lambda>p. n_reservation_id (snd p) = reservation_id \<and> has_marker (n_message (snd p)))
       (get_user_notifications s user_id)"

text \<open>Lines 184 to 187: a notification for every participant who is a registered user.\<close>

fun notify_participants :: "env \<Rightarrow> datetime \<Rightarrow> int \<Rightarrow> message \<Rightarrow> string list \<Rightarrow> state \<Rightarrow> state" where
  "notify_participants env now reservation_id msg [] s = s"
| "notify_participants env now reservation_id msg (p # ps) s =
     notify_participants env now reservation_id msg ps
       (if get_user env p then create_notification now s p reservation_id msg else s)"

text \<open>
  Line 161 and 163: the distance between the start of the reservation and \<open>now\<close> plus 30
  minutes is at most 300 seconds.  \<^verbatim>\<open>total_seconds()\<close> is the quotient of a whole number
  of microseconds by one million, rounded to a float; 300 is a float, so the comparison holds
  exactly when the distance is at most 300000000 microseconds.
\<close>

definition reminder_due :: "datetime \<Rightarrow> datetime \<Rightarrow> bool" where
  "reminder_due now starts_at \<longleftrightarrow> \<bar>starts_at - (now + 30 * 60000000)\<bar> \<le> 300000000"

text \<open>
  The loop of \<^verbatim>\<open>check_and_create_notifications\<close> (lines 154 to 189).  The \<^verbatim>\<open>except\<close>
  clause skips a reservation on \<^verbatim>\<open>ValueError\<close> and \<^verbatim>\<open>KeyError\<close>; any other exception ends
  the scan and leaves the notifications made so far.
\<close>

fun scan_loop :: "env \<Rightarrow> datetime \<Rightarrow> (int \<times> reservation) list \<Rightarrow> state \<Rightarrow> state \<times> (exn + unit)" where
  "scan_loop env now [] s = (s, Inr ())"
| "scan_loop env now ((reservation_id, reservation) # rest) s =
     (case reservation_datetime reservation of
        Inl OverflowError \<Rightarrow> (s, Inl OverflowError)
      | Inl e \<Rightarrow> scan_loop env now rest s
      | Inr dt \<Rightarrow>
          if reminder_due now dt \<and> \<not> notification_exists s (r_user_id reservation) reservation_id
          then
            (let msg = Reminder (classroom_text env (r_classroom_id reservation))
                         (r_start_time reservation);
                 s1 = create_notification now s (r_user_id reservation) reservation_id msg
             in scan_loop env now rest
                  (notify_participants env now reservation_id msg (r_participants reservation) s1))
          else scan_loop env now rest s)"

definition check_and_create_notifications :: "env \<Rightarrow> datetime \<Rightarrow> state \<Rightarrow> state \<times> (exn + unit)" where
  "check_and_create_notifications env now s = scan_loop env now (RESERVATIONS s) s"

subsection \<open>waitlist_db.py\<close>

text \<open>The test on classroom, date, start and end that lines 92 to 95, 161 to 164 and 250
  to 253 make.\<close>

definition same_slot :: "int \<Rightarrow> string \<Rightarrow> string \<Rightarrow> string \<Rightarrow> waitlist_entry \<Rightarrow> bool" where
  "same_slot classroom_id date' start_time end_time e \<longleftrightarrow>
     w_classroom_id e = classroom_id \<and> w_date e = date' \<and> w_start_time e = start_time \<and>
     w_end_time e = end_time"

text \<open>\<^verbatim>\<open>create_waitlist_entry\<close> (lines 52 to 112).\<close>

definition create_waitlist_entry ::
  "datetime \<Rightarrow> state \<Rightarrow> string \<Rightarrow> int \<Rightarrow> string \<Rightarrow> string \<Rightarrow> string \<Rightarrow> state \<times> (exn + bool \<times> message)"
where
  "create_waitlist_entry now s user_id classroom_id reservation_date start_time_str end_time_str =
     (case count_active_reservations s now user_id of
        Inl e \<Rightarrow> (s, Inl e)
      | Inr active_count \<Rightarrow>
     if active_count \<ge> 3 then (s, Inr (False, WaitlistQuota))
     else
     (case parse_date reservation_date of
        Inl ValueError \<Rightarrow> (s, Inr (False, BadDateFormat reservation_date))
      | Inl e \<Rightarrow> (s, Inl e)
      | Inr reservation_date_obj \<Rightarrow>
     (case parse_time start_time_str of
        Inl ValueError \<Rightarrow> (s, Inr (False, BadTimeFormat start_time_str))
      | Inl e \<Rightarrow> (s, Inl e)
      | Inr start_time_obj \<Rightarrow>
     (case parse_time end_time_str of
        Inl ValueError \<Rightarrow> (s, Inr (False, BadTimeFormat end_time_str))
      | Inl e \<Rightarrow> (s, Inl e)
      | Inr end_time_obj \<Rightarrow>
     if list_ex (\<lambda>e. w_user_id e = user_id \<and>
                      same_slot classroom_id reservation_date start_time_str end_time_str e)
          (map snd (WAITLIST s))
     then (s, Inr (False, WaitlistDuplicate))
     else
     (let priority = length (filter (same_slot classroom_id reservation_date start_time_str
                                       end_time_str) (map snd (WAITLIST s)))
      in (s\<lparr>WAITLIST :=
               dict_set (wl_next_id s)
                 \<lparr>w_user_id = user_id, w_classroom_id = classroom_id, w_date = reservation_date,
                  w_start_time = start_time_str, w_end_time = end_time_str,
                  w_created_at = now, w_priority = priority\<rparr>
                 (WAITLIST s),
             wl_next_id := wl_next_id s + 1\<rparr>,
          Inr (True, WaitlistCreated (priority + 1))))))))"

text \<open>
  The loop that gives the entries of a slot their priority again (lines 160 to 172 and
  249 to 260): the number of entries of the slot created strictly earlier.  The loop
  writes priorities only and reads creation times only, so every entry is ranked against
  the same dictionary.
\<close>

definition resync_priorities ::
  "int \<Rightarrow> string \<Rightarrow> string \<Rightarrow> string \<Rightarrow> (int \<times> waitlist_entry) list \<Rightarrow> (int \<times> waitlist_entry) list"
where
  "resync_priorities classroom_id date' start_time end_time wl =
     map (\<lambda>p. if same_slot classroom_id date' start_time end_time (snd p)
              then (fst p, (snd p)\<lparr>w_priority :=
                      length (filter (\<lambda>e. same_slot classroom_id date' start_time end_time e \<and>
                                           w_created_at e < w_created_at (snd p))
                                (map snd wl))\<rparr>)
              else p) wl"

text \<open>\<^verbatim>\<open>cancel_waitlist_entry\<close> (lines 142 to 175).\<close>

definition cancel_waitlist_entry :: "state \<Rightarrow> int \<Rightarrow> string \<Rightarrow> state \<times> bool \<times> message" where
  "cancel_waitlist_entry s waitlist_id user_id =
     (case dict_get (WAITLIST s) waitlist_id of
        None \<Rightarrow> (s, False, WaitlistNotFound)
      | Some entry \<Rightarrow>
          if w_user_id entry \<noteq> user_id then (s, False, NotWaitlistOwner)
          else
            (s\<lparr>WAITLIST :=
                 resync_priorities (w_classroom_id entry) (w_date entry) (w_start_time entry)
                   (w_end_time entry) (dict_del waitlist_id (WAITLIST s))\<rparr>,
             True, WaitlistCancelled))"

text \<open>
  Lines 197 to 210: the entries of the classroom and date string whose interval overlaps
  the freed one.  An entry whose time raises \<^verbatim>\<open>ValueError\<close> is skipped; another exception
  leaves the function.
\<close>

fun find_matching ::
  "int \<Rightarrow> string \<Rightarrow> time \<Rightarrow> time \<Rightarrow> (int \<times> waitlist_entry) list \<Rightarrow> exn + (int \<times> waitlist_entry) list"
where
  "find_matching classroom_id date' cancelled_start cancelled_end [] = Inr []"
| "find_matching classroom_id date' cancelled_start cancelled_end ((entry_id, entry) # rest) =
     (if w_classroom_id entry = classroom_id \<and> w_date entry = date' then
        (case parse_time (w_start_time entry) of
           Inl ValueError \<Rightarrow> find_matching classroom_id date' cancelled_start cancelled_end rest
         | Inl e \<Rightarrow> Inl e
         | Inr entry_start \<Rightarrow>
             (case parse_time (w_end_time entry) of
                Inl ValueError \<Rightarrow> find_matching classroom_id date' cancelled_start cancelled_end rest
              | Inl e \<Rightarrow> Inl e
              | Inr entry_end \<Rightarrow>
                  (case find_matching classroom_id date' cancelled_start cancelled_end rest of
                     Inl e \<Rightarrow> Inl e
                   | Inr ms \<Rightarrow>
                       Inr (if is_time_overlap cancelled_start cancelled_end entry_start entry_end
                            then (entry_id, entry) # ms else ms))))
      else find_matching classroom_id date' cancelled_start cancelled_end rest)"

text \<open>Line 213: the sort key is (priority, creation time), compared as a tuple.\<close>

definition entry_le :: "int \<times> waitlist_entry \<Rightarrow> int \<times> waitlist_entry \<Rightarrow> bool" where
  "entry_le a b \<longleftrightarrow>
     w_priority (snd a) < w_priority (snd b) \<or>
     (w_priority (snd a) = w_priority (snd b) \<and> w_created_at (snd a) \<le> w_created_at (snd b))"

text \<open>What \<^verbatim>\<open>process_waitlist_on_reservation_cancelled\<close> returns on a promotion.\<close>

record auto_reservation =
  a_user_id :: string
  a_classroom_id :: int
  a_date :: string
  a_start_time :: string
  a_end_time :: string

text \<open>
  The loop over the sorted candidates (lines 219 to 283).  The candidates are copies made
  before the loop.  \<^verbatim>\<open>del WAITLIST[entry["id"]]\<close> raises \<^verbatim>\<open>KeyError\<close> when the key is gone.
  The notification is made for the largest reservation id, unless that is 0.
\<close>

fun promote_loop ::
  "env \<Rightarrow> datetime \<Rightarrow> int \<Rightarrow> string \<Rightarrow> (int \<times> waitlist_entry) list \<Rightarrow> state
     \<Rightarrow> state \<times> (exn + auto_reservation option)"
where
  "promote_loop env now classroom_id date' [] s = (s, Inr None)"
| "promote_loop env now classroom_id date' ((entry_id, entry) # rest) s =
     (case count_active_reservations s now (w_user_id entry) of
        Inl e \<Rightarrow> (s, Inl e)
      | Inr active_count \<Rightarrow>
          if active_count \<ge> 3 then
            promote_loop env now classroom_id date' rest
              (fst (cancel_waitlist_entry s entry_id (w_user_id entry)))
          else
            (case create_reservation env now s (w_user_id entry) classroom_id date'
                    (w_start_time entry) (w_end_time entry) None of
               (s1, Inl e) \<Rightarrow> (s1, Inl e)
             | (s1, Inr (False, msg)) \<Rightarrow> promote_loop env now classroom_id date' rest s1
             | (s1, Inr (True, msg)) \<Rightarrow>
                 if entry_id \<notin> set (dict_keys (WAITLIST s1)) then (s1, Inl KeyError)
                 else
                   (let s2 = s1\<lparr>WAITLIST :=
                               resync_priorities classroom_id date' (w_start_time entry)
                                 (w_end_time entry) (dict_del entry_id (WAITLIST s1))\<rparr>;
                        notification_message =
                          Promoted (classroom_text env classroom_id) date' (w_start_time entry)
                            (w_end_time entry);
                        s3 = (if RESERVATIONS s2 \<noteq> [] \<and> max_key (dict_keys (RESERVATIONS s2)) \<noteq> 0
                              then create_notification now s2 (w_user_id entry)
                                     (max_key (dict_keys (RESERVATIONS s2))) notification_message
                              else s2)
                    in (s3, Inr (Some \<lparr>a_user_id = w_user_id entry, a_classroom_id = classroom_id,
                                       a_date = date', a_start_time = w_start_time entry,
                                       a_end_time = w_end_time entry\<rparr>)))))"

text \<open>\<^verbatim>\<open>process_waitlist_on_reservation_cancelled\<close> (lines 177 to 285).\<close>

definition process_waitlist_on_reservation_cancelled ::
  "env \<Rightarrow> datetime \<Rightarrow> state \<Rightarrow> int \<Rightarrow> string \<Rightarrow> string \<Rightarrow> string
     \<Rightarrow> state \<times> (exn + auto_reservation option)"
where
  "process_waitlist_on_reservation_cancelled env now s classroom_id date' start_time end_time =
     (case parse_time start_time of
        Inl ValueError \<Rightarrow> (s, Inr None)
      | Inl e \<Rightarrow> (s, Inl e)
      | Inr cancelled_start \<Rightarrow>
     (case parse_time end_time of
        Inl ValueError \<Rightarrow> (s, Inr None)
      | Inl e \<Rightarrow> (s, Inl e)
      | Inr cancelled_end \<Rightarrow>
     (case find_matching classroom_id date' cancelled_start cancelled_end (WAITLIST s) of
        Inl e \<Rightarrow> (s, Inl e)
      | Inr matching_entries \<Rightarrow>
          if matching_entries = [] then (s, Inr None)
          else promote_loop env now classroom_id date' (sort_by entry_le matching_entries) s)))"

subsection \<open>main.py\<close>

text \<open>
  \<^verbatim>\<open>cancel_reservation_post\<close> (lines 539 to 558): the reservation is read, cancelled, and
  on success its classroom, date and interval go to the waitlist.
\<close>

definition cancel_reservation_post ::
  "env \<Rightarrow> datetime \<Rightarrow> state \<Rightarrow> int \<Rightarrow> string \<Rightarrow> state \<times> (exn + auto_reservation option)"
where
  "cancel_reservation_post env now s reservation_id user_id =
     (case dict_get (RESERVATIONS s) reservation_id of
        None \<Rightarrow> (fst (cancel_reservation s reservation_id user_id), Inr None)
      | Some reservation \<Rightarrow>
          (case cancel_reservation s reservation_id user_id of
             (s1, True, msg) \<Rightarrow>
               process_waitlist_on_reservation_cancelled env now s1 (r_classroom_id reservation)
                 (r_date reservation) (r_start_time reservation) (r_end_time reservation)
           | (s1, False, msg) \<Rightarrow> (s1, Inr None)))"

subsection \<open>Predicates of the properties\<close>

text \<open>The reservation is for this classroom and date string and its interval overlaps
  the interval from \<open>start_time\<close> to \<open>end_time\<close>.\<close>

definition conflicts_with :: "int \<Rightarrow> string \<Rightarrow> time \<Rightarrow> time \<Rightarrow> reservation \<Rightarrow> bool" where
  "conflicts_with classroom_id reservation_date start_time end_time r \<longleftrightarrow>
     r_classroom_id r = classroom_id \<and> r_date r = reservation_date \<and>
     (case parse_time (r_start_time r) of
        Inl e \<Rightarrow> False
      | Inr existing_start \<Rightarrow>
          (case parse_time (r_end_time r) of
             Inl e \<Rightarrow> False
           | Inr existing_end \<Rightarrow> is_time_overlap start_time end_time existing_start existing_end))"

definition conflict_triple :: "reservation \<Rightarrow> string \<times> string \<times> string" where
  "conflict_triple r = (r_start_time r, r_end_time r, r_user_id r)"

text \<open>A reservation is active when it starts at \<open>now\<close> or later; a user is involved in
  the reservations he owns and in those that list him as a participant.\<close>

definition active :: "datetime \<Rightarrow> reservation \<Rightarrow> bool" where
  "active now r \<longleftrightarrow> (case reservation_datetime r of Inl e \<Rightarrow> False | Inr dt \<Rightarrow> dt \<ge> now)"

definition involves :: "string \<Rightarrow> reservation \<Rightarrow> bool" where
  "involves user_id r \<longleftrightarrow> r_user_id r = user_id \<or> user_id \<in> set (r_participants r)"

text \<open>What one reservation adds to the count of \<open>count_active_reservations\<close>: one for
  the owner role and one for the participant role.\<close>

definition weight :: "datetime \<Rightarrow> string \<Rightarrow> reservation \<Rightarrow> nat" where
  "weight now user_id r =
     (if r_user_id r = user_id \<and> active now r then 1 else 0) +
     (if user_id \<in> set (r_participants r) \<and> active now r then 1 else 0)"

text \<open>A directory without users and classrooms, a set order that keeps the order of the
  list, and a clock reading: 1 January 2030, 08:00.\<close>

definition env0 :: env where
  "env0 = \<lparr>get_user = (\<lambda>u. False), get_classroom = (\<lambda>c. None), set_order = (\<lambda>xs. xs)\<rparr>"

definition now0 :: datetime where
  "now0 = mk_datetime 2030 1 1 8 0 0 0"

text \<open>The state after alice has booked classroom 1 on 1 January 2030 from 14:00 to
  15:00, and after bob has booked 15:00 to 16:00 as well.\<close>

definition alice_booked :: state where
  "alice_booked =
     init_state\<lparr>RESERVATIONS :=
       [(1, \<lparr>r_user_id = ''alice'', r_classroom_id = 1, r_date = ''2030-01-01'',
             r_start_time = ''14:00'', r_end_time = ''15:00'', r_participants = []\<rparr>)],
       res_next_id := 2\<rparr>"

definition both_booked :: state where
  "both_booked =
     init_state\<lparr>RESERVATIONS :=
       [(1, \<lparr>r_user_id = ''alice'', r_classroom_id = 1, r_date = ''2030-01-01'',
             r_start_time = ''14:00'', r_end_time = ''15:00'', r_participants = []\<rparr>),
        (2, \<lparr>r_user_id = ''bob'', r_classroom_id = 1, r_date = ''2030-01-01'',
             r_start_time = ''15:00'', r_end_time = ''16:00'', r_participants = []\<rparr>)],
       res_next_id := 3\<rparr>"

text \<open>The state after alice has booked with the participants bob and carol, and the
  state in which alice holds three reservations on three days.\<close>

definition team_booked :: state where
  "team_booked =
     init_state\<lparr>RESERVATIONS :=
       [(1, \<lparr>r_user_id = ''alice'', r_classroom_id = 1, r_date = ''2030-01-01'',
             r_start_time = ''14:00'', r_end_time = ''15:00'',
             r_participants = [''bob'', ''carol'']\<rparr>)],
       res_next_id := 2\<rparr>"

definition three_booked :: state where
  "three_booked =
     init_state\<lparr>RESERVATIONS :=
       [(1, \<lparr>r_user_id = ''alice'', r_classroom_id = 1, r_date = ''2030-01-01'',
             r_start_time = ''14:00'', r_end_time = ''15:00'', r_participants = []\<rparr>),
        (2, \<lparr>r_user_id = ''alice'', r_classroom_id = 1, r_date = ''2030-01-02'',
             r_start_time = ''14:00'', r_end_time = ''15:00'', r_participants = []\<rparr>),
        (3, \<lparr>r_user_id = ''alice'', r_classroom_id = 1, r_date = ''2030-01-03'',
             r_start_time = ''14:00'', r_end_time = ''15:00'', r_participants = []\<rparr>)],
       res_next_id := 4\<rparr>"

text \<open>
  Two reservations are booked on top of each other when they are for the same classroom
  and the same date and their intervals overlap.  The date of a reservation is the day
  its date string stands for (\<open>double_booked\<close>); \<open>double_booked_text\<close> asks for the same
  date string instead, which is what \<open>find_conflicts\<close> compares.
\<close>

definition times_overlap :: "reservation \<Rightarrow> reservation \<Rightarrow> bool" where
  "times_overlap a b \<longleftrightarrow>
     (case (parse_time (r_start_time a), parse_time (r_end_time a),
            parse_time (r_start_time b), parse_time (r_end_time b)) of
        (Inr sa, Inr ea, Inr sb, Inr eb) \<Rightarrow> is_time_overlap sa ea sb eb
      | _ \<Rightarrow> False)"

definition same_day :: "reservation \<Rightarrow> reservation \<Rightarrow> bool" where
  "same_day a b \<longleftrightarrow>
     (case (parse_date (r_date a), parse_date (r_date b)) of
        (Inr da, Inr db) \<Rightarrow> da = db
      | _ \<Rightarrow> False)"

definition double_booked :: "reservation \<Rightarrow> reservation \<Rightarrow> bool" where
  "double_booked a b \<longleftrightarrow> r_classroom_id a = r_classroom_id b \<and> same_day a b \<and> times_overlap a b"

definition double_booked_text :: "reservation \<Rightarrow> reservation \<Rightarrow> bool" where
  "double_booked_text a b \<longleftrightarrow>
     r_classroom_id a = r_classroom_id b \<and> r_date a = r_date b \<and> times_overlap a b"

text \<open>No two entries at different places of the list are related.\<close>

fun pairwise_free :: "('a \<Rightarrow> 'a \<Rightarrow> bool) \<Rightarrow> 'a list \<Rightarrow> bool" where
  "pairwise_free R [] \<longleftrightarrow> True"
| "pairwise_free R (x # xs) \<longleftrightarrow> list_all (\<lambda>y. \<not> R x y) xs \<and> pairwise_free R xs"

definition no_overlap_text :: "state \<Rightarrow> bool" where
  "no_overlap_text s \<longleftrightarrow> pairwise_free double_booked_text (map snd (RESERVATIONS s))"

text \<open>The state after alice has booked classroom 1 on ``2030-01-01'' from 14:00 to 15:00
  and bob has booked the same classroom and hour on ``2030-1-1''.\<close>

definition respelled_booked :: state where
  "respelled_booked =
     init_state\<lparr>RESERVATIONS :=
       [(1, \<lparr>r_user_id = ''alice'', r_classroom_id = 1, r_date = ''2030-01-01'',
             r_start_time = ''14:00'', r_end_time = ''15:00'', r_participants = []\<rparr>),
        (2, \<lparr>r_user_id = ''bob'', r_classroom_id = 1, r_date = ''2030-1-1'',
             r_start_time = ''14:00'', r_end_time = ''15:00'', r_participants = []\<rparr>)],
       res_next_id := 3\<rparr>"

text \<open>
  The states the stores can be in.  Keys of a dictionary are distinct, at least 1 and
  below the counter; the dates and times stored in a reservation parse, its participants
  are distinct and do not contain its owner; the times stored in a waitlist entry parse.
\<close>

definition keys_ok :: "int \<Rightarrow> (int \<times> 'v) list \<Rightarrow> bool" where
  "keys_ok next_id d \<longleftrightarrow>
     1 \<le> next_id \<and> distinct (dict_keys d) \<and>
     list_all (\<lambda>k. 1 \<le> k \<and> k < next_id) (dict_keys d)"

definition reservation_ok :: "reservation \<Rightarrow> bool" where
  "reservation_ok r \<longleftrightarrow>
     \<not> isl (parse_date (r_date r)) \<and> \<not> isl (parse_time (r_start_time r)) \<and>
     \<not> isl (parse_time (r_end_time r)) \<and>
     distinct (r_participants r) \<and> r_user_id r \<notin> set (r_participants r)"

definition entry_ok :: "waitlist_entry \<Rightarrow> bool" where
  "entry_ok e \<longleftrightarrow> \<not> isl (parse_time (w_start_time e)) \<and> \<not> isl (parse_time (w_end_time e))"

definition state_ok :: "state \<Rightarrow> bool" where
  "state_ok s \<longleftrightarrow>
     keys_ok (res_next_id s) (RESERVATIONS s) \<and>
     list_all reservation_ok (map snd (RESERVATIONS s)) \<and>
     keys_ok (wl_next_id s) (WAITLIST s) \<and>
     list_all entry_ok (map snd (WAITLIST s)) \<and>
     keys_ok (notif_next_id s) (NOTIFICATIONS s)"

text \<open>
  The states reached from the empty stores by the operations, each with any arguments,
  any directory and any clock reading; \<open>clock_ok\<close> restricts the clock readings at which
  a waitlist entry is created.
\<close>

inductive reach :: "(state \<Rightarrow> datetime \<Rightarrow> bool) \<Rightarrow> state \<Rightarrow> bool"
  for clock_ok :: "state \<Rightarrow> datetime \<Rightarrow> bool"
where
  reach_init: "reach clock_ok init_state"
| reach_create_reservation:
    "reach clock_ok s \<Longrightarrow>
     reach clock_ok (fst (create_reservation env now s user_id classroom_id d st en ps))"
| reach_cancel_reservation:
    "reach clock_ok s \<Longrightarrow> reach clock_ok (fst (cancel_reservation s reservation_id user_id))"
| reach_delete_reservation:
    "reach clock_ok s \<Longrightarrow> reach clock_ok (fst (delete_reservation s reservation_id))"
| reach_process_waitlist:
    "reach clock_ok s \<Longrightarrow>
     reach clock_ok
       (fst (process_waitlist_on_reservation_cancelled env now s classroom_id d st en))"
| reach_cancel_reservation_post:
    "reach clock_ok s \<Longrightarrow>
     reach clock_ok (fst (cancel_reservation_post env now s reservation_id user_id))"
| reach_create_waitlist_entry:
    "reach clock_ok s \<Longrightarrow> clock_ok s now \<Longrightarrow>
     reach clock_ok (fst (create_waitlist_entry now s user_id classroom_id d st en))"
| reach_cancel_waitlist_entry:
    "reach clock_ok s \<Longrightarrow> reach clock_ok (fst (cancel_waitlist_entry s waitlist_id user_id))"
| reach_check_notifications:
    "reach clock_ok s \<Longrightarrow> reach clock_ok (fst (check_and_create_notifications env now s))"
| reach_mark_as_read:
    "reach clock_ok s \<Longrightarrow> reach clock_ok (fst (mark_as_read s notification_id user_id))"
| reach_mark_all_as_read:
    "reach clock_ok s \<Longrightarrow> reach clock_ok (fst (mark_all_as_read s user_id))"

definition reachable :: "state \<Rightarrow> bool" where
  "reachable s \<longleftrightarrow> reach (\<lambda>s now. True) s"

text \<open>
  The clock readings at which a waitlist entry may be created when the clock advances:
  later than the creation time of every entry in the waitlist.
\<close>

definition clock_fresh :: "state \<Rightarrow> datetime \<Rightarrow> bool" where
  "clock_fresh s now \<longleftrightarrow> list_all (\<lambda>e. w_created_at e < now) (map snd (WAITLIST s))"

text \<open>The entries waiting for one classroom, date, start and end, in the order of the
  dictionary.\<close>

definition slot_entries :: "int \<Rightarrow> string \<Rightarrow> string \<Rightarrow> string \<Rightarrow> state \<Rightarrow> waitlist_entry list" where
  "slot_entries classroom_id date' start_time end_time s =
     filter (same_slot classroom_id date' start_time end_time) (map snd (WAITLIST s))"

text \<open>A dense ranking by creation time: the entries are in the order of their creation
  times, all different, and their priorities are 0, 1, ..., n - 1 in that order.\<close>

definition ranked_slot :: "waitlist_entry list \<Rightarrow> bool" where
  "ranked_slot es \<longleftrightarrow>
     sorted_wrt (<) (map w_created_at es) \<and> map w_priority es = [0..<length es]"

text \<open>Three users wait for classroom 1 on 1 January 2030 from 14:00 to 15:00: alice and
  bob with the same clock reading, carol a second later.  Then carol leaves.\<close>

definition waiting :: "string \<Rightarrow> datetime \<Rightarrow> nat \<Rightarrow> waitlist_entry" where
  "waiting user_id created priority =
     \<lparr>w_user_id = user_id, w_classroom_id = 1, w_date = ''2030-01-01'',
      w_start_time = ''14:00'', w_end_time = ''15:00'', w_created_at = created,
      w_priority = priority\<rparr>"

definition queue1 :: state where
  "queue1 = init_state\<lparr>WAITLIST := [(1, waiting ''alice'' now0 0)], wl_next_id := 2\<rparr>"

definition queue2 :: state where
  "queue2 = init_state\<lparr>WAITLIST := [(1, waiting ''alice'' now0 0), (2, waiting ''bob'' now0 1)],
                        wl_next_id := 3\<rparr>"

definition queue3 :: state where
  "queue3 = init_state\<lparr>WAITLIST := [(1, waiting ''alice'' now0 0), (2, waiting ''bob'' now0 1),
                                     (3, waiting ''carol'' (now0 + 1000000) 2)],
                        wl_next_id := 4\<rparr>"

definition tie_state :: state where
  "tie_state = init_state\<lparr>WAITLIST := [(1, waiting ''alice'' now0 0), (2, waiting ''bob'' now0 0)],
                           wl_next_id := 4\<rparr>"

text \<open>
  The invariant of the waitlist under an advancing clock: the entries are in the order of
  their creation times, all different, and the entries of every slot carry the priorities
  0 to n - 1 in that order.  \<open>cand_ok\<close> says of the candidates of a promotion that an
  entry stored under the key of a candidate has the classroom, date, start and end of the
  candidate.
\<close>

definition ranked_waitlist :: "(int \<times> waitlist_entry) list \<Rightarrow> bool" where
  "ranked_waitlist wl \<longleftrightarrow>
     sorted_wrt (<) (map (\<lambda>p. w_created_at (snd p)) wl) \<and>
     (\<forall>c d st en. map w_priority (filter (same_slot c d st en) (map snd wl))
                   = [0..<length (filter (same_slot c d st en) (map snd wl))])"

definition cand_ok :: "int \<Rightarrow> string \<Rightarrow> (int \<times> waitlist_entry) list \<Rightarrow> (int \<times> waitlist_entry) list \<Rightarrow> bool" where
  "cand_ok c d wl ms \<longleftrightarrow>
     (\<forall>(wid, e) \<in> set ms. \<forall>e'. (wid, e') \<in> set wl \<longrightarrow>
        same_slot c d (w_start_time e) (w_end_time e) e')"

text \<open>Alice and bob wait for the same slot, bob a second after alice; then alice
  leaves.\<close>

definition fifo2 :: state where
  "fifo2 = init_state\<lparr>WAITLIST := [(1, waiting ''alice'' now0 0),
                                    (2, waiting ''bob'' (now0 + 1000000) 1)],
                       wl_next_id := 3\<rparr>"

definition fifo_left :: state where
  "fifo_left = init_state\<lparr>WAITLIST := [(2, waiting ''bob'' (now0 + 1000000) 0)],
                           wl_next_id := 3\<rparr>"

text \<open>The reminder of the reservation is due at \<open>now\<close>: its start is within 300
  seconds of \<open>now\<close> plus 30 minutes.\<close>

definition due :: "datetime \<Rightarrow> reservation \<Rightarrow> bool" where
  "due now r \<longleftrightarrow> (case reservation_datetime r of Inl e \<Rightarrow> False | Inr dt \<Rightarrow> reminder_due now dt)"

text \<open>A directory in which bob is a registered user and classroom 1 is called Room A; the
  clock reading 1 January 2030, 13:30; and the state after the scan at that reading has
  reminded alice and bob of the reservation of \<open>team_booked\<close>.\<close>

definition env1 :: env where
  "env1 = \<lparr>get_user = (\<lambda>u. u = ''bob''),
           get_classroom = (\<lambda>c. if c = 1 then Some ''Room A'' else None),
           set_order = (\<lambda>xs. xs)\<rparr>"

definition now1 :: datetime where
  "now1 = mk_datetime 2030 1 1 13 30 0 0"

definition team_reminded :: state where
  "team_reminded =
     team_booked\<lparr>NOTIFICATIONS :=
       [(1, \<lparr>n_user_id = ''alice'', n_reservation_id = 1,
             n_message = Reminder (Named ''Room A'') ''14:00'', n_created_at = now1,
             n_read = False\<rparr>),
        (2, \<lparr>n_user_id = ''bob'', n_reservation_id = 1,
             n_message = Reminder (Named ''Room A'') ''14:00'', n_created_at = now1,
             n_read = False\<rparr>)],
       notif_next_id := 3\<rparr>"

text \<open>The entry is for the classroom and date string of the freed slot, its times
  parse and its interval overlaps the freed one: the test of lines 199 to 208 of
  waitlist_db.py.\<close>

definition matches_freed :: "int \<Rightarrow> string \<Rightarrow> time \<Rightarrow> time \<Rightarrow> waitlist_entry \<Rightarrow> bool" where
  "matches_freed classroom_id date' cancelled_start cancelled_end e \<longleftrightarrow>
     w_classroom_id e = classroom_id \<and> w_date e = date' \<and>
     (case parse_time (w_start_time e) of
        Inl x \<Rightarrow> False
      | Inr entry_start \<Rightarrow>
          (case parse_time (w_end_time e) of
             Inl x \<Rightarrow> False
           | Inr entry_end \<Rightarrow> is_time_overlap cancelled_start cancelled_end entry_start entry_end))"

text \<open>Alice has cancelled reservation 1 and bob waits for its slot; then bob has been
  promoted.\<close>

definition bob_waiting :: state where
  "bob_waiting = init_state\<lparr>res_next_id := 2, WAITLIST := [(1, waiting ''bob'' now0 0)],
                             wl_next_id := 2\<rparr>"

definition bob_promoted :: state where
  "bob_promoted =
     \<lparr>RESERVATIONS =
        [(2, \<lparr>r_user_id = ''bob'', r_classroom_id = 1, r_date = ''2030-01-01'',
              r_start_time = ''14:00'', r_end_time = ''15:00'', r_participants = []\<rparr>)],
      res_next_id = 3, WAITLIST = [], wl_next_id = 2,
      NOTIFICATIONS =
        [(1, \<lparr>n_user_id = ''bob'', n_reservation_id = 2,
              n_message = Promoted (Named ''Room A'') ''2030-01-01'' ''14:00'' ''15:00'',
              n_created_at = now0, n_read = False\<rparr>)],
      notif_next_id = 2\<rparr>"

text \<open>
  The entry waits for the freed slot: it is for the classroom and the day of the freed
  reservation and its interval overlaps the freed one.  The day of an entry is the day
  its date string stands for.
\<close>

definition waits_for :: "int \<Rightarrow> date \<Rightarrow> time \<Rightarrow> time \<Rightarrow> waitlist_entry \<Rightarrow> bool" where
  "waits_for classroom_id day cancelled_start cancelled_end e \<longleftrightarrow>
     w_classroom_id e = classroom_id \<and> parse_date (w_date e) = Inr day \<and>
     (case parse_time (w_start_time e) of
        Inl x \<Rightarrow> False
      | Inr entry_start \<Rightarrow>
          (case parse_time (w_end_time e) of
             Inl x \<Rightarrow> False
           | Inr entry_end \<Rightarrow> is_time_overlap cancelled_start cancelled_end entry_start entry_end))"

text \<open>
  Alice holds classroom 1 on ``2030-01-01'' from 14:00 to 15:00 and bob waits for the
  classroom and hour, writing the day ``2030-1-1''; then alice has cancelled and bob still
  waits.
\<close>

definition bob_respelled :: waitlist_entry where
  "bob_respelled =
     \<lparr>w_user_id = ''bob'', w_classroom_id = 1, w_date = ''2030-1-1'',
      w_start_time = ''14:00'', w_end_time = ''15:00'', w_created_at = now0, w_priority = 0\<rparr>"

definition alice_holds_bob_waits :: state where
  "alice_holds_bob_waits = alice_booked\<lparr>WAITLIST := [(1, bob_respelled)], wl_next_id := 2\<rparr>"

definition bob_still_waits :: state where
  "bob_still_waits =
     init_state\<lparr>res_next_id := 2, WAITLIST := [(1, bob_respelled)], wl_next_id := 2\<rparr>"

text \<open>
  The entries that wait for one classroom, day, start and end, in the order of the
  dictionary: the day and the times are those the strings of an entry stand for.
  \<open>spelled\<close> says that every entry of a list writes the date and the times with the given
  strings, and \<open>recomputed\<close> that every entry of a list has the number of entries of the
  list created strictly earlier as its priority.
\<close>

definition day_group :: "int \<Rightarrow> date \<Rightarrow> time \<Rightarrow> time \<Rightarrow> state \<Rightarrow> waitlist_entry list" where
  "day_group classroom_id day start_time end_time s =
     filter (\<lambda>e. w_classroom_id e = classroom_id \<and> parse_date (w_date e) = Inr day \<and>
                 parse_time (w_start_time e) = Inr start_time \<and>
                 parse_time (w_end_time e) = Inr end_time)
       (map snd (WAITLIST s))"

definition spelled :: "string \<Rightarrow> string \<Rightarrow> string \<Rightarrow> waitlist_entry list \<Rightarrow> bool" where
  "spelled date' start_time end_time es \<longleftrightarrow>
     list_all (\<lambda>e. w_date e = date' \<and> w_start_time e = start_time \<and> w_end_time e = end_time) es"

definition recomputed :: "waitlist_entry list \<Rightarrow> bool" where
  "recomputed es \<longleftrightarrow>
     list_all (\<lambda>e. w_priority e = length (filter (\<lambda>e'. w_created_at e' < w_created_at e) es)) es"

text \<open>Alice was first in the queue \<open>fifo2\<close> and has been promoted; bob is first now.\<close>

definition alice_promoted :: state where
  "alice_promoted =
     \<lparr>RESERVATIONS =
        [(1, \<lparr>r_user_id = ''alice'', r_classroom_id = 1, r_date = ''2030-01-01'',
              r_start_time = ''14:00'', r_end_time = ''15:00'', r_participants = []\<rparr>)],
      res_next_id = 2, WAITLIST = [(2, waiting ''bob'' (now0 + 1000000) 0)], wl_next_id = 3,
      NOTIFICATIONS =
        [(1, \<lparr>n_user_id = ''alice'', n_reservation_id = 1,
              n_message = Promoted (Named ''Room A'') ''2030-01-01'' ''14:00'' ''15:00'',
              n_created_at = now0, n_read = False\<rparr>)],
      notif_next_id = 2\<rparr>"

text \<open>Alice waits for classroom 1 on ``2030-01-01'' from 14:00 to 15:00 and bob, a second
  later, for the same classroom and hour on ``2030-1-1''.\<close>

definition two_spellings :: state where
  "two_spellings =
     init_state\<lparr>WAITLIST :=
       [(1, waiting ''alice'' now0 0),
        (2, \<lparr>w_user_id = ''bob'', w_classroom_id = 1, w_date = ''2030-1-1'',
             w_start_time = ''14:00'', w_end_time = ''15:00'', w_created_at = now0 + 1000000,
             w_priority = 0\<rparr>)],
       wl_next_id := 3\<rparr>"

section \<open>Evaluation of the parsers\<close>

lemmas parse_defs =
  parse_date_def match_month_def match_day_def is_digit_def digit_val_def ymd2ord_def
  days_before_year_def days_before_month_def days_in_month_def is_leap_def
  parse_time_def py_int_def trim_def int_space_def unsigned_int_def mk_time_def c_int_range_def

lemma parse_time_2300: "parse_time ''23:00'' = Inr (Time 23 0)"
  by (simp add: parse_defs)

lemma parse_time_0000: "parse_time ''00:00'' = Inr (Time 0 0)"
  by (simp add: parse_defs)

lemma parse_time_1400: "parse_time ''14:00'' = Inr (Time 14 0)"
  by (simp add: parse_defs)

lemma parse_time_1500: "parse_time ''15:00'' = Inr (Time 15 0)"
  by (simp add: parse_defs)

lemma parse_time_1600: "parse_time ''16:00'' = Inr (Time 16 0)"
  by (simp add: parse_defs)

lemma parse_time_1030: "parse_time ''10:30'' = Inr (Time 10 30)"
  by (simp add: parse_defs)

lemma parse_time_1100: "parse_time ''11:00'' = Inr (Time 11 0)"
  by (simp add: parse_defs)

lemma parse_date_2030_01_01: "parse_date ''2030-01-01'' = Inr 741078"
  by (simp add: parse_defs)

lemma parse_date_2030_1_1: "parse_date ''2030-1-1'' = Inr 741078"
  by (simp add: parse_defs)

lemma parse_date_2030_01_02: "parse_date ''2030-01-02'' = Inr 741079"
  by (simp add: parse_defs)

lemma parse_date_2030_01_03: "parse_date ''2030-01-03'' = Inr 741080"
  by (simp add: parse_defs)

lemma parse_date_2029_12_31: "parse_date ''2029-12-31'' = Inr 741077"
  by (simp add: parse_defs)

lemma parse_date_2030_01_09: "parse_date ''2030-01-09'' = Inr 741086"
  by (simp add: parse_defs)

section \<open>Slots and overlap\<close>

text \<open>
  What \<open>is_valid_time_slot\<close> computes: both times on the hour and the start before the
  end.  An end at midnight is never after a start, so the branch for 23:00 to 00:00 is
  never reached.
\<close>

lemma is_valid_time_slot_iff:
  "is_valid_time_slot start_time end_time \<longleftrightarrow>
     minute start_time = 0 \<and> minute end_time = 0 \<and> time_less start_time end_time"
  by (auto simp: is_valid_time_slot_def time_ge_def time_less_def)

lemma midnight_end_never_valid:
  "hour end_time = 0 \<Longrightarrow> \<not> is_valid_time_slot start_time end_time"
  by (auto simp: is_valid_time_slot_def time_ge_def time_less_def)

text \<open>
  C3.  The claim: a slot is valid exactly when both times are on the hour, the start is
  before the end, and the end is not midnight unless the start is 23:00; in particular
  23:00 to 00:00 is valid.  The comment of the source (lines 100 to 105) says the same.
  The code returns \<open>False\<close> for 23:00 to 00:00: the test \<^verbatim>\<open>start_time >= end_time\<close>
  of line 97 rejects every end at midnight before the special case of line 104 is reached.
\<close>

theorem C3_last_hour_rejected:
  "parse_time ''23:00'' = Inr (Time 23 0) \<and> parse_time ''00:00'' = Inr (Time 0 0) \<and>
   is_valid_time_slot (Time 23 0) (Time 0 0) = False"
  by (simp add: parse_time_2300 parse_time_0000 is_valid_time_slot_def time_ge_def time_less_def)

theorem C3_last_hour_rejected_witness:
  "\<not> is_valid_time_slot (Time 23 0) (Time 0 0) \<and> time_ge (Time 23 0) (Time 0 0)"
  using C3_last_hour_rejected by (simp add: time_ge_def time_less_def)

lemma time_less_minutes:
  "valid_time a \<Longrightarrow> valid_time b \<Longrightarrow> time_less a b \<longleftrightarrow> time_to_minutes a < time_to_minutes b"
  by (cases a; cases b) (auto simp: valid_time_def time_less_def time_to_minutes_def)

text \<open>
  C7.  \<open>is_time_overlap\<close> on four times is \<open>startA < endB\<close> and \<open>startB < endA\<close> (on
  the minutes of the day as the code computes them, hence in the order of Python on the
  times Python can build); it is symmetric in the two intervals; and it is false for two
  intervals that touch, whichever comes first.
\<close>

theorem C7_overlap:
  "is_time_overlap a b c d = (time_to_minutes a < time_to_minutes d \<and> time_to_minutes c < time_to_minutes b) \<and>
   (valid_time a \<and> valid_time b \<and> valid_time c \<and> valid_time d \<longrightarrow>
      is_time_overlap a b c d = (time_less a d \<and> time_less c b)) \<and>
   is_time_overlap a b c d = is_time_overlap c d a b \<and>
   \<not> is_time_overlap a b b d \<and> \<not> is_time_overlap b d a b"
  by (auto simp: is_time_overlap_def time_less_minutes)

theorem C7_overlap_witness:
  "valid_time (Time 10 0) \<and> valid_time (Time 12 0) \<and> valid_time (Time 11 0) \<and> valid_time (Time 13 0) \<and>
   is_time_overlap (Time 10 0) (Time 12 0) (Time 11 0) (Time 13 0) \<and>
   time_less (Time 10 0) (Time 13 0) \<and> time_less (Time 11 0) (Time 12 0) \<and>
   \<not> is_time_overlap (Time 10 0) (Time 11 0) (Time 11 0) (Time 12 0)"
  using C7_overlap [of "Time 10 0" "Time 12 0" "Time 11 0" "Time 13 0"]
        C7_overlap [of "Time 10 0" "Time 11 0" "Time 11 0" "Time 12 0"]
  by (simp add: valid_time_def time_less_def time_to_minutes_def)

section \<open>Creating a reservation\<close>

lemma now0_eval: "now0 = 64029168000000000"
  by (simp add: now0_def mk_datetime_def combine_def day_micros_def parse_defs)

lemma env0_simps [simp]:
  "get_user env0 = (\<lambda>u. False)" "get_classroom env0 = (\<lambda>c. None)" "set_order env0 = (\<lambda>xs. xs)"
  by (simp_all add: env0_def)

lemmas eval_defs =
  create_reservation_def clean_participants_def list_of_set_def count_active_reservations_def
  count_role_def reservation_datetime_def is_past_datetime_def is_within_7_days_def
  date_of_def combine_def day_micros_def now0_eval is_valid_time_slot_def time_ge_def
  time_less_def dict_set_def dict_keys_def dict_del_def dict_get_def init_state_def
  is_time_overlap_def time_to_minutes_def
  parse_time_1400 parse_time_1500 parse_time_1600 parse_time_1030 parse_time_1100
  parse_time_2300 parse_time_0000
  parse_date_2030_01_01 parse_date_2030_1_1 parse_date_2030_01_02 parse_date_2030_01_03
  parse_date_2029_12_31 parse_date_2030_01_09

lemma find_conflicts_eq:
  "find_conflicts c d st en rs = Inr cs \<Longrightarrow>
     cs = map conflict_triple (filter (conflicts_with c d st en) rs)"
  by (induction rs arbitrary: cs)
     (auto simp: conflicts_with_def conflict_triple_def split: if_splits sum.splits)

lemma check_participants_eq:
  "check_participants env s now ps = Inr (Some p) \<Longrightarrow>
     p \<in> set ps \<and> get_user env p \<and> (\<exists>n. count_active_reservations s now p = Inr n \<and> n \<ge> 3)"
  by (induction ps) (auto split: if_splits sum.splits)

lemma create_reservation_success:
  assumes "create_reservation env now s u c d st en ps = (s', Inr (True, m))"
  shows "\<exists>dd t1 t2 n.
           parse_date d = Inr dd \<and> parse_time st = Inr t1 \<and> parse_time en = Inr t2 \<and>
           \<not> is_past_datetime now dd t1 \<and> is_within_7_days now dd \<and> is_valid_time_slot t1 t2 \<and>
           count_active_reservations s now u = Inr n \<and> n < 3 \<and>
           check_participants env s now (clean_participants env u ps) = Inr None \<and>
           find_conflicts c d t1 t2 (map snd (RESERVATIONS s)) = Inr [] \<and>
           m = ReservationCreated \<and>
           s' = s\<lparr>RESERVATIONS :=
                    dict_set (res_next_id s)
                      \<lparr>r_user_id = u, r_classroom_id = c, r_date = d, r_start_time = st,
                       r_end_time = en, r_participants = clean_participants env u ps\<rparr>
                      (RESERVATIONS s),
                  res_next_id := res_next_id s + 1\<rparr>"
  using assms unfolding create_reservation_def Let_def
  by (simp split: sum.splits exn.splits option.splits if_splits)

lemma create_reservation_failure:
  assumes "snd (create_reservation env now s u c d st en ps) \<noteq> Inr (True, ReservationCreated)"
  shows "fst (create_reservation env now s u c d st en ps) = s"
  using assms unfolding create_reservation_def Let_def
  by (simp split: sum.splits exn.splits option.splits if_splits)

lemma alice_books:
  "create_reservation env0 now0 init_state ''alice'' 1 ''2030-01-01'' ''14:00'' ''15:00'' None
     = (alice_booked, Inr (True, ReservationCreated))"
  by (simp add: eval_defs alice_booked_def)

lemma bob_books:
  "create_reservation env0 now0 alice_booked ''bob'' 1 ''2030-01-01'' ''15:00'' ''16:00'' None
     = (both_booked, Inr (True, ReservationCreated))"
  by (simp add: eval_defs alice_booked_def both_booked_def)

lemma map_of_replace:
  "k \<in> fst ` set d \<Longrightarrow> map_of (map (\<lambda>p. if fst p = k then (k, v) else p) d) k = Some v"
  by (induction d) auto

lemma dict_get_dict_set: "dict_get (dict_set k v d) k = Some v"
  by (auto simp: dict_get_def dict_set_def dict_keys_def map_of_replace map_add_Some_iff
      map_of_eq_None_iff)

lemma fold_max_less: "j < k \<Longrightarrow> \<forall>x\<in>set js. x < k \<Longrightarrow> fold max js j < (k::int)"
  by (induction js arbitrary: j) (auto simp: max_def)

lemma max_key_append: "\<forall>x\<in>set ks. x < k \<Longrightarrow> max_key (ks @ [k]) = k"
  by (cases ks) (auto simp: max_def dest: fold_max_less)

text \<open>
  C9, as the code has it.  A successful \<open>create_reservation\<close> stores the new record under
  the value of the counter and adds 1 to the counter; it returns \<open>True\<close> and the fixed
  text \<open>ReservationCreated\<close>, not the id.  When the keys are below the counter the record
  is appended and its id is the largest key, which is how the callers find it.
\<close>

theorem C9_create_stores_under_counter:
  assumes "create_reservation env now s user_id classroom_id d st en ps = (s', Inr (True, m))"
  shows "m = ReservationCreated \<and>
         dict_get (RESERVATIONS s') (res_next_id s)
           = Some \<lparr>r_user_id = user_id, r_classroom_id = classroom_id, r_date = d,
                   r_start_time = st, r_end_time = en,
                   r_participants = clean_participants env user_id ps\<rparr> \<and>
         res_next_id s' = res_next_id s + 1 \<and>
         WAITLIST s' = WAITLIST s \<and> NOTIFICATIONS s' = NOTIFICATIONS s \<and>
         ((\<forall>k\<in>set (dict_keys (RESERVATIONS s)). k < res_next_id s) \<longrightarrow>
            RESERVATIONS s' = RESERVATIONS s @
              [(res_next_id s,
                \<lparr>r_user_id = user_id, r_classroom_id = classroom_id, r_date = d,
                 r_start_time = st, r_end_time = en,
                 r_participants = clean_participants env user_id ps\<rparr>)] \<and>
            max_key (dict_keys (RESERVATIONS s')) = res_next_id s)"
proof -
  from create_reservation_success [OF assms]
  have m: "m = ReservationCreated"
    and s': "s' = s\<lparr>RESERVATIONS :=
                    dict_set (res_next_id s)
                      \<lparr>r_user_id = user_id, r_classroom_id = classroom_id, r_date = d,
                       r_start_time = st, r_end_time = en,
                       r_participants = clean_participants env user_id ps\<rparr>
                      (RESERVATIONS s),
                  res_next_id := res_next_id s + 1\<rparr>"
    by auto
  have g: "dict_get (RESERVATIONS s') (res_next_id s)
           = Some \<lparr>r_user_id = user_id, r_classroom_id = classroom_id, r_date = d,
                   r_start_time = st, r_end_time = en,
                   r_participants = clean_participants env user_id ps\<rparr>"
    by (simp add: s' dict_get_dict_set)
  have app: "RESERVATIONS s' = RESERVATIONS s @
              [(res_next_id s,
                \<lparr>r_user_id = user_id, r_classroom_id = classroom_id, r_date = d,
                 r_start_time = st, r_end_time = en,
                 r_participants = clean_participants env user_id ps\<rparr>)]"
    if "\<forall>k\<in>set (dict_keys (RESERVATIONS s)). k < res_next_id s"
  proof -
    have "res_next_id s \<notin> set (dict_keys (RESERVATIONS s))" using that by auto
    then show ?thesis by (simp add: s' dict_set_def)
  qed
  have mx: "max_key (dict_keys (RESERVATIONS s')) = res_next_id s"
    if "\<forall>k\<in>set (dict_keys (RESERVATIONS s)). k < res_next_id s"
    using that app [OF that] max_key_append [of "dict_keys (RESERVATIONS s)" "res_next_id s"]
    by (simp add: dict_keys_def)
  show ?thesis using m g app mx by (simp add: s')
qed

theorem C9_create_stores_under_counter_witness:
  "create_reservation env0 now0 init_state ''alice'' 1 ''2030-01-01'' ''14:00'' ''15:00'' None
     = (alice_booked, Inr (True, ReservationCreated)) \<and>
   dict_get (RESERVATIONS alice_booked) (res_next_id init_state)
     = Some \<lparr>r_user_id = ''alice'', r_classroom_id = 1, r_date = ''2030-01-01'',
             r_start_time = ''14:00'', r_end_time = ''15:00'',
             r_participants = clean_participants env0 ''alice'' None\<rparr> \<and>
   res_next_id alice_booked = res_next_id init_state + 1"
  using C9_create_stores_under_counter [OF alice_books] alice_books by simp

text \<open>
  C9 as stated fails: the call that creates reservation 1 and the call that creates
  reservation 2 return the same value, so the value returned does not tell the id.
\<close>

theorem C9_same_value_for_two_ids:
  "snd (create_reservation env0 now0 init_state ''alice'' 1 ''2030-01-01'' ''14:00'' ''15:00'' None)
     = snd (create_reservation env0 now0 alice_booked ''bob'' 1 ''2030-01-01'' ''15:00'' ''16:00'' None) \<and>
   dict_keys (RESERVATIONS (fst (create_reservation env0 now0 init_state ''alice'' 1 ''2030-01-01''
                                   ''14:00'' ''15:00'' None))) = [1] \<and>
   dict_keys (RESERVATIONS (fst (create_reservation env0 now0 alice_booked ''bob'' 1 ''2030-01-01''
                                   ''15:00'' ''16:00'' None))) = [1, 2]"
  unfolding alice_books bob_books
  by (simp add: alice_booked_def both_booked_def dict_keys_def init_state_def)

section \<open>Counting active reservations\<close>

lemma count_active_loop_closed:
  "\<forall>r\<in>set rs. involves u r \<longrightarrow> \<not> isl (reservation_datetime r) \<Longrightarrow>
     count_active_loop now u rs c = Inr (c + sum_list (map (weight now u) rs))"
proof (induction rs arbitrary: c)
  case Nil
  then show ?case by simp
next
  case (Cons r rs)
  show ?case
  proof (cases "involves u r")
    case False
    then show ?thesis using Cons
      by (simp add: involves_def count_role_def weight_def)
  next
    case True
    then obtain dt where dt: "reservation_datetime r = Inr dt"
      using Cons.prems by (cases "reservation_datetime r") auto
    show ?thesis using Cons dt
      by (simp add: count_role_def weight_def active_def)
  qed
qed

lemma count_active_loop_parses:
  "count_active_loop now u rs c = Inr n \<Longrightarrow>
     \<forall>r\<in>set rs. involves u r \<longrightarrow> \<not> isl (reservation_datetime r)"
proof (induction rs arbitrary: c)
  case Nil
  then show ?case by simp
next
  case (Cons r rs)
  then show ?case
    by (auto simp: count_role_def involves_def split: sum.splits if_splits)
qed

lemma count_active_closed:
  "list_all reservation_ok (map snd (RESERVATIONS s)) \<Longrightarrow>
     count_active_reservations s now u
       = Inr (sum_list (map (weight now u) (map snd (RESERVATIONS s))))"
  unfolding count_active_reservations_def
  by (subst count_active_loop_closed)
     (auto simp: list_all_iff reservation_ok_def reservation_datetime_def split: sum.splits)

lemma weight_once:
  "r_user_id r \<notin> set (r_participants r) \<Longrightarrow>
     weight now u r = (if involves u r \<and> active now r then 1 else 0)"
  by (auto simp: weight_def involves_def)

lemma sum_weight_once:
  "\<forall>r\<in>set rs. r_user_id r \<notin> set (r_participants r) \<Longrightarrow>
     sum_list (map (weight now u) rs) = length (filter (\<lambda>r. involves u r \<and> active now r) rs)"
  by (induction rs) (auto simp: weight_once)

lemma count_active_once:
  assumes "list_all reservation_ok (map snd (RESERVATIONS s))"
  shows "count_active_reservations s now u
           = Inr (length (filter (\<lambda>r. involves u r \<and> active now r) (map snd (RESERVATIONS s))))"
proof -
  have "\<forall>r\<in>set (map snd (RESERVATIONS s)). r_user_id r \<notin> set (r_participants r)"
    using assms by (auto simp: list_all_iff reservation_ok_def)
  from sum_weight_once [OF this, of now u] count_active_closed [OF assms, of now u]
  show ?thesis by simp
qed

section \<open>Dictionaries\<close>

lemma dict_set_fresh: "k \<notin> set (dict_keys d) \<Longrightarrow> dict_set k v d = d @ [(k, v)]"
  by (simp add: dict_set_def)

lemma keys_ok_fresh: "keys_ok n d \<Longrightarrow> n \<notin> set (dict_keys d)"
  by (auto simp: keys_ok_def list_all_iff)

lemma keys_ok_dict_set: "keys_ok n d \<Longrightarrow> keys_ok (n + 1) (dict_set n v d)"
  by (frule keys_ok_fresh) (auto simp: dict_set_fresh keys_ok_def dict_keys_def list_all_iff)

lemma keys_ok_dict_del: "keys_ok n d \<Longrightarrow> keys_ok n (dict_del k d)"
  by (auto simp: keys_ok_def dict_del_def dict_keys_def list_all_iff distinct_map_filter)

lemma keys_ok_map: "(\<And>p. fst (f p) = fst p) \<Longrightarrow> keys_ok n (map f d) = keys_ok n d"
  by (simp add: keys_ok_def dict_keys_def comp_def)

lemma set_dict_del: "set (dict_del k d) \<subseteq> set d"
  by (auto simp: dict_del_def)

section \<open>Cleaning the participants\<close>

lemma list_of_set_props: "distinct (list_of_set env xs) \<and> set (list_of_set env xs) = set xs"
  by (simp add: list_of_set_def Let_def)

lemma clean_participants_props:
  "distinct (clean_participants env u ps) \<and> u \<notin> set (clean_participants env u ps) \<and>
   [] \<notin> set (clean_participants env u ps) \<and>
   set (clean_participants env u ps)
     = {strip p |p. p \<in> set (case ps of None \<Rightarrow> [] | Some l \<Rightarrow> l) \<and> strip p \<noteq> [] \<and> strip p \<noteq> u}"
  unfolding clean_participants_def by (auto simp: list_of_set_props)

section \<open>The operations keep the stores well formed\<close>

lemma state_ok_init: "state_ok init_state"
  by (simp add: state_ok_def init_state_def keys_ok_def dict_keys_def)

lemma create_reservation_cases:
  obtains (unchanged) "fst (create_reservation env now s u c d st en ps) = s"
        "snd (create_reservation env now s u c d st en ps) \<noteq> Inr (True, ReservationCreated)"
  | (created) "create_reservation env now s u c d st en ps
                 = (fst (create_reservation env now s u c d st en ps), Inr (True, ReservationCreated))"
proof (cases "snd (create_reservation env now s u c d st en ps) = Inr (True, ReservationCreated)")
  case True
  then show ?thesis using created by (metis prod.collapse)
next
  case False
  then show ?thesis using unchanged create_reservation_failure by blast
qed

lemma reservation_ok_list_del:
  "list_all reservation_ok (map snd d) \<Longrightarrow> list_all reservation_ok (map snd (dict_del k d))"
  by (auto simp: list_all_iff dict_del_def)

lemma create_reservation_state_ok:
  assumes "state_ok s"
  shows "state_ok (fst (create_reservation env now s u c d st en ps))"
proof (cases rule: create_reservation_cases [of env now s u c d st en ps])
  case unchanged
  then show ?thesis using assms by simp
next
  case created
  from create_reservation_success [OF created]
  obtain dd t1 t2 where p: "parse_date d = Inr dd" "parse_time st = Inr t1" "parse_time en = Inr t2"
    and s': "fst (create_reservation env now s u c d st en ps)
             = s\<lparr>RESERVATIONS :=
                    dict_set (res_next_id s)
                      \<lparr>r_user_id = u, r_classroom_id = c, r_date = d, r_start_time = st,
                       r_end_time = en, r_participants = clean_participants env u ps\<rparr>
                      (RESERVATIONS s),
                  res_next_id := res_next_id s + 1\<rparr>"
    by blast
  have k: "keys_ok (res_next_id s) (RESERVATIONS s)" using assms by (simp add: state_ok_def)
  have ok: "reservation_ok \<lparr>r_user_id = u, r_classroom_id = c, r_date = d, r_start_time = st,
                       r_end_time = en, r_participants = clean_participants env u ps\<rparr>"
    using p clean_participants_props [of env u ps] by (simp add: reservation_ok_def)
  show ?thesis
    unfolding s' using assms ok keys_ok_dict_set [OF k] 
    by (simp add: state_ok_def dict_set_fresh [OF keys_ok_fresh [OF k]])
qed

lemma cancel_reservation_state_ok:
  "state_ok s \<Longrightarrow> state_ok (fst (cancel_reservation s rid u))"
  by (auto simp: cancel_reservation_def state_ok_def keys_ok_dict_del reservation_ok_list_del
      split: option.splits)

lemma delete_reservation_state_ok:
  "state_ok s \<Longrightarrow> state_ok (fst (delete_reservation s rid))"
  by (auto simp: delete_reservation_def state_ok_def keys_ok_dict_del reservation_ok_list_del)

lemma create_waitlist_entry_state_ok:
  assumes "state_ok s"
  shows "state_ok (fst (create_waitlist_entry now s u c d st en))"
proof -
  have k: "keys_ok (wl_next_id s) (WAITLIST s)" using assms by (simp add: state_ok_def)
  show ?thesis
    using assms keys_ok_dict_set [OF k]
    unfolding create_waitlist_entry_def Let_def
    by (auto simp: state_ok_def dict_set_fresh [OF keys_ok_fresh [OF k]] entry_ok_def
        split: sum.splits exn.splits)
qed

lemma resync_keys [simp]: "dict_keys (resync_priorities c d st en wl) = dict_keys wl"
  by (simp add: resync_priorities_def dict_keys_def comp_def)

lemma keys_ok_resync [simp]: "keys_ok n (resync_priorities c d st en wl) = keys_ok n wl"
  by (simp add: keys_ok_def)

lemma entry_ok_resync:
  "list_all entry_ok (map snd wl) \<Longrightarrow> list_all entry_ok (map snd (resync_priorities c d st en wl))"
  by (auto simp: list_all_iff resync_priorities_def entry_ok_def)

lemma entry_ok_list_del:
  "list_all entry_ok (map snd d) \<Longrightarrow> list_all entry_ok (map snd (dict_del k d))"
  by (auto simp: list_all_iff dict_del_def)

lemma cancel_waitlist_entry_state_ok:
  "state_ok s \<Longrightarrow> state_ok (fst (cancel_waitlist_entry s wid u))"
  by (auto simp: cancel_waitlist_entry_def state_ok_def keys_ok_dict_del entry_ok_resync
      entry_ok_list_del split: option.splits)

lemma create_notification_state_ok:
  "state_ok s \<Longrightarrow> state_ok (create_notification now s u rid msg)"
  by (simp add: create_notification_def state_ok_def keys_ok_dict_set)

lemma notify_participants_state_ok:
  "state_ok s \<Longrightarrow> state_ok (notify_participants env now rid msg ps s)"
  by (induction ps arbitrary: s) (auto simp: create_notification_state_ok)

lemma scan_loop_state_ok:
  "state_ok s \<Longrightarrow> state_ok (fst (scan_loop env now rs s))"
proof (induction rs arbitrary: s)
  case Nil
  then show ?case by simp
next
  case (Cons p rs)
  obtain rid r where p: "p = (rid, r)" by (cases p)
  show ?case
    using Cons.prems unfolding p
    by (auto simp: Let_def split: sum.splits exn.splits
        intro!: Cons.IH notify_participants_state_ok create_notification_state_ok)
qed

lemma check_notifications_state_ok:
  "state_ok s \<Longrightarrow> state_ok (fst (check_and_create_notifications env now s))"
  by (simp add: check_and_create_notifications_def scan_loop_state_ok)

lemma promote_loop_state_ok:
  "state_ok s \<Longrightarrow> state_ok (fst (promote_loop env now c d ms s))"
proof (induction ms arbitrary: s)
  case Nil
  then show ?case by simp
next
  case (Cons p ms)
  obtain wid e where p: "p = (wid, e)" by (cases p)
  have cw: "state_ok (fst (cancel_waitlist_entry s wid (w_user_id e)))"
    using Cons.prems by (rule cancel_waitlist_entry_state_ok)
  have cr: "state_ok (fst (create_reservation env now s (w_user_id e) c d (w_start_time e)
                             (w_end_time e) None))"
    using Cons.prems by (rule create_reservation_state_ok)
  show ?case
  proof (cases "count_active_reservations s now (w_user_id e)")
    case (Inl x)
    then show ?thesis using Cons.prems p by simp
  next
    case (Inr n)
    show ?thesis
    proof (cases "n \<ge> 3")
      case True
      then show ?thesis using Inr p Cons.IH [OF cw] by simp
    next
      case False
      obtain s1 res where c1: "create_reservation env now s (w_user_id e) c d (w_start_time e)
                             (w_end_time e) None = (s1, res)"
        by (cases "create_reservation env now s (w_user_id e) c d (w_start_time e)
                             (w_end_time e) None")
      have s1: "state_ok s1" using cr c1 by simp
      have s2: "state_ok (s1\<lparr>WAITLIST := resync_priorities c d (w_start_time e) (w_end_time e)
                             (dict_del wid (WAITLIST s1))\<rparr>)"
        using s1 by (simp add: state_ok_def keys_ok_dict_del entry_ok_resync entry_ok_list_del)
      show ?thesis
        using Inr False p c1 s1 s2 Cons.IH [OF s1]
        by (auto simp: Let_def create_notification_state_ok split: sum.splits bool.splits)
    qed
  qed
qed

lemma process_waitlist_state_ok:
  "state_ok s \<Longrightarrow> state_ok (fst (process_waitlist_on_reservation_cancelled env now s c d st en))"
  unfolding process_waitlist_on_reservation_cancelled_def
  by (auto simp: promote_loop_state_ok split: sum.splits exn.splits)

lemma cancel_reservation_post_state_ok:
  assumes "state_ok s"
  shows "state_ok (fst (cancel_reservation_post env now s rid u))"
proof -
  have a: "state_ok (fst (cancel_reservation s rid u))"
    using assms by (rule cancel_reservation_state_ok)
  show ?thesis
    unfolding cancel_reservation_post_def
    using a assms
    by (auto split: option.splits prod.splits bool.splits intro!: process_waitlist_state_ok)
qed

lemma mark_as_read_state_ok: "state_ok s \<Longrightarrow> state_ok (fst (mark_as_read s nid u))"
  by (auto simp: mark_as_read_def state_ok_def keys_ok_map split: option.splits)

lemma mark_all_as_read_state_ok: "state_ok s \<Longrightarrow> state_ok (fst (mark_all_as_read s u))"
  by (auto simp: mark_all_as_read_def state_ok_def keys_ok_map)

lemma reach_state_ok: "reach clock_ok s \<Longrightarrow> state_ok s"
  by (induction rule: reach.induct)
     (simp_all add: state_ok_init create_reservation_state_ok cancel_reservation_state_ok
        delete_reservation_state_ok process_waitlist_state_ok cancel_reservation_post_state_ok
        create_waitlist_entry_state_ok cancel_waitlist_entry_state_ok
        check_notifications_state_ok mark_as_read_state_ok mark_all_as_read_state_ok)

lemma reachable_state_ok: "reachable s \<Longrightarrow> state_ok s"
  by (simp add: reachable_def reach_state_ok)

section \<open>Participants and the quota\<close>

lemma participant_quota_names_clean:
  "snd (create_reservation env now s u c d st en ps) = Inr (False, ParticipantQuotaExceeded p) \<Longrightarrow>
     p \<in> set (clean_participants env u ps)"
  unfolding create_reservation_def Let_def
  by (auto split: sum.splits exn.splits option.splits if_splits dest: check_participants_eq)

lemma team_books:
  "create_reservation env0 now0 init_state ''alice'' 1 ''2030-01-01'' ''14:00'' ''15:00''
     (Some [''bob'', '' bob '', ''alice'', ''  '', ''carol''])
     = (team_booked, Inr (True, ReservationCreated))"
  by (simp add: eval_defs team_booked_def strip_def str_space_def trim_def)

lemma reachable_team_booked: "reachable team_booked"
  unfolding reachable_def
  using reach_create_reservation [OF reach_init, of "\<lambda>s now. True" env0 now0 "''alice''" 1
          "''2030-01-01''" "''14:00''" "''15:00''"
          "Some [''bob'', '' bob '', ''alice'', ''  '', ''carol'']"]
  by (simp add: team_books)

text \<open>
  C10.  A record made by \<open>create_reservation\<close> holds the cleaned participants: the
  stripped names that are not blank and not the requester, each once; only such a name
  can be the one a participant quota failure reports.  In every reachable state no record
  lists its owner among its participants, and \<open>count_active_reservations\<close> returns the
  number of active reservations the user owns or takes part in, each counted once.
\<close>

theorem C10_participants_clean:
  "(create_reservation env now s user_id classroom_id d st en ps = (s', Inr (True, m)) \<longrightarrow>
      (\<exists>r. dict_get (RESERVATIONS s') (res_next_id s) = Some r \<and> r_user_id r = user_id \<and>
           r_participants r = clean_participants env user_id ps \<and>
           distinct (r_participants r) \<and> user_id \<notin> set (r_participants r) \<and>
           [] \<notin> set (r_participants r) \<and>
           set (r_participants r)
             = {strip p |p. p \<in> set (case ps of None \<Rightarrow> [] | Some l \<Rightarrow> l) \<and>
                           strip p \<noteq> [] \<and> strip p \<noteq> user_id})) \<and>
   (snd (create_reservation env now s user_id classroom_id d st en ps)
      = Inr (False, ParticipantQuotaExceeded p) \<longrightarrow>
      p \<in> set (clean_participants env user_id ps) \<and> p \<noteq> user_id \<and> p \<noteq> []) \<and>
   (reachable t \<longrightarrow>
      list_all (\<lambda>r. distinct (r_participants r) \<and> r_user_id r \<notin> set (r_participants r))
        (map snd (RESERVATIONS t)) \<and>
      list_all (\<lambda>r. weight now' u r \<le> 1) (map snd (RESERVATIONS t)) \<and>
      count_active_reservations t now' u
        = Inr (length (filter (\<lambda>r. involves u r \<and> active now' r) (map snd (RESERVATIONS t)))))"
proof (intro conjI impI)
  assume a: "create_reservation env now s user_id classroom_id d st en ps = (s', Inr (True, m))"
  from create_reservation_success [OF a]
  have s': "s' = s\<lparr>RESERVATIONS :=
                    dict_set (res_next_id s)
                      \<lparr>r_user_id = user_id, r_classroom_id = classroom_id, r_date = d,
                       r_start_time = st, r_end_time = en,
                       r_participants = clean_participants env user_id ps\<rparr>
                      (RESERVATIONS s),
                  res_next_id := res_next_id s + 1\<rparr>"
    by blast
  show "\<exists>r. dict_get (RESERVATIONS s') (res_next_id s) = Some r \<and> r_user_id r = user_id \<and>
           r_participants r = clean_participants env user_id ps \<and>
           distinct (r_participants r) \<and> user_id \<notin> set (r_participants r) \<and>
           [] \<notin> set (r_participants r) \<and>
           set (r_participants r)
             = {strip p |p. p \<in> set (case ps of None \<Rightarrow> [] | Some l \<Rightarrow> l) \<and>
                           strip p \<noteq> [] \<and> strip p \<noteq> user_id}"
    using clean_participants_props [of env user_id ps]
    by (simp add: s' dict_get_dict_set)
next
  assume "snd (create_reservation env now s user_id classroom_id d st en ps)
            = Inr (False, ParticipantQuotaExceeded p)"
  from participant_quota_names_clean [OF this] clean_participants_props [of env user_id ps]
  show "p \<in> set (clean_participants env user_id ps)" "p \<noteq> user_id" "p \<noteq> []"
    by auto
next
  assume "reachable t"
  then have ok: "list_all reservation_ok (map snd (RESERVATIONS t))"
    using reachable_state_ok by (simp add: state_ok_def)
  show "list_all (\<lambda>r. distinct (r_participants r) \<and> r_user_id r \<notin> set (r_participants r))
          (map snd (RESERVATIONS t))"
    using ok by (auto simp: list_all_iff reservation_ok_def)
  show "list_all (\<lambda>r. weight now' u r \<le> 1) (map snd (RESERVATIONS t))"
    using ok by (auto simp: list_all_iff reservation_ok_def weight_once)
  show "count_active_reservations t now' u
          = Inr (length (filter (\<lambda>r. involves u r \<and> active now' r) (map snd (RESERVATIONS t))))"
    using ok by (rule count_active_once)
qed

theorem C10_participants_clean_witness:
  "create_reservation env0 now0 init_state ''alice'' 1 ''2030-01-01'' ''14:00'' ''15:00''
     (Some [''bob'', '' bob '', ''alice'', ''  '', ''carol''])
     = (team_booked, Inr (True, ReservationCreated)) \<and>
   reachable team_booked \<and>
   map r_participants (map snd (RESERVATIONS team_booked)) = [[''bob'', ''carol'']] \<and>
   count_active_reservations team_booked now0 ''bob'' = Inr 1 \<and>
   count_active_reservations team_booked now0 ''alice'' = Inr 1"
  using C10_participants_clean [of env0 now0 init_state "''alice''" 1 "''2030-01-01''" "''14:00''"
          "''15:00''" "Some [''bob'', '' bob '', ''alice'', ''  '', ''carol'']" team_booked
          ReservationCreated undefined team_booked now0 "''bob''"]
        C10_participants_clean [of env0 now0 init_state "''alice''" 1 "''2030-01-01''" "''14:00''"
          "''15:00''" "Some [''bob'', '' bob '', ''alice'', ''  '', ''carol'']" team_booked
          ReservationCreated undefined team_booked now0 "''alice''"]
        team_books reachable_team_booked
  by (simp add: team_booked_def init_state_def involves_def active_def reservation_datetime_def
      parse_date_2030_01_01 parse_time_1400 combine_def day_micros_def now0_eval)

section \<open>The quota of three\<close>

lemma active_mono: "now \<le> now' \<Longrightarrow> active now' r \<Longrightarrow> active now r"
  by (auto simp: active_def split: sum.splits)

lemma weight_mono: "now \<le> now' \<Longrightarrow> weight now' u r \<le> weight now u r"
  by (auto simp: weight_def dest: active_mono)

lemma sum_list_partition:
  "sum_list (map f xs) = sum_list (map f (filter P xs)) + sum_list (map f (filter (\<lambda>x. \<not> P x) xs))"
  for f :: "'a \<Rightarrow> nat"
  by (induction xs) auto

lemma member_le_sum_list_map: "x \<in> set xs \<Longrightarrow> f x \<le> sum_list (map f xs)" for f :: "'a \<Rightarrow> nat"
  by (induction xs) auto

lemma count_after_cancel:
  assumes c3: "count_active_reservations s now u = Inr n"
    and g: "dict_get (RESERVATIONS s) rid = Some r"
    and own: "r_user_id r = u"
    and act: "active now r"
    and le: "now \<le> now'"
  shows "\<exists>k. count_active_reservations (s\<lparr>RESERVATIONS := dict_del rid (RESERVATIONS s)\<rparr>) now' u
               = Inr k \<and> k < n"
proof -
  let ?d = "RESERVATIONS s"
  let ?w = "\<lambda>t p. weight t u (snd p)"
  have parses: "\<forall>r\<in>set (map snd ?d). involves u r \<longrightarrow> \<not> isl (reservation_datetime r)"
    using c3 unfolding count_active_reservations_def by (rule count_active_loop_parses)
  have n: "n = sum_list (map (?w now) ?d)"
    using c3 count_active_loop_closed [OF parses, of now 0]
    by (simp add: count_active_reservations_def comp_def)
  have parses': "\<forall>r\<in>set (map snd (dict_del rid ?d)). involves u r \<longrightarrow> \<not> isl (reservation_datetime r)"
    using parses by (auto simp: dict_del_def)
  have k: "count_active_reservations (s\<lparr>RESERVATIONS := dict_del rid ?d\<rparr>) now' u
             = Inr (sum_list (map (?w now') (dict_del rid ?d)))"
    using count_active_loop_closed [OF parses', of now' 0]
    by (simp add: count_active_reservations_def comp_def)
  have mem: "(rid, r) \<in> set (filter (\<lambda>p. \<not> fst p \<noteq> rid) ?d)"
    using g by (auto simp: dict_get_def dest: map_of_SomeD)
  have "1 \<le> ?w now (rid, r)" using own act by (simp add: weight_def)
  also have "\<dots> \<le> sum_list (map (?w now) (filter (\<lambda>p. \<not> fst p \<noteq> rid) ?d))"
    using mem by (rule member_le_sum_list_map)
  finally have removed: "1 \<le> sum_list (map (?w now) (filter (\<lambda>p. \<not> fst p \<noteq> rid) ?d))" .
  have "sum_list (map (?w now') (dict_del rid ?d)) \<le> sum_list (map (?w now) (dict_del rid ?d))"
    by (rule sum_list_mono) (simp add: weight_mono [OF le])
  moreover have "n = sum_list (map (?w now) (dict_del rid ?d))
                     + sum_list (map (?w now) (filter (\<lambda>p. \<not> fst p \<noteq> rid) ?d))"
    unfolding n dict_del_def by (rule sum_list_partition)
  ultimately have "sum_list (map (?w now') (dict_del rid ?d)) < n"
    using removed by linarith
  then show ?thesis using k by blast
qed

lemma create_reservation_quota:
  assumes "count_active_reservations s now u = Inr n" "n \<ge> 3"
  shows "fst (create_reservation env now s u c d st en ps) = s"
    and "snd (create_reservation env now s u c d st en ps) \<noteq> Inr (True, m)"
    and "parse_date d = Inr dd \<Longrightarrow> parse_time st = Inr t1 \<Longrightarrow> parse_time en = Inr t2 \<Longrightarrow>
         \<not> is_past_datetime now dd t1 \<Longrightarrow> is_within_7_days now dd \<Longrightarrow> is_valid_time_slot t1 t2 \<Longrightarrow>
         create_reservation env now s u c d st en ps = (s, Inr (False, QuotaExceeded))"
  using assms unfolding create_reservation_def Let_def
  by (simp_all split: sum.splits exn.splits)

lemma create_reservation_intro:
  assumes "parse_date d = Inr dd" "parse_time st = Inr t1" "parse_time en = Inr t2"
    and "\<not> is_past_datetime now dd t1" "is_within_7_days now dd" "is_valid_time_slot t1 t2"
    and "count_active_reservations s now u = Inr k" "k < 3"
    and "check_participants env s now (clean_participants env u ps) = Inr None"
    and "find_conflicts c d t1 t2 (map snd (RESERVATIONS s)) = Inr []"
  shows "create_reservation env now s u c d st en ps
           = (s\<lparr>RESERVATIONS :=
                  dict_set (res_next_id s)
                    \<lparr>r_user_id = u, r_classroom_id = c, r_date = d, r_start_time = st,
                     r_end_time = en, r_participants = clean_participants env u ps\<rparr>
                    (RESERVATIONS s),
                res_next_id := res_next_id s + 1\<rparr>,
              Inr (True, ReservationCreated))"
  using assms unfolding create_reservation_def Let_def by simp

text \<open>
  C6.  When the user holds exactly three active reservations, \<open>create_reservation\<close> for
  that user leaves the stores as they are and does not succeed, and a request that passes
  the checks made before the quota check (format, past, window, slot) is refused with
  \<open>QuotaExceeded\<close>.  After the user has cancelled one of the active reservations he owns,
  at any later clock reading he holds fewer than three, and a request that passes the other
  checks succeeds.
\<close>

theorem C6_quota_of_three:
  assumes "count_active_reservations s now user_id = Inr 3"
  shows "fst (create_reservation env now s user_id c d st en ps) = s \<and>
         (\<forall>m. snd (create_reservation env now s user_id c d st en ps) \<noteq> Inr (True, m)) \<and>
         (\<forall>dd t1 t2.
            parse_date d = Inr dd \<and> parse_time st = Inr t1 \<and> parse_time en = Inr t2 \<and>
            \<not> is_past_datetime now dd t1 \<and> is_within_7_days now dd \<and> is_valid_time_slot t1 t2 \<longrightarrow>
            create_reservation env now s user_id c d st en ps = (s, Inr (False, QuotaExceeded))) \<and>
         (\<forall>rid r now' dd t1 t2.
            dict_get (RESERVATIONS s) rid = Some r \<and> r_user_id r = user_id \<and> active now r \<and>
            now \<le> now' \<and>
            parse_date d = Inr dd \<and> parse_time st = Inr t1 \<and> parse_time en = Inr t2 \<and>
            \<not> is_past_datetime now' dd t1 \<and> is_within_7_days now' dd \<and> is_valid_time_slot t1 t2 \<and>
            check_participants env (fst (cancel_reservation s rid user_id)) now'
              (clean_participants env user_id ps) = Inr None \<and>
            find_conflicts c d t1 t2 (map snd (RESERVATIONS (fst (cancel_reservation s rid user_id))))
              = Inr [] \<longrightarrow>
            snd (cancel_reservation s rid user_id) = (True, ReservationCancelled) \<and>
            (\<exists>k. count_active_reservations (fst (cancel_reservation s rid user_id)) now' user_id
                   = Inr k \<and> k < 3) \<and>
            snd (create_reservation env now' (fst (cancel_reservation s rid user_id)) user_id c d
                   st en ps) = Inr (True, ReservationCreated))"
proof (intro conjI allI impI)
  show "fst (create_reservation env now s user_id c d st en ps) = s"
    using assms by (rule create_reservation_quota) simp
  show "snd (create_reservation env now s user_id c d st en ps) \<noteq> Inr (True, m)" for m
    using assms by (rule create_reservation_quota) simp
  show "create_reservation env now s user_id c d st en ps = (s, Inr (False, QuotaExceeded))"
    if "parse_date d = Inr dd \<and> parse_time st = Inr t1 \<and> parse_time en = Inr t2 \<and>
        \<not> is_past_datetime now dd t1 \<and> is_within_7_days now dd \<and> is_valid_time_slot t1 t2"
    for dd t1 t2
    using that create_reservation_quota(3) [OF assms, of d dd st t1 en t2 env c ps] by simp
next
  fix rid r now' dd t1 t2
  assume h: "dict_get (RESERVATIONS s) rid = Some r \<and> r_user_id r = user_id \<and> active now r \<and>
            now \<le> now' \<and>
            parse_date d = Inr dd \<and> parse_time st = Inr t1 \<and> parse_time en = Inr t2 \<and>
            \<not> is_past_datetime now' dd t1 \<and> is_within_7_days now' dd \<and> is_valid_time_slot t1 t2 \<and>
            check_participants env (fst (cancel_reservation s rid user_id)) now'
              (clean_participants env user_id ps) = Inr None \<and>
            find_conflicts c d t1 t2 (map snd (RESERVATIONS (fst (cancel_reservation s rid user_id))))
              = Inr []"
  have cancel: "cancel_reservation s rid user_id
                  = (s\<lparr>RESERVATIONS := dict_del rid (RESERVATIONS s)\<rparr>, True, ReservationCancelled)"
    using h by (simp add: cancel_reservation_def)
  show "snd (cancel_reservation s rid user_id) = (True, ReservationCancelled)"
    by (simp add: cancel)
  from h count_after_cancel [OF assms, of rid r now']
  obtain k where k: "count_active_reservations (fst (cancel_reservation s rid user_id)) now' user_id
                       = Inr k" "k < 3"
    unfolding cancel by auto
  then show "\<exists>k. count_active_reservations (fst (cancel_reservation s rid user_id)) now' user_id
                   = Inr k \<and> k < 3"
    by blast
  show "snd (create_reservation env now' (fst (cancel_reservation s rid user_id)) user_id c d
               st en ps) = Inr (True, ReservationCreated)"
    using h k by (subst create_reservation_intro [where k = k and dd = dd and ?t1.0 = t1 and ?t2.0 = t2]) simp_all
qed

lemma count_three_booked: "count_active_reservations three_booked now0 ''alice'' = Inr 3"
  by (simp add: eval_defs three_booked_def)

theorem C6_quota_of_three_witness:
  "count_active_reservations three_booked now0 ''alice'' = Inr 3 \<and>
   create_reservation env0 now0 three_booked ''alice'' 1 ''2030-01-01'' ''15:00'' ''16:00'' None
     = (three_booked, Inr (False, QuotaExceeded)) \<and>
   snd (cancel_reservation three_booked 1 ''alice'') = (True, ReservationCancelled) \<and>
   snd (create_reservation env0 now0 (fst (cancel_reservation three_booked 1 ''alice'')) ''alice'' 1
          ''2030-01-01'' ''15:00'' ''16:00'' None) = Inr (True, ReservationCreated)"
proof -
  note c6 = C6_quota_of_three [OF count_three_booked, of env0 1 "''2030-01-01''" "''15:00''"
              "''16:00''" None]
  have p: "parse_date ''2030-01-01'' = Inr 741078 \<and> parse_time ''15:00'' = Inr (Time 15 0) \<and>
           parse_time ''16:00'' = Inr (Time 16 0) \<and>
           \<not> is_past_datetime now0 741078 (Time 15 0) \<and> is_within_7_days now0 741078 \<and>
           is_valid_time_slot (Time 15 0) (Time 16 0)"
    by (simp add: eval_defs)
  have q: "dict_get (RESERVATIONS three_booked) 1
             = Some \<lparr>r_user_id = ''alice'', r_classroom_id = 1, r_date = ''2030-01-01'',
                     r_start_time = ''14:00'', r_end_time = ''15:00'', r_participants = []\<rparr> \<and>
           active now0 \<lparr>r_user_id = ''alice'', r_classroom_id = 1, r_date = ''2030-01-01'',
                     r_start_time = ''14:00'', r_end_time = ''15:00'', r_participants = []\<rparr> \<and>
           now0 \<le> now0 \<and>
           check_participants env0 (fst (cancel_reservation three_booked 1 ''alice'')) now0
              (clean_participants env0 ''alice'' None) = Inr None \<and>
           find_conflicts 1 ''2030-01-01'' (Time 15 0) (Time 16 0)
             (map snd (RESERVATIONS (fst (cancel_reservation three_booked 1 ''alice'')))) = Inr []"
    by (simp add: eval_defs three_booked_def active_def cancel_reservation_def)
  from c6 p have a: "create_reservation env0 now0 three_booked ''alice'' 1 ''2030-01-01'' ''15:00''
                       ''16:00'' None = (three_booked, Inr (False, QuotaExceeded))"
    by blast
  note c6' = c6 [THEN conjunct2, THEN conjunct2, THEN conjunct2, THEN spec, THEN spec, THEN spec,
                  THEN spec, THEN spec, THEN spec, THEN mp,
                  of 1 "\<lparr>r_user_id = ''alice'', r_classroom_id = 1, r_date = ''2030-01-01'',
                         r_start_time = ''14:00'', r_end_time = ''15:00'', r_participants = []\<rparr>"
                     now0 741078 "Time 15 0" "Time 16 0"]
  from p q have b: "snd (cancel_reservation three_booked 1 ''alice'') = (True, ReservationCancelled) \<and>
       snd (create_reservation env0 now0 (fst (cancel_reservation three_booked 1 ''alice'')) ''alice'' 1
          ''2030-01-01'' ''15:00'' ''16:00'' None) = Inr (True, ReservationCreated)"
    by (intro conjI c6' [THEN conjunct1] c6' [THEN conjunct2, THEN conjunct2]) simp_all
  show ?thesis using a b count_three_booked by simp
qed

section \<open>No two reservations on top of each other\<close>

lemma pairwise_free_append:
  "pairwise_free R (xs @ [x]) \<longleftrightarrow> pairwise_free R xs \<and> list_all (\<lambda>y. \<not> R y x) xs"
  by (induction xs) auto

lemma pairwise_free_map_filter:
  "pairwise_free R (map f xs) \<Longrightarrow> pairwise_free R (map f (filter P xs))"
  by (induction xs) (auto simp: list_all_iff)

lemma pairwise_free_del:
  "pairwise_free R (map snd d) \<Longrightarrow> pairwise_free R (map snd (dict_del k d))"
  by (simp add: dict_del_def pairwise_free_map_filter)

lemma is_time_overlap_sym: "is_time_overlap a b c d = is_time_overlap c d a b"
  by (auto simp: is_time_overlap_def)

lemma no_conflict_not_double_booked:
  assumes "\<not> conflicts_with c d t1 t2 y"
    and "parse_time st = Inr t1" "parse_time en = Inr t2"
  shows "\<not> double_booked_text y \<lparr>r_user_id = u, r_classroom_id = c, r_date = d,
            r_start_time = st, r_end_time = en, r_participants = ps\<rparr>"
  using assms
  by (auto simp: conflicts_with_def double_booked_text_def times_overlap_def is_time_overlap_sym
      split: sum.splits)

lemma find_conflicts_none:
  "find_conflicts c d t1 t2 rs = Inr [] \<Longrightarrow> \<forall>y\<in>set rs. \<not> conflicts_with c d t1 t2 y"
  by (drule find_conflicts_eq) (auto simp: filter_empty_conv)

lemma create_reservation_no_overlap:
  assumes ok: "state_ok s" and inv: "no_overlap_text s"
  shows "no_overlap_text (fst (create_reservation env now s u c d st en ps))"
proof (cases rule: create_reservation_cases [of env now s u c d st en ps])
  case unchanged
  then show ?thesis using inv by simp
next
  case created
  from create_reservation_success [OF created]
  obtain t1 t2 where p: "parse_time st = Inr t1" "parse_time en = Inr t2"
    and fc: "find_conflicts c d t1 t2 (map snd (RESERVATIONS s)) = Inr []"
    and s': "fst (create_reservation env now s u c d st en ps)
             = s\<lparr>RESERVATIONS :=
                    dict_set (res_next_id s)
                      \<lparr>r_user_id = u, r_classroom_id = c, r_date = d, r_start_time = st,
                       r_end_time = en, r_participants = clean_participants env u ps\<rparr>
                      (RESERVATIONS s),
                  res_next_id := res_next_id s + 1\<rparr>"
    by blast
  have k: "keys_ok (res_next_id s) (RESERVATIONS s)" using ok by (simp add: state_ok_def)
  have "\<forall>y\<in>set (map snd (RESERVATIONS s)).
          \<not> double_booked_text y \<lparr>r_user_id = u, r_classroom_id = c, r_date = d, r_start_time = st,
                       r_end_time = en, r_participants = clean_participants env u ps\<rparr>"
    using find_conflicts_none [OF fc] no_conflict_not_double_booked [OF _ p] by blast
  then show ?thesis
    unfolding s' using inv
    by (simp add: no_overlap_text_def dict_set_fresh [OF keys_ok_fresh [OF k]] pairwise_free_append
        list_all_iff)
qed

lemma cancel_reservation_no_overlap:
  "no_overlap_text s \<Longrightarrow> no_overlap_text (fst (cancel_reservation s rid u))"
  by (auto simp: cancel_reservation_def no_overlap_text_def pairwise_free_del split: option.splits)

lemma delete_reservation_no_overlap:
  "no_overlap_text s \<Longrightarrow> no_overlap_text (fst (delete_reservation s rid))"
  by (auto simp: delete_reservation_def no_overlap_text_def pairwise_free_del)

lemma create_notification_reservations [simp]:
  "RESERVATIONS (create_notification now s u rid msg) = RESERVATIONS s"
  by (simp add: create_notification_def)

lemma notify_participants_reservations [simp]:
  "RESERVATIONS (notify_participants env now rid msg ps s) = RESERVATIONS s"
  by (induction ps arbitrary: s) auto

lemma scan_loop_reservations [simp]:
  "RESERVATIONS (fst (scan_loop env now rs s)) = RESERVATIONS s"
proof (induction rs arbitrary: s)
  case Nil
  then show ?case by simp
next
  case (Cons p rs)
  obtain rid r where p: "p = (rid, r)" by (cases p)
  show ?case unfolding p by (auto simp: Let_def Cons.IH split: sum.splits exn.splits)
qed

lemma cancel_waitlist_entry_reservations [simp]:
  "RESERVATIONS (fst (cancel_waitlist_entry s wid u)) = RESERVATIONS s"
  by (auto simp: cancel_waitlist_entry_def split: option.splits)

lemma create_waitlist_entry_reservations [simp]:
  "RESERVATIONS (fst (create_waitlist_entry now s u c d st en)) = RESERVATIONS s"
  unfolding create_waitlist_entry_def Let_def by (auto split: sum.splits exn.splits)

lemma promote_loop_no_overlap:
  "state_ok s \<Longrightarrow> no_overlap_text s \<Longrightarrow> no_overlap_text (fst (promote_loop env now c d ms s))"
proof (induction ms arbitrary: s)
  case Nil
  then show ?case by simp
next
  case (Cons p ms)
  obtain wid e where p: "p = (wid, e)" by (cases p)
  have cw: "state_ok (fst (cancel_waitlist_entry s wid (w_user_id e)))"
    using Cons.prems(1) by (rule cancel_waitlist_entry_state_ok)
  have cwi: "no_overlap_text (fst (cancel_waitlist_entry s wid (w_user_id e)))"
    using Cons.prems(2) by (simp add: no_overlap_text_def)
  show ?case
  proof (cases "count_active_reservations s now (w_user_id e)")
    case (Inl x)
    then show ?thesis using Cons.prems p by simp
  next
    case (Inr n)
    show ?thesis
    proof (cases "n \<ge> 3")
      case True
      then show ?thesis using Inr p Cons.IH [OF cw cwi] by simp
    next
      case False
      obtain s1 res where c1: "create_reservation env now s (w_user_id e) c d (w_start_time e)
                             (w_end_time e) None = (s1, res)"
        by (cases "create_reservation env now s (w_user_id e) c d (w_start_time e)
                             (w_end_time e) None")
      have s1: "state_ok s1"
        using create_reservation_state_ok [OF Cons.prems(1), of env now "w_user_id e" c d
                "w_start_time e" "w_end_time e" None] c1 by simp
      have i1: "no_overlap_text s1"
        using create_reservation_no_overlap [OF Cons.prems, of env now "w_user_id e" c d
                "w_start_time e" "w_end_time e" None] c1 by simp
      show ?thesis
        using Inr False p c1 i1 Cons.IH [OF s1 i1]
        by (auto simp: Let_def no_overlap_text_def split: sum.splits bool.splits)
    qed
  qed
qed

lemma process_waitlist_no_overlap:
  "state_ok s \<Longrightarrow> no_overlap_text s \<Longrightarrow>
     no_overlap_text (fst (process_waitlist_on_reservation_cancelled env now s c d st en))"
  unfolding process_waitlist_on_reservation_cancelled_def
  by (auto simp: promote_loop_no_overlap split: sum.splits exn.splits)

lemma cancel_reservation_post_no_overlap:
  assumes "state_ok s" "no_overlap_text s"
  shows "no_overlap_text (fst (cancel_reservation_post env now s rid u))"
proof -
  have a: "state_ok (fst (cancel_reservation s rid u))"
    using assms(1) by (rule cancel_reservation_state_ok)
  have b: "no_overlap_text (fst (cancel_reservation s rid u))"
    using assms(2) by (rule cancel_reservation_no_overlap)
  show ?thesis
    unfolding cancel_reservation_post_def
    using a b assms
    by (auto split: option.splits prod.splits bool.splits intro!: process_waitlist_no_overlap)
qed

text \<open>
  What the code keeps: in every reachable state no two reservations of the same
  classroom with the same date string overlap.
\<close>

lemma reach_no_overlap_text:
  "reach clock_ok s \<Longrightarrow> pairwise_free double_booked_text (map snd (RESERVATIONS s))"
proof -
  have "reach clock_ok s \<Longrightarrow> no_overlap_text s"
  proof (induction rule: reach.induct)
    case reach_init
    then show ?case by (simp add: no_overlap_text_def init_state_def)
  next
    case (reach_create_reservation s env now user_id classroom_id d st en ps)
    then show ?case by (simp add: create_reservation_no_overlap reach_state_ok)
  next
    case (reach_process_waitlist s env now classroom_id d st en)
    then show ?case by (simp add: process_waitlist_no_overlap reach_state_ok)
  next
    case (reach_cancel_reservation_post s env now reservation_id user_id)
    then show ?case by (simp add: cancel_reservation_post_no_overlap reach_state_ok)
  next
    case (reach_check_notifications s env now)
    then show ?case by (simp add: no_overlap_text_def check_and_create_notifications_def)
  next
    case (reach_mark_as_read s notification_id user_id)
    then show ?case by (auto simp: no_overlap_text_def mark_as_read_def split: option.splits)
  next
    case (reach_mark_all_as_read s user_id)
    then show ?case by (simp add: no_overlap_text_def mark_all_as_read_def)
  next
    case (reach_cancel_reservation s reservation_id user_id)
    then show ?case by (simp add: cancel_reservation_no_overlap)
  next
    case (reach_delete_reservation s reservation_id)
    then show ?case by (simp add: delete_reservation_no_overlap)
  next
    case (reach_create_waitlist_entry s now user_id classroom_id d st en)
    then show ?case by (simp add: no_overlap_text_def)
  next
    case (reach_cancel_waitlist_entry s waitlist_id user_id)
    then show ?case by (simp add: no_overlap_text_def)
  qed
  then show "reach clock_ok s \<Longrightarrow> pairwise_free double_booked_text (map snd (RESERVATIONS s))"
    by (simp add: no_overlap_text_def)
qed

lemma create_reservation_refuses_overlap:
  assumes "parse_time st = Inr t1" "parse_time en = Inr t2"
    and "r \<in> set (map snd (RESERVATIONS s))" "conflicts_with c d t1 t2 r"
  shows "fst (create_reservation env now s u c d st en ps) = s"
    and "snd (create_reservation env now s u c d st en ps) \<noteq> Inr (True, m)"
proof -
  have "snd (create_reservation env now s u c d st en ps) \<noteq> Inr (True, ReservationCreated)"
  proof
    assume "snd (create_reservation env now s u c d st en ps) = Inr (True, ReservationCreated)"
    then have "create_reservation env now s u c d st en ps
                 = (fst (create_reservation env now s u c d st en ps), Inr (True, ReservationCreated))"
      by (metis prod.collapse)
    from create_reservation_success [OF this] assms(1,2)
    have "find_conflicts c d t1 t2 (map snd (RESERVATIONS s)) = Inr []" by auto
    from find_conflicts_none [OF this] assms(3,4) show False by blast
  qed
  then show "fst (create_reservation env now s u c d st en ps) = s"
    by (rule create_reservation_failure)
  show "snd (create_reservation env now s u c d st en ps) \<noteq> Inr (True, m)"
  proof
    assume a: "snd (create_reservation env now s u c d st en ps) = Inr (True, m)"
    then have "create_reservation env now s u c d st en ps
                 = (fst (create_reservation env now s u c d st en ps), Inr (True, m))"
      by (metis prod.collapse)
    from create_reservation_success [OF this] assms(1,2)
    have "find_conflicts c d t1 t2 (map snd (RESERVATIONS s)) = Inr []" by auto
    from find_conflicts_none [OF this] assms(3,4) show False by blast
  qed
qed

lemma bob_books_respelled:
  "create_reservation env0 now0 alice_booked ''bob'' 1 ''2030-1-1'' ''14:00'' ''15:00'' None
     = (respelled_booked, Inr (True, ReservationCreated))"
  by (simp add: eval_defs alice_booked_def respelled_booked_def)

lemma reachable_alice_booked: "reachable alice_booked"
  unfolding reachable_def
  using reach_create_reservation [OF reach_init, of "\<lambda>s now. True" env0 now0 "''alice''" 1
          "''2030-01-01''" "''14:00''" "''15:00''" None]
  by (simp add: alice_books)

lemma reachable_respelled_booked: "reachable respelled_booked"
  using reach_create_reservation [OF reachable_alice_booked [unfolded reachable_def],
          of env0 now0 "''bob''" 1 "''2030-1-1''" "''14:00''" "''15:00''" None]
  by (simp add: bob_books_respelled reachable_def)

text \<open>
  C1.  The claim: in every reachable state no two reservations of the same classroom and
  date overlap.  The code compares the date strings of two reservations, not the days they
  stand for (line 193), while \<open>parse_date\<close> reads ``2030-01-01'' and ``2030-1-1'' as the
  same day.  After alice has booked classroom 1 on ``2030-01-01'' from 14:00 to 15:00, the
  request of bob for the same classroom and hour on ``2030-1-1'' succeeds, and the
  reachable state holds two reservations for the same classroom, day and hour.
\<close>

theorem C1_same_day_booked_twice:
  "create_reservation env0 now0 init_state ''alice'' 1 ''2030-01-01'' ''14:00'' ''15:00'' None
     = (alice_booked, Inr (True, ReservationCreated)) \<and>
   create_reservation env0 now0 alice_booked ''bob'' 1 ''2030-1-1'' ''14:00'' ''15:00'' None
     = (respelled_booked, Inr (True, ReservationCreated)) \<and>
   reachable respelled_booked \<and>
   parse_date ''2030-1-1'' = parse_date ''2030-01-01'' \<and>
   \<not> pairwise_free double_booked (map snd (RESERVATIONS respelled_booked))"
proof (intro conjI)
  show "\<not> pairwise_free double_booked (map snd (RESERVATIONS respelled_booked))"
    by (simp add: respelled_booked_def init_state_def double_booked_def same_day_def
        times_overlap_def parse_date_2030_1_1 parse_date_2030_01_01 parse_time_1400
        parse_time_1500 is_time_overlap_def time_to_minutes_def)
qed (simp_all add: alice_books bob_books_respelled reachable_respelled_booked
       parse_date_2030_1_1 parse_date_2030_01_01)

theorem C1_same_day_booked_twice_witness:
  "reachable respelled_booked \<and>
   \<not> pairwise_free double_booked (map snd (RESERVATIONS respelled_booked)) \<and>
   pairwise_free double_booked_text (map snd (RESERVATIONS respelled_booked))"
  using C1_same_day_booked_twice reach_no_overlap_text [of "\<lambda>s now. True" respelled_booked]
  by (simp add: reachable_def)

section \<open>Waitlist priorities\<close>

lemmas wl_eval_defs =
  create_waitlist_entry_def cancel_waitlist_entry_def resync_priorities_def same_slot_def
  waiting_def queue1_def queue2_def queue3_def tie_state_def slot_entries_def

lemma alice_waits:
  "create_waitlist_entry now0 init_state ''alice'' 1 ''2030-01-01'' ''14:00'' ''15:00''
     = (queue1, Inr (True, WaitlistCreated 1))"
  by (simp add: wl_eval_defs eval_defs)

lemma bob_waits:
  "create_waitlist_entry now0 queue1 ''bob'' 1 ''2030-01-01'' ''14:00'' ''15:00''
     = (queue2, Inr (True, WaitlistCreated 2))"
  by (simp add: wl_eval_defs eval_defs)

lemma carol_waits:
  "create_waitlist_entry (now0 + 1000000) queue2 ''carol'' 1 ''2030-01-01'' ''14:00'' ''15:00''
     = (queue3, Inr (True, WaitlistCreated 3))"
  by (simp add: wl_eval_defs eval_defs)

lemma carol_leaves:
  "cancel_waitlist_entry queue3 3 ''carol'' = (tie_state, True, WaitlistCancelled)"
  by (simp add: wl_eval_defs eval_defs)

lemma reachable_queue3: "reachable queue3"
proof -
  let ?P = "\<lambda>(s::state) (now::datetime). True"
  have 1: "reach ?P queue1"
    using reach_create_waitlist_entry [OF reach_init, of ?P now0 "''alice''" 1 "''2030-01-01''"
            "''14:00''" "''15:00''"]
    by (simp add: alice_waits)
  have 2: "reach ?P queue2"
    using reach_create_waitlist_entry [OF 1, of now0 "''bob''" 1 "''2030-01-01''"
            "''14:00''" "''15:00''"]
    by (simp add: bob_waits)
  have 3: "reach ?P queue3"
    using reach_create_waitlist_entry [OF 2, of "now0 + 1000000" "''carol''" 1 "''2030-01-01''"
            "''14:00''" "''15:00''"]
    by (simp add: carol_waits)
  then show ?thesis by (simp add: reachable_def)
qed

lemma reachable_tie_state: "reachable tie_state"
  using reach_cancel_waitlist_entry [OF reachable_queue3 [unfolded reachable_def], of 3 "''carol''"]
  by (simp add: carol_leaves reachable_def)

text \<open>
  C5 as stated fails: when two entries of a slot carry the same creation time, the
  recomputation after a sibling has left gives both the priority 0.
\<close>

theorem C5_equal_times_equal_priorities:
  "reachable tie_state \<and>
   cancel_waitlist_entry queue3 3 ''carol'' = (tie_state, True, WaitlistCancelled) \<and>
   map w_priority (slot_entries 1 ''2030-01-01'' ''14:00'' ''15:00'' queue3) = [0, 1, 2] \<and>
   map w_priority (slot_entries 1 ''2030-01-01'' ''14:00'' ''15:00'' tie_state) = [0, 0] \<and>
   \<not> ranked_slot (slot_entries 1 ''2030-01-01'' ''14:00'' ''15:00'' tie_state)"
proof (intro conjI)
  show "reachable tie_state" by (rule reachable_tie_state)
  show "cancel_waitlist_entry queue3 3 ''carol'' = (tie_state, True, WaitlistCancelled)"
    by (rule carol_leaves)
qed (simp_all add: slot_entries_def queue3_def tie_state_def waiting_def same_slot_def
       init_state_def ranked_slot_def)

lemma rank_by_count:
  "sorted_wrt (<) (map f xs) \<Longrightarrow>
     map (\<lambda>x. length (filter (\<lambda>y. f y < f x) xs)) xs = [0..<length xs]"
  for f :: "'a \<Rightarrow> int"
proof (induction xs rule: rev_induct)
  case Nil
  then show ?case by simp
next
  case (snoc x xs)
  from snoc.prems have sorted: "sorted_wrt (<) (map f xs)" and less: "\<forall>a\<in>set xs. f a < f x"
    by (auto simp: sorted_wrt_append)
  have a: "map (\<lambda>e. length (filter (\<lambda>y. f y < f e) (xs @ [x]))) xs
             = map (\<lambda>e. length (filter (\<lambda>y. f y < f e) xs)) xs"
    using less by (intro map_cong refl) auto
  have b: "filter (\<lambda>y. f y < f x) xs = xs"
    using less by (simp add: filter_id_conv)
  show ?case
    using snoc.IH [OF sorted] a b by simp
qed

lemma sorted_wrt_filter_map:
  "sorted_wrt R (map f xs) \<Longrightarrow> sorted_wrt R (map f (filter P xs))"
  by (induction xs) auto

lemma same_slot_unique:
  "same_slot c d st en e \<Longrightarrow> same_slot c' d' st' en' e \<Longrightarrow>
     c = c' \<and> d = d' \<and> st = st' \<and> en = en'"
  by (auto simp: same_slot_def)

lemma same_slot_priority [simp]:
  "same_slot c d st en (e\<lparr>w_priority := k\<rparr>) = same_slot c d st en e"
  by (simp add: same_slot_def)

lemma resync_created [simp]:
  "map (\<lambda>p. w_created_at (snd p)) (resync_priorities c d st en wl)
     = map (\<lambda>p. w_created_at (snd p)) wl"
  by (simp add: resync_priorities_def comp_def)

lemma reprioritise_other_slot:
  assumes "\<And>e. same_slot c d st en e \<Longrightarrow> \<not> same_slot c' d' st' en' e"
  shows "filter (same_slot c' d' st' en')
           (map snd (map (\<lambda>p. if same_slot c d st en (snd p)
                               then (fst p, (snd p)\<lparr>w_priority := g (snd p)\<rparr>) else p) xs))
           = filter (same_slot c' d' st' en') (map snd xs)"
  using assms by (induction xs) auto

lemma reprioritise_same_slot:
  "filter (same_slot c d st en)
     (map snd (map (\<lambda>p. if same_slot c d st en (snd p)
                         then (fst p, (snd p)\<lparr>w_priority := g (snd p)\<rparr>) else p) xs))
     = map (\<lambda>e. e\<lparr>w_priority := g e\<rparr>) (filter (same_slot c d st en) (map snd xs))"
  by (induction xs) auto

lemma resync_other_slot:
  assumes "(c', d', st', en') \<noteq> (c, d, st, en)"
  shows "filter (same_slot c' d' st' en') (map snd (resync_priorities c d st en wl))
           = filter (same_slot c' d' st' en') (map snd wl)"
proof -
  have "\<And>e. same_slot c d st en e \<Longrightarrow> \<not> same_slot c' d' st' en' e"
    using assms same_slot_unique by blast
  then show ?thesis
    unfolding resync_priorities_def by (rule reprioritise_other_slot)
qed

lemma resync_same_slot:
  "filter (same_slot c d st en) (map snd (resync_priorities c d st en wl))
     = map (\<lambda>e. e\<lparr>w_priority :=
                   length (filter (\<lambda>y. w_created_at y < w_created_at e)
                             (filter (same_slot c d st en) (map snd wl)))\<rparr>)
         (filter (same_slot c d st en) (map snd wl))"
proof -
  have eq: "length (filter (\<lambda>y. w_created_at y < w_created_at e)
                      (filter (same_slot c d st en) (map snd wl)))
              = length (filter (\<lambda>e'. same_slot c d st en e' \<and> w_created_at e' < w_created_at e)
                          (map snd wl))" for e
    by (simp add: conj_commute)
  show ?thesis
    unfolding resync_priorities_def eq by (rule reprioritise_same_slot)
qed

lemma resync_ranks_slot:
  assumes "sorted_wrt (<) (map (\<lambda>p. w_created_at (snd p)) wl)"
  shows "map w_priority (filter (same_slot c d st en) (map snd (resync_priorities c d st en wl)))
           = [0..<length (filter (same_slot c d st en) (map snd (resync_priorities c d st en wl)))]"
proof -
  let ?G = "filter (same_slot c d st en) (map snd wl)"
  have "sorted_wrt (<) (map w_created_at (map snd wl))"
    using assms by (simp add: comp_def)
  then have "sorted_wrt (<) (map w_created_at ?G)"
    by (rule sorted_wrt_filter_map)
  from rank_by_count [OF this] show ?thesis
    unfolding resync_same_slot by (simp add: comp_def)
qed

lemma del_other_slot:
  assumes "\<forall>e'. (wid, e') \<in> set wl \<longrightarrow> same_slot c d st en e'"
    and "(c', d', st', en') \<noteq> (c, d, st, en)"
  shows "filter (same_slot c' d' st' en') (map snd (dict_del wid wl))
           = filter (same_slot c' d' st' en') (map snd wl)"
proof -
  have "\<And>e. same_slot c d st en e \<Longrightarrow> \<not> same_slot c' d' st' en' e"
    using assms(2) same_slot_unique by blast
  then show ?thesis
    using assms(1) unfolding dict_del_def
    by (induction wl) auto
qed

lemma removal_ranked:
  assumes inv: "ranked_waitlist wl"
    and slot: "\<forall>e'. (wid, e') \<in> set wl \<longrightarrow> same_slot c d st en e'"
  shows "ranked_waitlist (resync_priorities c d st en (dict_del wid wl))"
proof -
  have sorted: "sorted_wrt (<) (map (\<lambda>p. w_created_at (snd p)) (dict_del wid wl))"
    using inv unfolding ranked_waitlist_def dict_del_def by (simp add: sorted_wrt_filter_map)
  have "map w_priority (filter (same_slot c' d' st' en')
                          (map snd (resync_priorities c d st en (dict_del wid wl))))
          = [0..<length (filter (same_slot c' d' st' en')
                          (map snd (resync_priorities c d st en (dict_del wid wl))))]"
    for c' d' st' en'
  proof (cases "(c', d', st', en') = (c, d, st, en)")
    case True
    then show ?thesis using resync_ranks_slot [OF sorted, of c d st en] by simp
  next
    case False
    show ?thesis
      using inv
      unfolding resync_other_slot [OF False] del_other_slot [OF slot False] ranked_waitlist_def
      by blast
  qed
  then show ?thesis
    using sorted unfolding ranked_waitlist_def by simp
qed

lemma append_ranked:
  assumes inv: "ranked_waitlist wl"
    and fresh: "\<forall>p\<in>set wl. w_created_at (snd p) < w_created_at e"
    and prio: "w_priority e = length (filter (same_slot (w_classroom_id e) (w_date e)
                                        (w_start_time e) (w_end_time e)) (map snd wl))"
  shows "ranked_waitlist (wl @ [(k, e)])"
proof -
  have sorted: "sorted_wrt (<) (map (\<lambda>p. w_created_at (snd p)) (wl @ [(k, e)]))"
    using inv fresh by (auto simp: ranked_waitlist_def sorted_wrt_append)
  have "map w_priority (filter (same_slot c d st en) (map snd (wl @ [(k, e)])))
          = [0..<length (filter (same_slot c d st en) (map snd (wl @ [(k, e)])))]"
    for c d st en
  proof (cases "same_slot c d st en e")
    case True
    then have "c = w_classroom_id e \<and> d = w_date e \<and> st = w_start_time e \<and> en = w_end_time e"
      by (auto simp: same_slot_def)
    then show ?thesis using True inv prio by (simp add: ranked_waitlist_def)
  next
    case False
    then show ?thesis using inv by (simp add: ranked_waitlist_def)
  qed
  then show ?thesis using sorted unfolding ranked_waitlist_def by simp
qed

lemma create_waitlist_entry_ranked:
  assumes ok: "state_ok s" and inv: "ranked_waitlist (WAITLIST s)" and fresh: "clock_fresh s now"
  shows "ranked_waitlist (WAITLIST (fst (create_waitlist_entry now s u c d st en)))"
proof -
  have k: "keys_ok (wl_next_id s) (WAITLIST s)" using ok by (simp add: state_ok_def)
  have a: "ranked_waitlist (WAITLIST s @ [(wl_next_id s,
             \<lparr>w_user_id = u, w_classroom_id = c, w_date = d, w_start_time = st, w_end_time = en,
              w_created_at = now,
              w_priority = length (filter (same_slot c d st en) (map snd (WAITLIST s)))\<rparr>)])"
    using fresh by (intro append_ranked inv) (auto simp: clock_fresh_def list_all_iff)
  show ?thesis
    using inv a unfolding create_waitlist_entry_def Let_def
    by (auto simp: dict_set_fresh [OF keys_ok_fresh [OF k]] split: sum.splits exn.splits)
qed

lemma dict_get_mem: "distinct (dict_keys d) \<Longrightarrow> dict_get d k = Some v \<longleftrightarrow> (k, v) \<in> set d"
  by (simp add: dict_get_def dict_keys_def)

lemma cancel_waitlist_entry_ranked:
  assumes ok: "state_ok s" and inv: "ranked_waitlist (WAITLIST s)"
  shows "ranked_waitlist (WAITLIST (fst (cancel_waitlist_entry s wid u)))"
proof (cases "dict_get (WAITLIST s) wid")
  case None
  then show ?thesis using inv by (simp add: cancel_waitlist_entry_def)
next
  case (Some entry)
  have d: "distinct (dict_keys (WAITLIST s))" using ok by (simp add: state_ok_def keys_ok_def)
  have mem: "(wid, entry) \<in> set (WAITLIST s)"
    using Some dict_get_mem [OF d, of wid entry] by simp
  have "\<forall>e'. (wid, e') \<in> set (WAITLIST s) \<longrightarrow>
          same_slot (w_classroom_id entry) (w_date entry) (w_start_time entry) (w_end_time entry) e'"
  proof (intro allI impI)
    fix e' assume "(wid, e') \<in> set (WAITLIST s)"
    with mem d have "e' = entry"
      by (metis dict_keys_def eq_key_imp_eq_value)
    then show "same_slot (w_classroom_id entry) (w_date entry) (w_start_time entry)
                 (w_end_time entry) e'"
      by (simp add: same_slot_def)
  qed
  from removal_ranked [OF inv this] show ?thesis
    using Some inv by (simp add: cancel_waitlist_entry_def)
qed

lemma create_reservation_waitlist [simp]:
  "WAITLIST (fst (create_reservation env now s u c d st en ps)) = WAITLIST s"
proof (cases rule: create_reservation_cases [of env now s u c d st en ps])
  case unchanged
  then show ?thesis by simp
next
  case created
  from create_reservation_success [OF created] show ?thesis by auto
qed

lemma create_notification_waitlist [simp]:
  "WAITLIST (create_notification now s u rid msg) = WAITLIST s"
  by (simp add: create_notification_def)

lemma in_resync_del:
  assumes "(w, e'') \<in> set (resync_priorities c d st en (dict_del k wl))"
  shows "\<exists>e'. (w, e') \<in> set wl \<and> (\<forall>c' d' st' en'. same_slot c' d' st' en' e'' = same_slot c' d' st' en' e')"
  using assms unfolding resync_priorities_def dict_del_def
  by (auto split: if_splits)

lemma cand_ok_removal:
  "cand_ok c d wl ms \<Longrightarrow> cand_ok c d (resync_priorities c' d' st en (dict_del k wl)) ms"
  unfolding cand_ok_def by (auto dest!: in_resync_del)

lemma cand_ok_cancel:
  "cand_ok c d (WAITLIST s) ms \<Longrightarrow> cand_ok c d (WAITLIST (fst (cancel_waitlist_entry s wid u))) ms"
  by (auto simp: cancel_waitlist_entry_def cand_ok_removal split: option.splits)

lemma cand_ok_tail: "cand_ok c d wl (p # ms) \<Longrightarrow> cand_ok c d wl ms"
  by (simp add: cand_ok_def)

lemma promote_loop_ranked:
  "state_ok s \<Longrightarrow> ranked_waitlist (WAITLIST s) \<Longrightarrow> cand_ok c d (WAITLIST s) ms \<Longrightarrow>
     ranked_waitlist (WAITLIST (fst (promote_loop env now c d ms s)))"
proof (induction ms arbitrary: s)
  case Nil
  then show ?case by simp
next
  case (Cons p ms)
  obtain wid e where p: "p = (wid, e)" by (cases p)
  have tail: "cand_ok c d (WAITLIST s) ms" using Cons.prems(3) by (rule cand_ok_tail)
  have head: "\<forall>e'. (wid, e') \<in> set (WAITLIST s) \<longrightarrow> same_slot c d (w_start_time e) (w_end_time e) e'"
    using Cons.prems(3) by (simp add: cand_ok_def p)
  show ?case
  proof (cases "count_active_reservations s now (w_user_id e)")
    case (Inl x)
    then show ?thesis using Cons.prems p by simp
  next
    case (Inr n)
    show ?thesis
    proof (cases "n \<ge> 3")
      case True
      have "ranked_waitlist (WAITLIST (fst (promote_loop env now c d ms
                (fst (cancel_waitlist_entry s wid (w_user_id e))))))"
        by (intro Cons.IH cancel_waitlist_entry_state_ok cancel_waitlist_entry_ranked
              cand_ok_cancel Cons.prems tail)
      then show ?thesis using Inr True p by simp
    next
      case False
      obtain s1 res where c1: "create_reservation env now s (w_user_id e) c d (w_start_time e)
                             (w_end_time e) None = (s1, res)"
        by (cases "create_reservation env now s (w_user_id e) c d (w_start_time e)
                             (w_end_time e) None")
      have s1: "state_ok s1"
        using create_reservation_state_ok [OF Cons.prems(1), of env now "w_user_id e" c d
                "w_start_time e" "w_end_time e" None] c1 by simp
      have w1: "WAITLIST s1 = WAITLIST s"
        using create_reservation_waitlist [of env now s "w_user_id e" c d
                "w_start_time e" "w_end_time e" None] c1 by simp
      have rest: "ranked_waitlist (WAITLIST (fst (promote_loop env now c d ms s1)))"
        using Cons.IH [OF s1] Cons.prems(2) tail by (simp add: w1)
      have removed: "ranked_waitlist (resync_priorities c d (w_start_time e) (w_end_time e)
                                        (dict_del wid (WAITLIST s1)))"
        unfolding w1 using Cons.prems(2) head by (rule removal_ranked)
      show ?thesis
        using Inr False p c1 rest removed Cons.prems(2) w1
        by (auto simp: Let_def split: sum.splits bool.splits)
    qed
  qed
qed

lemma find_matching_subset:
  "find_matching c d cs ce wl = Inr ms \<Longrightarrow>
     set ms \<subseteq> {p \<in> set wl. w_classroom_id (snd p) = c \<and> w_date (snd p) = d}"
proof (induction wl arbitrary: ms)
  case Nil
  then show ?case by simp
next
  case (Cons p wl)
  obtain wid e where p: "p = (wid, e)" by (cases p)
  show ?case
    using Cons.prems Cons.IH unfolding p
    by (auto split: if_splits sum.splits exn.splits)
qed

lemma set_insort_by [simp]: "set (insort_by le x xs) = insert x (set xs)"
  by (induction xs) auto

lemma set_sort_by [simp]: "set (sort_by le xs) = set xs"
  unfolding sort_by_def by (induction xs) auto

lemma cand_ok_matching:
  assumes "distinct (dict_keys wl)" "find_matching c d cs ce wl = Inr ms"
  shows "cand_ok c d wl (sort_by entry_le ms)"
proof -
  have "\<And>wid e e'. (wid, e) \<in> set ms \<Longrightarrow> (wid, e') \<in> set wl \<Longrightarrow>
          same_slot c d (w_start_time e) (w_end_time e) e'"
  proof -
    fix wid e e'
    assume a: "(wid, e) \<in> set ms" and b: "(wid, e') \<in> set wl"
    from find_matching_subset [OF assms(2)] a
    have m: "(wid, e) \<in> set wl" "w_classroom_id e = c" "w_date e = d" by auto
    from m(1) b assms(1) have "e' = e" by (metis dict_keys_def eq_key_imp_eq_value)
    then show "same_slot c d (w_start_time e) (w_end_time e) e'"
      using m by (simp add: same_slot_def)
  qed
  then show ?thesis unfolding cand_ok_def by auto
qed

lemma process_waitlist_ranked:
  assumes "state_ok s" "ranked_waitlist (WAITLIST s)"
  shows "ranked_waitlist
           (WAITLIST (fst (process_waitlist_on_reservation_cancelled env now s c d st en)))"
proof -
  have d: "distinct (dict_keys (WAITLIST s))" using assms(1) by (simp add: state_ok_def keys_ok_def)
  show ?thesis
    unfolding process_waitlist_on_reservation_cancelled_def
    using assms
    by (auto split: sum.splits exn.splits
        intro!: promote_loop_ranked cand_ok_matching [OF d])
qed

lemma cancel_reservation_waitlist [simp]:
  "WAITLIST (fst (cancel_reservation s rid u)) = WAITLIST s"
  by (auto simp: cancel_reservation_def split: option.splits)

lemma cancel_reservation_post_ranked:
  assumes "state_ok s" "ranked_waitlist (WAITLIST s)"
  shows "ranked_waitlist (WAITLIST (fst (cancel_reservation_post env now s rid u)))"
proof -
  obtain s1 ok msg where c: "cancel_reservation s rid u = (s1, ok, msg)"
    by (cases "cancel_reservation s rid u") auto
  have a: "state_ok s1"
    using cancel_reservation_state_ok [OF assms(1), of rid u] c by simp
  have b: "ranked_waitlist (WAITLIST s1)"
    using assms(2) cancel_reservation_waitlist [of s rid u] c by simp
  show ?thesis
    unfolding cancel_reservation_post_def
    using a b c
    by (auto split: option.splits bool.splits intro!: process_waitlist_ranked)
qed

lemma notify_participants_waitlist [simp]:
  "WAITLIST (notify_participants env now rid msg ps s) = WAITLIST s"
  by (induction ps arbitrary: s) auto

lemma scan_loop_waitlist [simp]:
  "WAITLIST (fst (scan_loop env now rs s)) = WAITLIST s"
proof (induction rs arbitrary: s)
  case Nil
  then show ?case by simp
next
  case (Cons p rs)
  obtain rid r where p: "p = (rid, r)" by (cases p)
  show ?case unfolding p by (auto simp: Let_def Cons.IH split: sum.splits exn.splits)
qed

lemma reach_ranked_waitlist: "reach clock_fresh s \<Longrightarrow> ranked_waitlist (WAITLIST s)"
proof (induction rule: reach.induct)
  case reach_init
  then show ?case by (simp add: ranked_waitlist_def init_state_def)
next
  case (reach_create_reservation s env now user_id classroom_id d st en ps)
  then show ?case by simp
next
  case (reach_cancel_reservation s reservation_id user_id)
  then show ?case by simp
next
  case (reach_delete_reservation s reservation_id)
  then show ?case by (simp add: delete_reservation_def)
next
  case (reach_process_waitlist s env now classroom_id d st en)
  then show ?case by (simp add: process_waitlist_ranked reach_state_ok)
next
  case (reach_cancel_reservation_post s env now reservation_id user_id)
  then show ?case by (simp add: cancel_reservation_post_ranked reach_state_ok)
next
  case (reach_create_waitlist_entry s now user_id classroom_id d st en)
  then show ?case by (simp add: create_waitlist_entry_ranked reach_state_ok)
next
  case (reach_cancel_waitlist_entry s waitlist_id user_id)
  then show ?case by (simp add: cancel_waitlist_entry_ranked reach_state_ok)
next
  case (reach_check_notifications s env now)
  then show ?case by (simp add: check_and_create_notifications_def)
next
  case (reach_mark_as_read s notification_id user_id)
  then show ?case by (auto simp: mark_as_read_def split: option.splits)
next
  case (reach_mark_all_as_read s user_id)
  then show ?case by (simp add: mark_all_as_read_def)
qed

lemma ranked_waitlist_slot:
  assumes "ranked_waitlist (WAITLIST s)"
  shows "ranked_slot (slot_entries c d st en s)"
proof -
  have "sorted_wrt (<) (map w_created_at (map snd (WAITLIST s)))"
    using assms by (simp add: ranked_waitlist_def comp_def)
  then have "sorted_wrt (<) (map w_created_at (filter (same_slot c d st en) (map snd (WAITLIST s))))"
    by (rule sorted_wrt_filter_map)
  then show ?thesis
    using assms unfolding ranked_waitlist_def ranked_slot_def slot_entries_def by blast
qed

lemma bob_waits_later:
  "create_waitlist_entry (now0 + 1000000) queue1 ''bob'' 1 ''2030-01-01'' ''14:00'' ''15:00''
     = (fifo2, Inr (True, WaitlistCreated 2))"
  by (simp add: wl_eval_defs eval_defs fifo2_def)

lemma alice_leaves:
  "cancel_waitlist_entry fifo2 1 ''alice'' = (fifo_left, True, WaitlistCancelled)"
  by (simp add: wl_eval_defs eval_defs fifo2_def fifo_left_def)

lemma reach_fresh_fifo2: "reach clock_fresh fifo2"
proof -
  have 0: "clock_fresh init_state now0" by (simp add: clock_fresh_def init_state_def)
  have 1: "reach clock_fresh queue1"
    using reach_create_waitlist_entry [where clock_ok = clock_fresh, OF reach_init 0,
            of "''alice''" 1 "''2030-01-01''" "''14:00''" "''15:00''"]
    by (simp add: alice_waits)
  have 2: "clock_fresh queue1 (now0 + 1000000)"
    by (simp add: clock_fresh_def queue1_def waiting_def init_state_def)
  show ?thesis
    using reach_create_waitlist_entry [OF 1 2, of "''bob''" 1 "''2030-01-01''"
            "''14:00''" "''15:00''"]
    by (simp add: bob_waits_later)
qed

lemma length_filter_map: "length (filter P (map f xs)) = length (filter (\<lambda>x. P (f x)) xs)"
  by (induction xs) auto

section \<open>The reminder scan\<close>

lemma notification_exists_iff:
  "notification_exists s u rid \<longleftrightarrow>
     (\<exists>p\<in>set (NOTIFICATIONS s). n_user_id (snd p) = u \<and> n_reservation_id (snd p) = rid \<and>
        has_marker (n_message (snd p)))"
  unfolding notification_exists_def get_user_notifications_def list_ex_iff
  by (simp add: Bex_def)

lemma create_notification_append:
  assumes "state_ok s"
  shows "NOTIFICATIONS (create_notification now s u rid msg)
           = NOTIFICATIONS s @ [(notif_next_id s,
               \<lparr>n_user_id = u, n_reservation_id = rid, n_message = msg, n_created_at = now,
                n_read = False\<rparr>)]"
proof -
  have "keys_ok (notif_next_id s) (NOTIFICATIONS s)" using assms by (simp add: state_ok_def)
  from dict_set_fresh [OF keys_ok_fresh [OF this]] show ?thesis
    by (simp add: create_notification_def)
qed

lemma notify_participants_append:
  "state_ok s \<Longrightarrow>
     \<exists>zs. NOTIFICATIONS (notify_participants env now rid msg ps s) = NOTIFICATIONS s @ zs \<and>
          (\<forall>q\<in>set zs. n_reservation_id (snd q) = rid)"
proof (induction ps arbitrary: s)
  case Nil
  then show ?case by simp
next
  case (Cons p ps)
  show ?case
  proof (cases "get_user env p")
    case False
    then show ?thesis using Cons by simp
  next
    case True
    have ok: "state_ok (create_notification now s p rid msg)"
      using Cons.prems by (rule create_notification_state_ok)
    from Cons.IH [OF ok] obtain zs where
      zs: "NOTIFICATIONS (notify_participants env now rid msg ps (create_notification now s p rid msg))
             = NOTIFICATIONS (create_notification now s p rid msg) @ zs"
          "\<forall>q\<in>set zs. n_reservation_id (snd q) = rid"
      by blast
    show ?thesis
      using True zs by (simp add: create_notification_append [OF Cons.prems])
  qed
qed

lemma scan_loop_append:
  "state_ok s \<Longrightarrow>
     \<exists>zs. NOTIFICATIONS (fst (scan_loop env now rs s)) = NOTIFICATIONS s @ zs \<and>
          (\<forall>q\<in>set zs. \<exists>r. (n_reservation_id (snd q), r) \<in> set rs \<and>
                            \<not> notification_exists s (r_user_id r) (n_reservation_id (snd q)))"
proof (induction rs arbitrary: s)
  case Nil
  then show ?case by simp
next
  case (Cons p rs)
  obtain rid r where p: "p = (rid, r)" by (cases p)
  let ?skip = "scan_loop env now rs s"
  have skip: "\<exists>zs. NOTIFICATIONS (fst ?skip) = NOTIFICATIONS s @ zs \<and>
          (\<forall>q\<in>set zs. \<exists>r'. (n_reservation_id (snd q), r') \<in> set (p # rs) \<and>
                            \<not> notification_exists s (r_user_id r') (n_reservation_id (snd q)))"
  proof -
    from Cons.IH [OF Cons.prems] obtain zs where
      "NOTIFICATIONS (fst ?skip) = NOTIFICATIONS s @ zs"
      "\<forall>q\<in>set zs. \<exists>r. (n_reservation_id (snd q), r) \<in> set rs \<and>
                            \<not> notification_exists s (r_user_id r) (n_reservation_id (snd q))"
      by blast
    then show ?thesis by (intro exI [of _ zs]) (simp, blast)
  qed
  show ?case
  proof (cases "reservation_datetime r")
    case (Inl e)
    then show ?thesis using skip p by (cases e) auto
  next
    case (Inr dt)
    show ?thesis
    proof (cases "reminder_due now dt \<and> \<not> notification_exists s (r_user_id r) rid")
      case False
      then show ?thesis using skip p Inr by auto
    next
      case True
      let ?msg = "Reminder (classroom_text env (r_classroom_id r)) (r_start_time r)"
      let ?s1 = "create_notification now s (r_user_id r) rid ?msg"
      let ?s2 = "notify_participants env now rid ?msg (r_participants r) ?s1"
      have ok1: "state_ok ?s1" using Cons.prems by (rule create_notification_state_ok)
      have ok2: "state_ok ?s2" using ok1 by (rule notify_participants_state_ok)
      from notify_participants_append [OF ok1, of env now rid ?msg "r_participants r"]
      obtain ys where ys: "NOTIFICATIONS ?s2 = NOTIFICATIONS ?s1 @ ys"
        "\<forall>q\<in>set ys. n_reservation_id (snd q) = rid" by blast
      from Cons.IH [OF ok2] obtain zs where
        zs: "NOTIFICATIONS (fst (scan_loop env now rs ?s2)) = NOTIFICATIONS ?s2 @ zs"
            "\<forall>q\<in>set zs. \<exists>r'. (n_reservation_id (snd q), r') \<in> set rs \<and>
                            \<not> notification_exists ?s2 (r_user_id r') (n_reservation_id (snd q))"
        by blast
      have mono: "notification_exists s u k \<Longrightarrow> notification_exists ?s2 u k" for u k
        unfolding notification_exists_iff ys create_notification_append [OF Cons.prems] by auto
      have res: "fst (scan_loop env now (p # rs) s) = fst (scan_loop env now rs ?s2)"
        using True Inr p by (simp add: Let_def)
      show ?thesis
        unfolding res zs(1) ys(1) create_notification_append [OF Cons.prems]
        using zs(2) ys(2) True mono p
        by (intro exI [of _ "(notif_next_id s,
               \<lparr>n_user_id = r_user_id r, n_reservation_id = rid, n_message = ?msg,
                n_created_at = now, n_read = False\<rparr>) # ys @ zs"]) fastforce
    qed
  qed
qed

lemma exists_mono_scan:
  assumes "state_ok s" "notification_exists s u k"
  shows "notification_exists (fst (scan_loop env now rs s)) u k"
proof -
  from scan_loop_append [OF assms(1), of env now rs] obtain zs where
    "NOTIFICATIONS (fst (scan_loop env now rs s)) = NOTIFICATIONS s @ zs" by blast
  then show ?thesis using assms(2) unfolding notification_exists_iff by auto
qed

lemma scan_loop_reminded:
  "state_ok s \<Longrightarrow> (rid, r) \<in> set rs \<Longrightarrow> due now r \<Longrightarrow>
     \<forall>p\<in>set rs. \<not> isl (reservation_datetime (snd p)) \<Longrightarrow>
     notification_exists (fst (scan_loop env now rs s)) (r_user_id r) rid"
proof (induction rs arbitrary: s)
  case Nil
  then show ?case by simp
next
  case (Cons p rs)
  obtain rid' r' where p: "p = (rid', r')" by (cases p)
  let ?msg = "Reminder (classroom_text env (r_classroom_id r')) (r_start_time r')"
  let ?s1 = "create_notification now s (r_user_id r') rid' ?msg"
  let ?s2 = "notify_participants env now rid' ?msg (r_participants r') ?s1"
  have ok1: "state_ok ?s1" using Cons.prems(1) by (rule create_notification_state_ok)
  have ok2: "state_ok ?s2" using ok1 by (rule notify_participants_state_ok)
  have parses: "\<forall>p\<in>set rs. \<not> isl (reservation_datetime (snd p))" using Cons.prems(4) by simp
  show ?case
  proof (cases "reservation_datetime r'")
    case (Inl e)
    then show ?thesis using Cons.prems(4) p by simp
  next
    case (Inr dt)
    show ?thesis
    proof (cases "reminder_due now dt \<and> \<not> notification_exists s (r_user_id r') rid'")
      case True
      have res: "fst (scan_loop env now (p # rs) s) = fst (scan_loop env now rs ?s2)"
        using True Inr p by (simp add: Let_def)
      show ?thesis
      proof (cases "(rid, r) = (rid', r')")
        case same: True
        from notify_participants_append [OF ok1, of env now rid' ?msg "r_participants r'"]
        obtain ys where ys: "NOTIFICATIONS ?s2 = NOTIFICATIONS ?s1 @ ys" by blast
        have "notification_exists ?s2 (r_user_id r') rid'"
          unfolding notification_exists_iff ys create_notification_append [OF Cons.prems(1)]
          by simp
        from exists_mono_scan [OF ok2 this] show ?thesis using same res by simp
      next
        case False
        then have "(rid, r) \<in> set rs" using Cons.prems(2) p by auto
        from Cons.IH [OF ok2 this Cons.prems(3) parses] show ?thesis using res by simp
      qed
    next
      case False
      have res: "fst (scan_loop env now (p # rs) s) = fst (scan_loop env now rs s)"
        using False Inr p by auto
      show ?thesis
      proof (cases "(rid, r) = (rid', r')")
        case same: True
        then have "notification_exists s (r_user_id r') rid'"
          using False Inr Cons.prems(3) by (auto simp: due_def)
        from exists_mono_scan [OF Cons.prems(1) this] show ?thesis using same res by simp
      next
        case False
        then have "(rid, r) \<in> set rs" using Cons.prems(2) p by auto
        from Cons.IH [OF Cons.prems(1) this Cons.prems(3) parses] show ?thesis using res by simp
      qed
    qed
  qed
qed

lemma scan_loop_noop:
  "\<forall>p\<in>set rs. \<not> isl (reservation_datetime (snd p)) \<and>
      (due now (snd p) \<longrightarrow> notification_exists t (r_user_id (snd p)) (fst p)) \<Longrightarrow>
     scan_loop env now rs t = (t, Inr ())"
proof (induction rs)
  case Nil
  then show ?case by simp
next
  case (Cons p rs)
  obtain rid r where p: "p = (rid, r)" by (cases p)
  show ?case using Cons unfolding p
    by (cases "reservation_datetime r") (auto simp: due_def)
qed

lemma scan_reservations [simp]:
  "RESERVATIONS (fst (check_and_create_notifications env now s)) = RESERVATIONS s"
  by (simp add: check_and_create_notifications_def)

lemma state_ok_parses:
  "state_ok s \<Longrightarrow> \<forall>p\<in>set (RESERVATIONS s). \<not> isl (reservation_datetime (snd p))"
  by (auto simp: state_ok_def list_all_iff reservation_ok_def reservation_datetime_def
      split: sum.splits)

lemma scan_twice:
  assumes ok: "state_ok s"
    and sub: "\<forall>p\<in>set (RESERVATIONS s). due now' (snd p) \<longrightarrow> due now (snd p)"
  shows "check_and_create_notifications env' now' (fst (check_and_create_notifications env now s))
           = (fst (check_and_create_notifications env now s), Inr ())"
proof -
  let ?s1 = "fst (check_and_create_notifications env now s)"
  have "\<forall>p\<in>set (RESERVATIONS s). \<not> isl (reservation_datetime (snd p)) \<and>
          (due now' (snd p) \<longrightarrow> notification_exists ?s1 (r_user_id (snd p)) (fst p))"
  proof
    fix p assume p: "p \<in> set (RESERVATIONS s)"
    have "notification_exists ?s1 (r_user_id (snd p)) (fst p)" if "due now' (snd p)"
      unfolding check_and_create_notifications_def
      using p sub that state_ok_parses [OF ok]
      by (intro scan_loop_reminded [OF ok]) auto
    then show "\<not> isl (reservation_datetime (snd p)) \<and>
          (due now' (snd p) \<longrightarrow> notification_exists ?s1 (r_user_id (snd p)) (fst p))"
      using state_ok_parses [OF ok] p by blast
  qed
  from scan_loop_noop [OF this, of env'] show ?thesis
    by (simp add: check_and_create_notifications_def [of env' now'])
qed

lemma scan_keeps_reminded:
  assumes ok: "state_ok s"
    and g: "dict_get (RESERVATIONS s) rid = Some r"
    and ex: "notification_exists s (r_user_id r) rid"
  shows "filter (\<lambda>q. n_reservation_id (snd q) = rid)
           (NOTIFICATIONS (fst (check_and_create_notifications env now s)))
           = filter (\<lambda>q. n_reservation_id (snd q) = rid) (NOTIFICATIONS s)"
proof -
  have d: "distinct (dict_keys (RESERVATIONS s))" using ok by (simp add: state_ok_def keys_ok_def)
  have mem: "(rid, r) \<in> set (RESERVATIONS s)" using g dict_get_mem [OF d] by simp
  from scan_loop_append [OF ok, of env now "RESERVATIONS s"] obtain zs where
    zs: "NOTIFICATIONS (fst (check_and_create_notifications env now s)) = NOTIFICATIONS s @ zs"
        "\<forall>q\<in>set zs. \<exists>r. (n_reservation_id (snd q), r) \<in> set (RESERVATIONS s) \<and>
                            \<not> notification_exists s (r_user_id r) (n_reservation_id (snd q))"
    unfolding check_and_create_notifications_def by blast
  have "n_reservation_id (snd q) \<noteq> rid" if q: "q \<in> set zs" for q
  proof
    assume eq: "n_reservation_id (snd q) = rid"
    from zs(2) q eq obtain r' where r': "(rid, r') \<in> set (RESERVATIONS s)"
      "\<not> notification_exists s (r_user_id r') rid" by blast
    from r'(1) mem d have "r' = r" by (metis dict_keys_def eq_key_imp_eq_value)
    with r'(2) ex show False by simp
  qed
  then have "filter (\<lambda>q. n_reservation_id (snd q) = rid) zs = []"
    by (simp add: filter_empty_conv)
  then show ?thesis by (simp add: zs(1))
qed

text \<open>
  C8.  In a well-formed state (every reachable state is one), a scan at \<open>now'\<close> right after
  a scan at \<open>now\<close> creates nothing and raises nothing, whenever every reservation in reach
  of the reminder at \<open>now'\<close> was in reach at \<open>now\<close>; in particular any number of scans at one
  clock reading leaves the stores as one scan does.  A reservation whose owner has a
  reminder for it gets no further notification.
\<close>

theorem C8_scan_idempotent:
  assumes "state_ok s"
  shows "(list_all (\<lambda>p. due now' (snd p) \<longrightarrow> due now (snd p)) (RESERVATIONS s) \<longrightarrow>
            check_and_create_notifications env' now' (fst (check_and_create_notifications env now s))
              = (fst (check_and_create_notifications env now s), Inr ())) \<and>
         ((\<lambda>t. fst (check_and_create_notifications env now t)) ^^ Suc n) s
           = fst (check_and_create_notifications env now s) \<and>
         (dict_get (RESERVATIONS s) rid = Some r \<and> notification_exists s (r_user_id r) rid \<longrightarrow>
            filter (\<lambda>q. n_reservation_id (snd q) = rid)
              (NOTIFICATIONS (fst (check_and_create_notifications env now s)))
              = filter (\<lambda>q. n_reservation_id (snd q) = rid) (NOTIFICATIONS s))"
proof (intro conjI impI)
  assume "list_all (\<lambda>p. due now' (snd p) \<longrightarrow> due now (snd p)) (RESERVATIONS s)"
  then have "\<forall>p\<in>set (RESERVATIONS s). due now' (snd p) \<longrightarrow> due now (snd p)"
    by (simp add: list_all_iff)
  with assms show "check_and_create_notifications env' now'
                     (fst (check_and_create_notifications env now s))
                     = (fst (check_and_create_notifications env now s), Inr ())"
    by (rule scan_twice)
next
  have again: "fst (check_and_create_notifications env now
                      (fst (check_and_create_notifications env now s)))
                 = fst (check_and_create_notifications env now s)"
    using scan_twice [OF assms, of now now env env] by simp
  show "((\<lambda>t. fst (check_and_create_notifications env now t)) ^^ Suc n) s
           = fst (check_and_create_notifications env now s)"
    by (induction n) (simp_all add: again)
next
  assume "dict_get (RESERVATIONS s) rid = Some r \<and> notification_exists s (r_user_id r) rid"
  with assms show "filter (\<lambda>q. n_reservation_id (snd q) = rid)
              (NOTIFICATIONS (fst (check_and_create_notifications env now s)))
              = filter (\<lambda>q. n_reservation_id (snd q) = rid) (NOTIFICATIONS s)"
    by (intro scan_keeps_reminded) auto
qed

lemma now1_eval: "now1 = 64029187800000000"
  by (simp add: now1_def mk_datetime_def combine_def day_micros_def parse_defs)

lemma env1_simps [simp]:
  "get_user env1 = (\<lambda>u. u = ''bob'')"
  "get_classroom env1 = (\<lambda>c. if c = 1 then Some ''Room A'' else None)"
  "set_order env1 = (\<lambda>xs. xs)"
  by (simp_all add: env1_def)

lemmas scan_eval_defs =
  check_and_create_notifications_def reservation_datetime_def reminder_due_def
  notification_exists_def get_user_notifications_def sort_by_def create_notification_def
  classroom_text_def dict_set_def dict_keys_def combine_def day_micros_def
  parse_date_2030_01_01 parse_time_1400 team_booked_def team_reminded_def init_state_def

lemma first_scan:
  "check_and_create_notifications env1 now1 team_booked = (team_reminded, Inr ())"
  by (simp add: scan_eval_defs now1_eval Let_def)

lemma state_ok_team_booked: "state_ok team_booked"
  using reachable_team_booked by (rule reachable_state_ok)

theorem C8_scan_idempotent_witness:
  "state_ok team_booked \<and>
   check_and_create_notifications env1 now1 team_booked = (team_reminded, Inr ()) \<and>
   map (n_user_id \<circ> snd) (NOTIFICATIONS team_reminded) = [''alice'', ''bob''] \<and>
   due (now1 + 60000000) (snd (hd (RESERVATIONS team_booked))) \<and>
   check_and_create_notifications env1 (now1 + 60000000) team_reminded = (team_reminded, Inr ()) \<and>
   ((\<lambda>t. fst (check_and_create_notifications env1 now1 t)) ^^ 3) team_booked = team_reminded"
proof -
  note c8 = C8_scan_idempotent [OF state_ok_team_booked, where env = env1 and now = now1]
  have sub: "list_all (\<lambda>p. due (now1 + 60000000) (snd p) \<longrightarrow> due now1 (snd p))
               (RESERVATIONS team_booked)"
    by (simp add: team_booked_def init_state_def due_def reservation_datetime_def
        parse_date_2030_01_01 parse_time_1400 reminder_due_def combine_def day_micros_def
        now1_eval)
  have a: "check_and_create_notifications env1 (now1 + 60000000) team_reminded
             = (team_reminded, Inr ())"
    using c8 [where now' = "now1 + 60000000" and env' = env1, THEN conjunct1] sub
    by (simp add: first_scan)
  have b: "((\<lambda>t. fst (check_and_create_notifications env1 now1 t)) ^^ 3) team_booked
             = team_reminded"
    using c8 [where n = 2, THEN conjunct2, THEN conjunct1]
    by (simp add: first_scan numeral_3_eq_3)
  have c: "due (now1 + 60000000) (snd (hd (RESERVATIONS team_booked)))"
    by (simp add: team_booked_def init_state_def due_def reservation_datetime_def
        parse_date_2030_01_01 parse_time_1400 reminder_due_def combine_def day_micros_def
        now1_eval)
  show ?thesis
    using a b c state_ok_team_booked first_scan
    by (simp add: team_reminded_def)
qed

section \<open>Promotion from the waitlist\<close>

lemma find_matching_filter:
  "list_all entry_ok (map snd wl) \<Longrightarrow>
     find_matching c d cs ce wl = Inr (filter (\<lambda>p. matches_freed c d cs ce (snd p)) wl)"
proof (induction wl)
  case Nil
  then show ?case by simp
next
  case (Cons p wl)
  obtain wid e where p: "p = (wid, e)" by (cases p)
  show ?case using Cons unfolding p
    by (auto simp: matches_freed_def entry_ok_def split: sum.splits)
qed

lemma find_conflicts_filter:
  "list_all reservation_ok rs \<Longrightarrow>
     find_conflicts c d t1 t2 rs = Inr (map conflict_triple (filter (conflicts_with c d t1 t2) rs))"
  by (induction rs)
     (auto simp: conflicts_with_def conflict_triple_def reservation_ok_def split: sum.splits)

lemma clean_participants_None [simp]: "clean_participants env u None = []"
  by (simp add: clean_participants_def list_of_set_def Let_def)

lemma sort_by_single [simp]: "sort_by le [x] = [x]"
  by (simp add: sort_by_def)

lemma promote_single:
  assumes ok: "state_ok s"
    and mem: "(wid, e) \<in> set (WAITLIST s)"
    and cnt: "count_active_reservations s now (w_user_id e) = Inr n" "n < 3"
    and p: "parse_date d = Inr dd" "parse_time (w_start_time e) = Inr es"
           "parse_time (w_end_time e) = Inr ee"
    and v: "\<not> is_past_datetime now dd es" "is_within_7_days now dd" "is_valid_time_slot es ee"
    and free: "list_all (\<lambda>r. \<not> conflicts_with c d es ee r) (map snd (RESERVATIONS s))"
  shows "promote_loop env now c d [(wid, e)] s
           = (s\<lparr>RESERVATIONS := RESERVATIONS s @
                   [(res_next_id s,
                     \<lparr>r_user_id = w_user_id e, r_classroom_id = c, r_date = d,
                      r_start_time = w_start_time e, r_end_time = w_end_time e,
                      r_participants = []\<rparr>)],
                res_next_id := res_next_id s + 1,
                WAITLIST := resync_priorities c d (w_start_time e) (w_end_time e)
                              (dict_del wid (WAITLIST s)),
                NOTIFICATIONS := NOTIFICATIONS s @
                   [(notif_next_id s,
                     \<lparr>n_user_id = w_user_id e, n_reservation_id = res_next_id s,
                      n_message = Promoted (classroom_text env c) d (w_start_time e)
                                    (w_end_time e),
                      n_created_at = now, n_read = False\<rparr>)],
                notif_next_id := notif_next_id s + 1\<rparr>,
              Inr (Some \<lparr>a_user_id = w_user_id e, a_classroom_id = c, a_date = d,
                         a_start_time = w_start_time e, a_end_time = w_end_time e\<rparr>))"
proof -
  have kr: "keys_ok (res_next_id s) (RESERVATIONS s)" using ok by (simp add: state_ok_def)
  have kn: "keys_ok (notif_next_id s) (NOTIFICATIONS s)" using ok by (simp add: state_ok_def)
  have rok: "list_all reservation_ok (map snd (RESERVATIONS s))" using ok by (simp add: state_ok_def)
  have fc: "find_conflicts c d es ee (map snd (RESERVATIONS s)) = Inr []"
    using free unfolding find_conflicts_filter [OF rok]
    by (simp add: filter_empty_conv list_all_iff)
  have cr: "create_reservation env now s (w_user_id e) c d (w_start_time e) (w_end_time e) None
              = (s\<lparr>RESERVATIONS := RESERVATIONS s @
                      [(res_next_id s,
                        \<lparr>r_user_id = w_user_id e, r_classroom_id = c, r_date = d,
                         r_start_time = w_start_time e, r_end_time = w_end_time e,
                         r_participants = []\<rparr>)],
                    res_next_id := res_next_id s + 1\<rparr>,
                 Inr (True, ReservationCreated))"
    using create_reservation_intro [OF p v cnt _ fc, of env None]
    by (simp add: dict_set_fresh [OF keys_ok_fresh [OF kr]])
  have key: "wid \<in> set (dict_keys (WAITLIST s))"
    using mem by (force simp: dict_keys_def)
  have mx: "max_key (dict_keys (RESERVATIONS s) @ [res_next_id s]) = res_next_id s"
    using kr by (intro max_key_append) (auto simp: keys_ok_def list_all_iff)
  have pos: "res_next_id s \<noteq> 0" using kr by (simp add: keys_ok_def)
  show ?thesis
    using cnt key mx pos
    by (simp add: cr Let_def dict_keys_def create_notification_def
        dict_set_fresh [OF keys_ok_fresh [OF kn], unfolded dict_keys_def]
        del: max_key.simps)
qed

lemma matches_freed_priority:
  "matches_freed c d cs ce (e\<lparr>w_priority := k\<rparr>) = matches_freed c d cs ce e"
  by (auto simp: matches_freed_def split: sum.splits)

text \<open>
  The promotion of a candidate that \<open>find_matching\<close> finds, that is, of an entry that
  writes the date as the freed reservation does.  The freed slot is the classroom, date
  string and interval of a reservation that was stored, so its times parse.  In a
  well-formed state (every reachable state is one): when exactly one waitlist entry is for
  the classroom and date string and overlaps the freed interval, its user holds fewer than
  three active reservations, and its own interval is not in the past, in the window, a
  valid slot and free of conflicts, then \<open>process_waitlist_on_reservation_cancelled\<close>
  appends one reservation for the interval of the entry, removes the entry from the
  waitlist, appends one notification for its user that names the new reservation, and
  returns the summary of the entry.  When no entry matches it returns \<open>None\<close> and changes
  nothing.
\<close>

lemma single_candidate_promoted:
  assumes "state_ok s" "parse_time st = Inr cs" "parse_time en = Inr ce"
  shows "(filter (\<lambda>p. matches_freed c d cs ce (snd p)) (WAITLIST s) = [(wid, e)] \<and>
          count_active_reservations s now (w_user_id e) = Inr n \<and> n < 3 \<and>
          parse_date d = Inr dd \<and> parse_time (w_start_time e) = Inr es \<and>
          parse_time (w_end_time e) = Inr ee \<and>
          \<not> is_past_datetime now dd es \<and> is_within_7_days now dd \<and> is_valid_time_slot es ee \<and>
          list_all (\<lambda>r. \<not> conflicts_with c d es ee r) (map snd (RESERVATIONS s)) \<longrightarrow>
          process_waitlist_on_reservation_cancelled env now s c d st en
            = (s\<lparr>RESERVATIONS := RESERVATIONS s @
                    [(res_next_id s,
                      \<lparr>r_user_id = w_user_id e, r_classroom_id = c, r_date = d,
                       r_start_time = w_start_time e, r_end_time = w_end_time e,
                       r_participants = []\<rparr>)],
                 res_next_id := res_next_id s + 1,
                 WAITLIST := resync_priorities c d (w_start_time e) (w_end_time e)
                               (dict_del wid (WAITLIST s)),
                 NOTIFICATIONS := NOTIFICATIONS s @
                    [(notif_next_id s,
                      \<lparr>n_user_id = w_user_id e, n_reservation_id = res_next_id s,
                       n_message = Promoted (classroom_text env c) d (w_start_time e)
                                     (w_end_time e),
                       n_created_at = now, n_read = False\<rparr>)],
                 notif_next_id := notif_next_id s + 1\<rparr>,
               Inr (Some \<lparr>a_user_id = w_user_id e, a_classroom_id = c, a_date = d,
                          a_start_time = w_start_time e, a_end_time = w_end_time e\<rparr>)) \<and>
          wid \<notin> set (dict_keys (resync_priorities c d (w_start_time e) (w_end_time e)
                                   (dict_del wid (WAITLIST s)))) \<and>
          filter (\<lambda>p. matches_freed c d cs ce (snd p))
            (resync_priorities c d (w_start_time e) (w_end_time e) (dict_del wid (WAITLIST s)))
            = []) \<and>
         (filter (\<lambda>p. matches_freed c d cs ce (snd p)) (WAITLIST s) = [] \<longrightarrow>
          process_waitlist_on_reservation_cancelled env now s c d st en = (s, Inr None))"
proof (intro conjI impI)
  have eok: "list_all entry_ok (map snd (WAITLIST s))" using assms(1) by (simp add: state_ok_def)
  note fm = find_matching_filter [OF eok, of c d cs ce]
  {
    assume "filter (\<lambda>p. matches_freed c d cs ce (snd p)) (WAITLIST s) = []"
    then show "process_waitlist_on_reservation_cancelled env now s c d st en = (s, Inr None)"
      by (simp add: process_waitlist_on_reservation_cancelled_def assms(2,3) fm)
  }
  assume h: "filter (\<lambda>p. matches_freed c d cs ce (snd p)) (WAITLIST s) = [(wid, e)] \<and>
          count_active_reservations s now (w_user_id e) = Inr n \<and> n < 3 \<and>
          parse_date d = Inr dd \<and> parse_time (w_start_time e) = Inr es \<and>
          parse_time (w_end_time e) = Inr ee \<and>
          \<not> is_past_datetime now dd es \<and> is_within_7_days now dd \<and> is_valid_time_slot es ee \<and>
          list_all (\<lambda>r. \<not> conflicts_with c d es ee r) (map snd (RESERVATIONS s))"
  then have f: "filter (\<lambda>p. matches_freed c d cs ce (snd p)) (WAITLIST s) = [(wid, e)]" by simp
  have "(wid, e) \<in> set (filter (\<lambda>p. matches_freed c d cs ce (snd p)) (WAITLIST s))"
    unfolding f by simp
  then have mem: "(wid, e) \<in> set (WAITLIST s)" by simp
  from h have pl: "promote_loop env now c d [(wid, e)] s
           = (s\<lparr>RESERVATIONS := RESERVATIONS s @
                   [(res_next_id s,
                     \<lparr>r_user_id = w_user_id e, r_classroom_id = c, r_date = d,
                      r_start_time = w_start_time e, r_end_time = w_end_time e,
                      r_participants = []\<rparr>)],
                res_next_id := res_next_id s + 1,
                WAITLIST := resync_priorities c d (w_start_time e) (w_end_time e)
                              (dict_del wid (WAITLIST s)),
                NOTIFICATIONS := NOTIFICATIONS s @
                   [(notif_next_id s,
                     \<lparr>n_user_id = w_user_id e, n_reservation_id = res_next_id s,
                      n_message = Promoted (classroom_text env c) d (w_start_time e)
                                    (w_end_time e),
                      n_created_at = now, n_read = False\<rparr>)],
                notif_next_id := notif_next_id s + 1\<rparr>,
              Inr (Some \<lparr>a_user_id = w_user_id e, a_classroom_id = c, a_date = d,
                         a_start_time = w_start_time e, a_end_time = w_end_time e\<rparr>))"
    by (intro promote_single [OF assms(1) mem, where n = n and dd = dd and es = es and ee = ee])
       simp_all
  show "process_waitlist_on_reservation_cancelled env now s c d st en
            = (s\<lparr>RESERVATIONS := RESERVATIONS s @
                    [(res_next_id s,
                      \<lparr>r_user_id = w_user_id e, r_classroom_id = c, r_date = d,
                       r_start_time = w_start_time e, r_end_time = w_end_time e,
                       r_participants = []\<rparr>)],
                 res_next_id := res_next_id s + 1,
                 WAITLIST := resync_priorities c d (w_start_time e) (w_end_time e)
                               (dict_del wid (WAITLIST s)),
                 NOTIFICATIONS := NOTIFICATIONS s @
                    [(notif_next_id s,
                      \<lparr>n_user_id = w_user_id e, n_reservation_id = res_next_id s,
                       n_message = Promoted (classroom_text env c) d (w_start_time e)
                                     (w_end_time e),
                       n_created_at = now, n_read = False\<rparr>)],
                 notif_next_id := notif_next_id s + 1\<rparr>,
               Inr (Some \<lparr>a_user_id = w_user_id e, a_classroom_id = c, a_date = d,
                          a_start_time = w_start_time e, a_end_time = w_end_time e\<rparr>))"
    by (simp add: process_waitlist_on_reservation_cancelled_def assms(2,3) fm f pl
        del: promote_loop.simps)
  show "wid \<notin> set (dict_keys (resync_priorities c d (w_start_time e) (w_end_time e)
                                   (dict_del wid (WAITLIST s))))"
    unfolding resync_keys by (auto simp: dict_keys_def dict_del_def)
  have "\<forall>p\<in>set (dict_del wid (WAITLIST s)). \<not> matches_freed c d cs ce (snd p)"
  proof
    fix p assume p: "p \<in> set (dict_del wid (WAITLIST s))"
    then have "p \<in> set (WAITLIST s)" "fst p \<noteq> wid" by (auto simp: dict_del_def)
    show "\<not> matches_freed c d cs ce (snd p)"
    proof
      assume "matches_freed c d cs ce (snd p)"
      with \<open>p \<in> set (WAITLIST s)\<close>
      have "p \<in> set (filter (\<lambda>p. matches_freed c d cs ce (snd p)) (WAITLIST s))" by simp
      then have "p = (wid, e)" unfolding f by simp
      with \<open>fst p \<noteq> wid\<close> show False by simp
    qed
  qed
  then show "filter (\<lambda>p. matches_freed c d cs ce (snd p))
            (resync_priorities c d (w_start_time e) (w_end_time e) (dict_del wid (WAITLIST s)))
            = []"
    unfolding resync_priorities_def filter_empty_conv
    by (auto simp: matches_freed_priority)
qed

lemmas promote_eval_defs =
  bob_waiting_def bob_promoted_def waiting_def init_state_def matches_freed_def
  resync_priorities_def dict_del_def same_slot_def classroom_text_def

lemma state_ok_bob_waiting: "state_ok bob_waiting"
  by (simp add: state_ok_def keys_ok_def dict_keys_def entry_ok_def promote_eval_defs
      parse_time_1400 parse_time_1500)

lemma single_candidate_promoted_example:
  "state_ok bob_waiting \<and>
   filter (\<lambda>p. matches_freed 1 ''2030-01-01'' (Time 14 0) (Time 15 0) (snd p)) (WAITLIST bob_waiting)
     = [(1, waiting ''bob'' now0 0)] \<and>
   process_waitlist_on_reservation_cancelled env1 now0 bob_waiting 1 ''2030-01-01'' ''14:00'' ''15:00''
     = (bob_promoted,
        Inr (Some \<lparr>a_user_id = ''bob'', a_classroom_id = 1, a_date = ''2030-01-01'',
                   a_start_time = ''14:00'', a_end_time = ''15:00''\<rparr>)) \<and>
   process_waitlist_on_reservation_cancelled env1 now0 bob_waiting 2 ''2030-01-01'' ''14:00'' ''15:00''
     = (bob_waiting, Inr None)"
proof -
  note c2 = single_candidate_promoted [OF state_ok_bob_waiting parse_time_1400 parse_time_1500]
  have m: "filter (\<lambda>p. matches_freed 1 ''2030-01-01'' (Time 14 0) (Time 15 0) (snd p))
             (WAITLIST bob_waiting) = [(1, waiting ''bob'' now0 0)]"
    by (simp add: promote_eval_defs parse_time_1400 parse_time_1500 is_time_overlap_def
        time_to_minutes_def)
  have h: "count_active_reservations bob_waiting now0 (w_user_id (waiting ''bob'' now0 0)) = Inr 0 \<and>
           (0::nat) < 3 \<and> parse_date ''2030-01-01'' = Inr 741078 \<and>
           parse_time (w_start_time (waiting ''bob'' now0 0)) = Inr (Time 14 0) \<and>
           parse_time (w_end_time (waiting ''bob'' now0 0)) = Inr (Time 15 0) \<and>
           \<not> is_past_datetime now0 741078 (Time 14 0) \<and> is_within_7_days now0 741078 \<and>
           is_valid_time_slot (Time 14 0) (Time 15 0) \<and>
           list_all (\<lambda>r. \<not> conflicts_with 1 ''2030-01-01'' (Time 14 0) (Time 15 0) r)
             (map snd (RESERVATIONS bob_waiting))"
    by (simp add: eval_defs promote_eval_defs)
  have a: "process_waitlist_on_reservation_cancelled env1 now0 bob_waiting 1 ''2030-01-01''
             ''14:00'' ''15:00''
           = (bob_promoted,
              Inr (Some \<lparr>a_user_id = ''bob'', a_classroom_id = 1, a_date = ''2030-01-01'',
                   a_start_time = ''14:00'', a_end_time = ''15:00''\<rparr>))"
    using c2 [where c = 1 and d = "''2030-01-01''" and wid = 1 and e = "waiting ''bob'' now0 0"
                and n = 0 and dd = 741078 and es = "Time 14 0" and ee = "Time 15 0"
                and now = now0 and env = env1, THEN conjunct1, THEN mp, THEN conjunct1] m h
    by (simp add: promote_eval_defs)
  have z: "filter (\<lambda>p. matches_freed 2 ''2030-01-01'' (Time 14 0) (Time 15 0) (snd p))
             (WAITLIST bob_waiting) = []"
    by (simp add: promote_eval_defs)
  have b: "process_waitlist_on_reservation_cancelled env1 now0 bob_waiting 2 ''2030-01-01''
             ''14:00'' ''15:00'' = (bob_waiting, Inr None)"
    using c2 [where c = 2 and d = "''2030-01-01''" and now = now0 and env = env1,
              THEN conjunct2, THEN mp] z
    by simp
  show ?thesis using state_ok_bob_waiting m a b by simp
qed

text \<open>The scenario of the specification: alice holds the hour, bob waits for it, alice
  cancels, and bob gets the hour.\<close>

lemma bob_promotion:
  "process_waitlist_on_reservation_cancelled env1 now0 bob_waiting 1 ''2030-01-01'' ''14:00'' ''15:00''
     = (bob_promoted,
        Inr (Some \<lparr>a_user_id = ''bob'', a_classroom_id = 1, a_date = ''2030-01-01'',
                   a_start_time = ''14:00'', a_end_time = ''15:00''\<rparr>))"
  by (simp add: process_waitlist_on_reservation_cancelled_def eval_defs promote_eval_defs
      sort_by_def create_notification_def Let_def)

lemma scenario_cancel_promotes:
  "cancel_reservation_post env1 now0
     (alice_booked\<lparr>WAITLIST := [(1, waiting ''bob'' now0 0)], wl_next_id := 2\<rparr>) 1 ''alice''
     = (bob_promoted,
        Inr (Some \<lparr>a_user_id = ''bob'', a_classroom_id = 1, a_date = ''2030-01-01'',
                   a_start_time = ''14:00'', a_end_time = ''15:00''\<rparr>))"
proof -
  have "cancel_reservation (alice_booked\<lparr>WAITLIST := [(1, waiting ''bob'' now0 0)], wl_next_id := 2\<rparr>)
          1 ''alice'' = (bob_waiting, True, ReservationCancelled)"
    by (simp add: cancel_reservation_def alice_booked_def bob_waiting_def init_state_def
        dict_get_def dict_del_def)
  then show ?thesis
    using bob_promotion
    by (simp add: cancel_reservation_post_def alice_booked_def init_state_def dict_get_def)
qed

text \<open>
  The candidates that \<open>find_matching\<close> finds are the entries that wait for the freed day
  and hour and write the date as the freed reservation does.  So the promotion above
  happens when the only entry that waits for the freed day and hour writes the date that
  way, and nothing is promoted when no entry waits for the freed day and hour.
\<close>

lemma matches_freed_waits_for:
  "parse_date d = Inr day \<Longrightarrow>
     matches_freed c d cs ce e \<longleftrightarrow> waits_for c day cs ce e \<and> w_date e = d"
  by (auto simp: matches_freed_def waits_for_def)

lemma single_waiter_matches:
  assumes "parse_date d = Inr day"
    and "filter (\<lambda>p. waits_for c day cs ce (snd p)) wl = [(wid, e)]" "w_date e = d"
  shows "filter (\<lambda>p. matches_freed c d cs ce (snd p)) wl = [(wid, e)]"
proof -
  have "filter (\<lambda>p. matches_freed c d cs ce (snd p)) wl
          = filter (\<lambda>p. w_date (snd p) = d) (filter (\<lambda>p. waits_for c day cs ce (snd p)) wl)"
    by (simp add: matches_freed_waits_for [OF assms(1)])
  then show ?thesis using assms(2,3) by simp
qed

lemma no_waiter_no_promotion:
  assumes "state_ok s" "parse_time st = Inr cs" "parse_time en = Inr ce" "parse_date d = Inr day"
    and "filter (\<lambda>p. waits_for c day cs ce (snd p)) (WAITLIST s) = []"
  shows "process_waitlist_on_reservation_cancelled env now s c d st en = (s, Inr None)"
proof -
  have "filter (\<lambda>p. matches_freed c d cs ce (snd p)) (WAITLIST s)
          = filter (\<lambda>p. w_date (snd p) = d) (filter (\<lambda>p. waits_for c day cs ce (snd p)) (WAITLIST s))"
    by (simp add: matches_freed_waits_for [OF assms(4)])
  then have "filter (\<lambda>p. matches_freed c d cs ce (snd p)) (WAITLIST s) = []"
    using assms(5) by simp
  with single_candidate_promoted [OF assms(1-3), of c d, THEN conjunct2]
  show ?thesis by simp
qed

lemmas respelled_defs =
  bob_respelled_def alice_holds_bob_waits_def bob_still_waits_def alice_booked_def

lemma bob_waits_respelled:
  "create_waitlist_entry now0 alice_booked ''bob'' 1 ''2030-1-1'' ''14:00'' ''15:00''
     = (alice_holds_bob_waits, Inr (True, WaitlistCreated 1))"
  by (simp add: create_waitlist_entry_def same_slot_def eval_defs respelled_defs)

lemma alice_cancels_respelled:
  "cancel_reservation_post env1 now0 alice_holds_bob_waits 1 ''alice'' = (bob_still_waits, Inr None)"
  by (simp add: cancel_reservation_post_def cancel_reservation_def
      process_waitlist_on_reservation_cancelled_def eval_defs respelled_defs)

lemma reachable_bob_still_waits: "reachable bob_still_waits"
proof -
  let ?P = "\<lambda>(s::state) (now::datetime). True"
  have 1: "reach ?P alice_booked"
    using reachable_alice_booked by (simp add: reachable_def)
  have 2: "reach ?P alice_holds_bob_waits"
    using reach_create_waitlist_entry [OF 1, of now0 "''bob''" 1 "''2030-1-1''" "''14:00''"
            "''15:00''"]
    by (simp add: bob_waits_respelled)
  have 3: "reach ?P bob_still_waits"
    using reach_cancel_reservation_post [OF 2, of env1 now0 1 "''alice''"]
    by (simp add: alice_cancels_respelled)
  then show ?thesis by (simp add: reachable_def)
qed

lemma bob_not_promoted:
  "process_waitlist_on_reservation_cancelled env1 now0 bob_still_waits 1 ''2030-01-01''
     ''14:00'' ''15:00'' = (bob_still_waits, Inr None)"
  by (simp add: process_waitlist_on_reservation_cancelled_def eval_defs respelled_defs)

lemma bob_alone_waits_for:
  "filter (\<lambda>p. waits_for 1 741078 (Time 14 0) (Time 15 0) (snd p)) (WAITLIST bob_still_waits)
     = [(1, bob_respelled)]"
  by (simp add: waits_for_def eval_defs respelled_defs)

lemma bob_could_book:
  "count_active_reservations bob_still_waits now0 ''bob'' = Inr 0 \<and>
   snd (create_reservation env1 now0 bob_still_waits ''bob'' 1 ''2030-01-01'' ''14:00'' ''15:00''
          None) = Inr (True, ReservationCreated)"
  by (simp add: eval_defs respelled_defs)

text \<open>
  C2.  The claim: when exactly one waitlist entry is for the classroom and date of the
  freed reservation and overlaps its interval, its user holds fewer than three active
  reservations and its interval can be booked, the entry is promoted.  The code looks for
  the entries whose date string equals the date string of the freed reservation (line
  200 of waitlist_db.py), while \<open>create_waitlist_entry\<close> accepts every string that
  \<open>parse_date\<close> reads.  Alice holds classroom 1 on ``2030-01-01'' from 14:00 to 15:00, bob
  asks to wait for the classroom and hour on ``2030-1-1'', the same day, and alice
  cancels.  Bob is the only one who waits for the freed day and hour, he holds no
  reservation and the booking the promotion would make succeeds; the code finds no
  candidate, returns \<open>None\<close>, and bob still waits.  Had bob written ``2030-01-01'', he
  would hold the hour.
\<close>

theorem C2_respelled_entry_not_promoted:
  "create_waitlist_entry now0 alice_booked ''bob'' 1 ''2030-1-1'' ''14:00'' ''15:00''
     = (alice_holds_bob_waits, Inr (True, WaitlistCreated 1)) \<and>
   cancel_reservation_post env1 now0 alice_holds_bob_waits 1 ''alice'' = (bob_still_waits, Inr None) \<and>
   reachable bob_still_waits \<and>
   parse_date ''2030-01-01'' = Inr 741078 \<and>
   filter (\<lambda>p. waits_for 1 741078 (Time 14 0) (Time 15 0) (snd p)) (WAITLIST bob_still_waits)
     = [(1, bob_respelled)] \<and>
   count_active_reservations bob_still_waits now0 ''bob'' = Inr 0 \<and>
   snd (create_reservation env1 now0 bob_still_waits ''bob'' 1 ''2030-01-01'' ''14:00'' ''15:00''
          None) = Inr (True, ReservationCreated) \<and>
   process_waitlist_on_reservation_cancelled env1 now0 bob_still_waits 1 ''2030-01-01''
     ''14:00'' ''15:00'' = (bob_still_waits, Inr None) \<and>
   RESERVATIONS bob_still_waits = [] \<and> WAITLIST bob_still_waits = [(1, bob_respelled)] \<and>
   cancel_reservation_post env1 now0
     (alice_booked\<lparr>WAITLIST := [(1, waiting ''bob'' now0 0)], wl_next_id := 2\<rparr>) 1 ''alice''
     = (bob_promoted,
        Inr (Some \<lparr>a_user_id = ''bob'', a_classroom_id = 1, a_date = ''2030-01-01'',
                   a_start_time = ''14:00'', a_end_time = ''15:00''\<rparr>))"
proof (intro conjI)
  show "RESERVATIONS bob_still_waits = []" "WAITLIST bob_still_waits = [(1, bob_respelled)]"
    by (simp_all add: bob_still_waits_def init_state_def)
qed (simp_all add: bob_waits_respelled alice_cancels_respelled reachable_bob_still_waits
       parse_date_2030_01_01 bob_alone_waits_for bob_could_book bob_not_promoted
       scenario_cancel_promotes)

theorem C2_respelled_entry_not_promoted_witness:
  "WAITLIST (fst (cancel_reservation_post env1 now0 alice_holds_bob_waits 1 ''alice''))
     = [(1, bob_respelled)] \<and>
   RESERVATIONS (fst (cancel_reservation_post env1 now0 alice_holds_bob_waits 1 ''alice'')) = [] \<and>
   snd (cancel_reservation_post env1 now0 alice_holds_bob_waits 1 ''alice'') = Inr None"
  using C2_respelled_entry_not_promoted by simp

section \<open>Priorities within the group of a classroom, day and hour\<close>

lemma spelled_parses:
  assumes "spelled d st en (day_group c day a b s)" "day_group c day a b s \<noteq> []"
  shows "parse_date d = Inr day \<and> parse_time st = Inr a \<and> parse_time en = Inr b"
proof -
  from assms(2) obtain e where e: "e \<in> set (day_group c day a b s)"
    by (cases "day_group c day a b s") auto
  then have "parse_date (w_date e) = Inr day" "parse_time (w_start_time e) = Inr a"
    "parse_time (w_end_time e) = Inr b"
    by (simp_all add: day_group_def)
  moreover have "w_date e = d" "w_start_time e = st" "w_end_time e = en"
    using assms(1) e by (simp_all add: spelled_def list_all_iff)
  ultimately show ?thesis by simp
qed

lemma day_group_slot:
  assumes "spelled d st en (day_group c day a b s)"
    and "parse_date d = Inr day" "parse_time st = Inr a" "parse_time en = Inr b"
  shows "day_group c day a b s = slot_entries c d st en s"
proof -
  have "\<And>e. e \<in> set (map snd (WAITLIST s)) \<Longrightarrow>
          (w_classroom_id e = c \<and> parse_date (w_date e) = Inr day \<and>
           parse_time (w_start_time e) = Inr a \<and> parse_time (w_end_time e) = Inr b)
          = same_slot c d st en e"
  proof -
    fix e assume m: "e \<in> set (map snd (WAITLIST s))"
    show "(w_classroom_id e = c \<and> parse_date (w_date e) = Inr day \<and>
           parse_time (w_start_time e) = Inr a \<and> parse_time (w_end_time e) = Inr b)
          = same_slot c d st en e"
    proof
      assume h: "w_classroom_id e = c \<and> parse_date (w_date e) = Inr day \<and>
           parse_time (w_start_time e) = Inr a \<and> parse_time (w_end_time e) = Inr b"
      with m have "e \<in> set (day_group c day a b s)" by (simp add: day_group_def)
      with assms(1) have "w_date e = d \<and> w_start_time e = st \<and> w_end_time e = en"
        by (simp add: spelled_def list_all_iff)
      with h show "same_slot c d st en e" by (simp add: same_slot_def)
    next
      assume "same_slot c d st en e"
      then show "w_classroom_id e = c \<and> parse_date (w_date e) = Inr day \<and>
           parse_time (w_start_time e) = Inr a \<and> parse_time (w_end_time e) = Inr b"
        using assms(2-4) by (simp add: same_slot_def)
    qed
  qed
  then show ?thesis
    unfolding day_group_def slot_entries_def by (rule filter_cong [OF refl])
qed

lemma resync_recomputed:
  "recomputed (filter (same_slot c d st en) (map snd (resync_priorities c d st en wl)))"
  unfolding recomputed_def resync_same_slot
  by (simp add: list_all_iff length_filter_map)

lemma promote_loop_recomputed:
  "promote_loop env now c d ms s = (s', Inr (Some r)) \<Longrightarrow>
     a_classroom_id r = c \<and> a_date r = d \<and>
     recomputed (slot_entries c d (a_start_time r) (a_end_time r) s')"
proof (induction ms arbitrary: s)
  case Nil
  then show ?case by simp
next
  case (Cons p ms)
  obtain wid e where p: "p = (wid, e)" by (cases p)
  show ?case
  proof (cases "count_active_reservations s now (w_user_id e)")
    case (Inl x)
    then show ?thesis using Cons.prems p by simp
  next
    case (Inr n)
    show ?thesis
    proof (cases "n \<ge> 3")
      case True
      then show ?thesis using Cons.prems Cons.IH Inr p by simp
    next
      case False
      obtain s1 res where c1: "create_reservation env now s (w_user_id e) c d (w_start_time e)
                             (w_end_time e) None = (s1, res)"
        by (cases "create_reservation env now s (w_user_id e) c d (w_start_time e)
                             (w_end_time e) None")
      show ?thesis
      proof (cases res)
        case (Inl x)
        then show ?thesis using Cons.prems Inr False p c1 by simp
      next
        case r: (Inr okm)
        obtain ok msg where okm: "okm = (ok, msg)" by (cases okm)
        show ?thesis
        proof (cases ok)
          case False
          with Cons.prems Inr \<open>\<not> 3 \<le> n\<close> p c1 r okm
          have "promote_loop env now c d ms s1 = (s', Inr (Some r))" by simp
          then show ?thesis by (rule Cons.IH)
        next
          case True
          with Cons.prems Inr \<open>\<not> 3 \<le> n\<close> p c1 r okm
          show ?thesis
            by (auto simp: Let_def slot_entries_def resync_recomputed split: if_splits)
        qed
      qed
    qed
  qed
qed

lemma process_waitlist_recomputed:
  "process_waitlist_on_reservation_cancelled env now s c d st en = (s', Inr (Some r)) \<Longrightarrow>
     a_classroom_id r = c \<and> a_date r = d \<and>
     recomputed (slot_entries c d (a_start_time r) (a_end_time r) s')"
  unfolding process_waitlist_on_reservation_cancelled_def
  by (auto split: sum.splits exn.splits if_splits dest: promote_loop_recomputed)

lemma alice_promotion:
  "process_waitlist_on_reservation_cancelled env1 now0 fifo2 1 ''2030-01-01'' ''14:00'' ''15:00''
     = (alice_promoted,
        Inr (Some \<lparr>a_user_id = ''alice'', a_classroom_id = 1, a_date = ''2030-01-01'',
                   a_start_time = ''14:00'', a_end_time = ''15:00''\<rparr>))"
  by (simp add: process_waitlist_on_reservation_cancelled_def eval_defs promote_eval_defs
      sort_by_def entry_le_def create_notification_def Let_def fifo2_def alice_promoted_def)

lemma bob_waits_respelled_later:
  "create_waitlist_entry (now0 + 1000000) queue1 ''bob'' 1 ''2030-1-1'' ''14:00'' ''15:00''
     = (two_spellings, Inr (True, WaitlistCreated 1))"
  by (simp add: wl_eval_defs eval_defs two_spellings_def)

lemma reach_fresh_two_spellings: "reach clock_fresh two_spellings"
proof -
  have 0: "clock_fresh init_state now0" by (simp add: clock_fresh_def init_state_def)
  have 1: "reach clock_fresh queue1"
    using reach_create_waitlist_entry [where clock_ok = clock_fresh, OF reach_init 0,
            of "''alice''" 1 "''2030-01-01''" "''14:00''" "''15:00''"]
    by (simp add: alice_waits)
  have 2: "clock_fresh queue1 (now0 + 1000000)"
    by (simp add: clock_fresh_def queue1_def waiting_def init_state_def)
  show ?thesis
    using reach_create_waitlist_entry [OF 1 2, of "''bob''" 1 "''2030-1-1''"
            "''14:00''" "''15:00''"]
    by (simp add: bob_waits_respelled_later)
qed

lemmas group_eval_defs =
  day_group_def spelled_def recomputed_def fifo2_def fifo_left_def queue1_def alice_promoted_def
  two_spellings_def waiting_def init_state_def parse_date_2030_01_01 parse_date_2030_1_1
  parse_time_1400 parse_time_1500

text \<open>
  C5, as the code has it.  A group is made of the entries that wait for one classroom,
  day, start and end, and the statement is about the groups whose entries all write the
  date and the times with the same strings; what the priorities are in a group that
  writes them in more than one way is not said.  When every waitlist entry is created at
  a clock reading later than the creation times of the entries already stored, then in
  every reachable state the entries of such a group carry, in the order of their creation
  times, which are all different, the priorities 0 to n - 1.  A new entry gets the number
  of entries of its group as its priority.  After \<open>cancel_waitlist_entry\<close>, and after a
  promotion by \<open>process_waitlist_on_reservation_cancelled\<close>, every entry that remains in
  the group of the entry that left has the number of entries of the group created
  strictly earlier as its priority.
\<close>

theorem C5_dense_ranking:
  "(reach clock_fresh s \<and> spelled d st en (day_group c day a b s) \<longrightarrow>
      ranked_slot (day_group c day a b s)) \<and>
   (create_waitlist_entry now t u c d st en = (t', Inr (True, m)) \<and>
    parse_date d = Inr day \<and> parse_time st = Inr a \<and> parse_time en = Inr b \<and>
    spelled d st en (day_group c day a b t) \<longrightarrow>
      (\<exists>e. dict_get (WAITLIST t') (wl_next_id t) = Some e \<and>
           w_priority e = length (day_group c day a b t) \<and> w_created_at e = now \<and>
           m = WaitlistCreated (w_priority e + 1))) \<and>
   (cancel_waitlist_entry q wid v = (q', True, m') \<and> dict_get (WAITLIST q) wid = Some removed \<and>
    parse_date (w_date removed) = Inr day \<and> parse_time (w_start_time removed) = Inr a \<and>
    parse_time (w_end_time removed) = Inr b \<and>
    spelled (w_date removed) (w_start_time removed) (w_end_time removed)
      (day_group (w_classroom_id removed) day a b q') \<longrightarrow>
      recomputed (day_group (w_classroom_id removed) day a b q')) \<and>
   (process_waitlist_on_reservation_cancelled env now' p c' d' st' en' = (p', Inr (Some r)) \<and>
    parse_date (a_date r) = Inr day \<and> parse_time (a_start_time r) = Inr a \<and>
    parse_time (a_end_time r) = Inr b \<and>
    spelled (a_date r) (a_start_time r) (a_end_time r) (day_group (a_classroom_id r) day a b p')
      \<longrightarrow>
      recomputed (day_group (a_classroom_id r) day a b p'))"
proof (intro conjI impI)
  assume h: "reach clock_fresh s \<and> spelled d st en (day_group c day a b s)"
  show "ranked_slot (day_group c day a b s)"
  proof (cases "day_group c day a b s = []")
    case True
    then show ?thesis by (simp add: ranked_slot_def)
  next
    case False
    with h have "parse_date d = Inr day \<and> parse_time st = Inr a \<and> parse_time en = Inr b"
      by (intro spelled_parses) simp_all
    with h have "day_group c day a b s = slot_entries c d st en s"
      by (intro day_group_slot) simp_all
    moreover have "ranked_slot (slot_entries c d st en s)"
      using h by (intro ranked_waitlist_slot reach_ranked_waitlist) simp
    ultimately show ?thesis by simp
  qed
next
  assume h: "create_waitlist_entry now t u c d st en = (t', Inr (True, m)) \<and>
    parse_date d = Inr day \<and> parse_time st = Inr a \<and> parse_time en = Inr b \<and>
    spelled d st en (day_group c day a b t)"
  then have g: "day_group c day a b t = slot_entries c d st en t"
    by (intro day_group_slot) simp_all
  from h have "create_waitlist_entry now t u c d st en = (t', Inr (True, m))" by simp
  then show "\<exists>e. dict_get (WAITLIST t') (wl_next_id t) = Some e \<and>
           w_priority e = length (day_group c day a b t) \<and> w_created_at e = now \<and>
           m = WaitlistCreated (w_priority e + 1)"
    unfolding g create_waitlist_entry_def Let_def
    by (auto simp: dict_get_dict_set slot_entries_def split: sum.splits exn.splits if_splits)
next
  assume h: "cancel_waitlist_entry q wid v = (q', True, m') \<and>
    dict_get (WAITLIST q) wid = Some removed \<and>
    parse_date (w_date removed) = Inr day \<and> parse_time (w_start_time removed) = Inr a \<and>
    parse_time (w_end_time removed) = Inr b \<and>
    spelled (w_date removed) (w_start_time removed) (w_end_time removed)
      (day_group (w_classroom_id removed) day a b q')"
  let ?c = "w_classroom_id removed" and ?d = "w_date removed"
  let ?st = "w_start_time removed" and ?en = "w_end_time removed"
  from h have g: "day_group ?c day a b q' = slot_entries ?c ?d ?st ?en q'"
    by (intro day_group_slot) simp_all
  have q': "WAITLIST q' = resync_priorities ?c ?d ?st ?en (dict_del wid (WAITLIST q))"
    using h by (auto simp: cancel_waitlist_entry_def split: if_splits)
  show "recomputed (day_group ?c day a b q')"
    unfolding g slot_entries_def q' by (rule resync_recomputed)
next
  assume h: "process_waitlist_on_reservation_cancelled env now' p c' d' st' en'
               = (p', Inr (Some r)) \<and>
    parse_date (a_date r) = Inr day \<and> parse_time (a_start_time r) = Inr a \<and>
    parse_time (a_end_time r) = Inr b \<and>
    spelled (a_date r) (a_start_time r) (a_end_time r) (day_group (a_classroom_id r) day a b p')"
  then have g: "day_group (a_classroom_id r) day a b p'
                  = slot_entries (a_classroom_id r) (a_date r) (a_start_time r) (a_end_time r) p'"
    by (intro day_group_slot) simp_all
  from h have "process_waitlist_on_reservation_cancelled env now' p c' d' st' en'
                 = (p', Inr (Some r))" by simp
  from process_waitlist_recomputed [OF this]
  show "recomputed (day_group (a_classroom_id r) day a b p')"
    unfolding g by simp
qed

theorem C5_dense_ranking_witness:
  "reach clock_fresh fifo2 \<and>
   spelled ''2030-01-01'' ''14:00'' ''15:00'' (day_group 1 741078 (Time 14 0) (Time 15 0) fifo2) \<and>
   ranked_slot (day_group 1 741078 (Time 14 0) (Time 15 0) fifo2) \<and>
   map w_priority (day_group 1 741078 (Time 14 0) (Time 15 0) fifo2) = [0, 1] \<and>
   create_waitlist_entry (now0 + 1000000) queue1 ''bob'' 1 ''2030-01-01'' ''14:00'' ''15:00''
     = (fifo2, Inr (True, WaitlistCreated 2)) \<and>
   length (day_group 1 741078 (Time 14 0) (Time 15 0) queue1) = 1 \<and>
   cancel_waitlist_entry fifo2 1 ''alice'' = (fifo_left, True, WaitlistCancelled) \<and>
   recomputed (day_group 1 741078 (Time 14 0) (Time 15 0) fifo_left) \<and>
   map w_priority (day_group 1 741078 (Time 14 0) (Time 15 0) fifo_left) = [0] \<and>
   process_waitlist_on_reservation_cancelled env1 now0 fifo2 1 ''2030-01-01'' ''14:00'' ''15:00''
     = (alice_promoted,
        Inr (Some \<lparr>a_user_id = ''alice'', a_classroom_id = 1, a_date = ''2030-01-01'',
                   a_start_time = ''14:00'', a_end_time = ''15:00''\<rparr>)) \<and>
   recomputed (day_group 1 741078 (Time 14 0) (Time 15 0) alice_promoted) \<and>
   map w_priority (day_group 1 741078 (Time 14 0) (Time 15 0) alice_promoted) = [0]"
proof -
  note c5 = C5_dense_ranking [where s = fifo2 and c = 1 and d = "''2030-01-01''"
      and st = "''14:00''" and en = "''15:00''" and day = 741078 and a = "Time 14 0"
      and b = "Time 15 0" and now = "now0 + 1000000" and t = queue1 and u = "''bob''"
      and t' = fifo2 and m = "WaitlistCreated 2" and q = fifo2 and wid = 1 and v = "''alice''"
      and q' = fifo_left and m' = WaitlistCancelled and removed = "waiting ''alice'' now0 0"
      and env = env1 and now' = now0 and p = fifo2 and c' = 1 and d' = "''2030-01-01''"
      and st' = "''14:00''" and en' = "''15:00''" and p' = alice_promoted
      and r = "\<lparr>a_user_id = ''alice'', a_classroom_id = 1, a_date = ''2030-01-01'',
                a_start_time = ''14:00'', a_end_time = ''15:00''\<rparr>"]
  have s2: "spelled ''2030-01-01'' ''14:00'' ''15:00''
              (day_group 1 741078 (Time 14 0) (Time 15 0) fifo2)"
    by (simp add: group_eval_defs)
  have r1: "ranked_slot (day_group 1 741078 (Time 14 0) (Time 15 0) fifo2)"
    using c5 [THEN conjunct1] reach_fresh_fifo2 s2 by simp
  have r2: "\<exists>e. dict_get (WAITLIST fifo2) (wl_next_id queue1) = Some e \<and>
              w_priority e = length (day_group 1 741078 (Time 14 0) (Time 15 0) queue1) \<and>
              w_created_at e = now0 + 1000000 \<and> WaitlistCreated 2 = WaitlistCreated (w_priority e + 1)"
    using c5 [THEN conjunct2, THEN conjunct1] bob_waits_later
    by (simp add: group_eval_defs)
  have r3: "recomputed (day_group 1 741078 (Time 14 0) (Time 15 0) fifo_left)"
    using c5 [THEN conjunct2, THEN conjunct2, THEN conjunct1] alice_leaves
    by (simp add: group_eval_defs dict_get_def)
  have r4: "recomputed (day_group 1 741078 (Time 14 0) (Time 15 0) alice_promoted)"
    using c5 [THEN conjunct2, THEN conjunct2, THEN conjunct2] alice_promotion
    by (simp add: group_eval_defs)
  have l: "length (day_group 1 741078 (Time 14 0) (Time 15 0) queue1) = 1"
    using r2 by auto
  have m: "map w_priority (day_group 1 741078 (Time 14 0) (Time 15 0) fifo2) = [0, 1]"
    "map w_priority (day_group 1 741078 (Time 14 0) (Time 15 0) fifo_left) = [0]"
    "map w_priority (day_group 1 741078 (Time 14 0) (Time 15 0) alice_promoted) = [0]"
    by (simp_all add: group_eval_defs)
  show ?thesis
    using reach_fresh_fifo2 s2 r1 r2 r3 r4 l m bob_waits_later alice_leaves alice_promotion
    by simp
qed

text \<open>
  A group that writes its day in two ways is outside that statement.  With an advancing
  clock alice waits for classroom 1 on ``2030-01-01'' from 14:00 to 15:00 and bob for the
  same classroom and hour on ``2030-1-1'': the two entries of the group both carry the
  priority 0, because the code counts the entries with the same date string.
\<close>

lemma two_spellings_both_first:
  "reach clock_fresh two_spellings \<and>
   map w_priority (day_group 1 741078 (Time 14 0) (Time 15 0) two_spellings) = [0, 0] \<and>
   map w_date (day_group 1 741078 (Time 14 0) (Time 15 0) two_spellings)
     = [''2030-01-01'', ''2030-1-1'']"
  by (simp add: reach_fresh_two_spellings) (simp add: group_eval_defs)

section \<open>The order of the checks\<close>

lemma count_active_weight:
  "count_active_reservations s now u = Inr n \<Longrightarrow>
     n = sum_list (map (weight now u) (map snd (RESERVATIONS s)))"
  unfolding count_active_reservations_def
  using count_active_loop_closed [OF count_active_loop_parses, of now u "map snd (RESERVATIONS s)" 0 n now 0]
  by simp

lemma check_participants_none:
  "check_participants env s now ps = Inr None \<Longrightarrow>
     list_all (\<lambda>p. get_user env p \<longrightarrow> (\<exists>k. count_active_reservations s now p = Inr k \<and> k < 3)) ps"
  by (induction ps) (auto split: if_splits sum.splits)

lemma check_participants_first:
  "check_participants env s now ps = Inr (Some p) \<Longrightarrow>
     \<exists>before after.
        ps = before @ p # after \<and>
        list_all (\<lambda>q. get_user env q \<longrightarrow>
                    (\<exists>k. count_active_reservations s now q = Inr k \<and> k < 3)) before"
proof (induction ps)
  case Nil
  then show ?case by simp
next
  case (Cons q ps)
  show ?case
  proof (cases "check_participants env s now ps = Inr (Some p) \<and>
                (get_user env q \<longrightarrow> (\<exists>k. count_active_reservations s now q = Inr k \<and> k < 3))")
    case True
    then obtain before after where
      "ps = before @ p # after"
      "list_all (\<lambda>q. get_user env q \<longrightarrow>
                    (\<exists>k. count_active_reservations s now q = Inr k \<and> k < 3)) before"
      using Cons.IH by blast
    with True have "q # ps = (q # before) @ p # after \<and>
      list_all (\<lambda>q. get_user env q \<longrightarrow>
                    (\<exists>k. count_active_reservations s now q = Inr k \<and> k < 3)) (q # before)"
      by simp
    then show ?thesis by blast
  next
    case False
    with Cons.prems have "q = p"
      by (auto split: if_splits sum.splits)
    then show ?thesis by (intro exI [of _ "[]"] exI [of _ ps]) simp
  qed
qed

lemma check_participants_prefix:
  "check_participants env s now ps = Inr (Some p) \<Longrightarrow>
     \<exists>before.
        (\<exists>after. ps = before @ p # after) \<and>
        list_all (\<lambda>q. get_user env q \<longrightarrow>
                    (\<exists>k. count_active_reservations s now q = Inr k \<and> k < 3)) before"
  using check_participants_first [of env s now ps p] by blast

lemma parse_time_overflow: "parse_time ''2147483648:00'' = Inl OverflowError"
  by (simp add: parse_defs)

lemma parse_time_2400: "parse_time ''24:00'' = Inl ValueError"
  by (simp add: parse_defs)

text \<open>
  The order in which \<open>create_reservation\<close> decides; the first check that fails gives the
  result, with the stores unchanged.
  (a) The date, then the start time, then the end time are parsed: a \<^verbatim>\<open>ValueError\<close> gives
  the format message with the offending string, an \<^verbatim>\<open>OverflowError\<close> leaves the function.
  (b) The start must not be in the past; (c) the date must be in the window of seven days;
  (d) the slot must be valid.
  (e) The requester must hold fewer than three active reservations, where a reservation
  counts once for its owner and once for each listing as a participant.
  (f) The participants are cleaned and looked at in order: the first registered one who
  holds three or more is named in the result, and the check passes only when every
  registered participant holds fewer than three.
  (g) The conflict message lists start, end and owner of every reservation that
  \<open>find_conflicts\<close> takes as a conflict, and the request succeeds when there is none.
\<close>

lemma create_reservation_check_order:
  "(let R = create_reservation env now s user_id classroom_id d st en ps in
    (parse_date d = Inl ValueError \<longrightarrow> R = (s, Inr (False, BadDateFormat d))) \<and>
    (\<forall>dd. parse_date d = Inr dd \<longrightarrow>
      (parse_time st = Inl ValueError \<longrightarrow> R = (s, Inr (False, BadTimeFormat st))) \<and>
      (parse_time st = Inl OverflowError \<longrightarrow> R = (s, Inl OverflowError)) \<and>
      (\<forall>t1. parse_time st = Inr t1 \<longrightarrow>
        (parse_time en = Inl ValueError \<longrightarrow> R = (s, Inr (False, BadTimeFormat en))) \<and>
        (parse_time en = Inl OverflowError \<longrightarrow> R = (s, Inl OverflowError)) \<and>
        (\<forall>t2. parse_time en = Inr t2 \<longrightarrow>
          (is_past_datetime now dd t1 \<longrightarrow> R = (s, Inr (False, PastTime))) \<and>
          (\<not> is_past_datetime now dd t1 \<longrightarrow>
            (\<not> is_within_7_days now dd \<longrightarrow> R = (s, Inr (False, OutOfWindow))) \<and>
            (is_within_7_days now dd \<longrightarrow>
              (\<not> is_valid_time_slot t1 t2 \<longrightarrow> R = (s, Inr (False, InvalidSlot))) \<and>
              (is_valid_time_slot t1 t2 \<longrightarrow>
                (\<forall>n. count_active_reservations s now user_id = Inr n \<longrightarrow>
                  n = sum_list (map (weight now user_id) (map snd (RESERVATIONS s))) \<and>
                  (n \<ge> 3 \<longrightarrow> R = (s, Inr (False, QuotaExceeded))) \<and>
                  (n < 3 \<longrightarrow>
                    (\<forall>p. check_participants env s now (clean_participants env user_id ps)
                            = Inr (Some p) \<longrightarrow>
                       R = (s, Inr (False, ParticipantQuotaExceeded p)) \<and>
                       p \<in> set (clean_participants env user_id ps) \<and> get_user env p \<and>
                       (\<exists>k. count_active_reservations s now p = Inr k \<and> k \<ge> 3) \<and>
                       (\<exists>before after.
                          clean_participants env user_id ps = before @ p # after \<and>
                          list_all (\<lambda>q. get_user env q \<longrightarrow>
                                      (\<exists>k. count_active_reservations s now q = Inr k \<and> k < 3))
                            before)) \<and>
                    (check_participants env s now (clean_participants env user_id ps)
                       = Inr None \<longrightarrow>
                      list_all (\<lambda>q. get_user env q \<longrightarrow>
                                  (\<exists>k. count_active_reservations s now q = Inr k \<and> k < 3))
                        (clean_participants env user_id ps) \<and>
                      (\<forall>cs. find_conflicts classroom_id d t1 t2 (map snd (RESERVATIONS s))
                              = Inr cs \<longrightarrow>
                         cs = map conflict_triple
                                (filter (conflicts_with classroom_id d t1 t2)
                                   (map snd (RESERVATIONS s))) \<and>
                         (cs \<noteq> [] \<longrightarrow> R = (s, Inr (False, TimeConflict st en cs))) \<and>
                         (cs = [] \<longrightarrow> snd R = Inr (True, ReservationCreated)))))))))))))"
  unfolding Let_def create_reservation_def
  by (auto simp: check_participants_prefix
        dest: check_participants_eq find_conflicts_eq count_active_weight check_participants_none)

text \<open>
  In a well-formed state the counts and the scan of step (g) raise nothing, so every
  request whose times parse gets a result.
\<close>

lemma count_active_loop_total:
  "list_all reservation_ok rs \<Longrightarrow> \<exists>n. count_active_loop now u rs c = Inr n"
  by (induction rs arbitrary: c)
     (auto simp: count_role_def reservation_datetime_def reservation_ok_def split: sum.splits)

lemma check_participants_total:
  "state_ok s \<Longrightarrow> \<exists>r. check_participants env s now ps = Inr r"
proof (induction ps)
  case Nil
  then show ?case by simp
next
  case (Cons p ps)
  have "\<exists>n. count_active_reservations s now p = Inr n"
    using Cons.prems count_active_loop_total [of "map snd (RESERVATIONS s)" now p 0]
    by (simp add: count_active_reservations_def state_ok_def)
  with Cons show ?case by auto
qed

lemma create_reservation_total:
  assumes "state_ok s" "parse_time st \<noteq> Inl OverflowError" "parse_time en \<noteq> Inl OverflowError"
  shows "\<exists>ok m. snd (create_reservation env now s u c d st en ps) = Inr (ok, m)"
proof -
  have pd: "parse_date d = Inl ValueError \<or> (\<exists>dd. parse_date d = Inr dd)"
    by (auto simp: parse_date_def Let_def split: list.splits option.splits if_splits)
  have pt: "\<And>x. parse_time x = Inl ValueError \<or> parse_time x = Inl OverflowError \<or>
                 (\<exists>t. parse_time x = Inr t)"
    by (auto simp: parse_time_def mk_time_def split: list.splits option.splits if_splits)
  obtain n where n: "count_active_reservations s now u = Inr n"
    using assms(1) count_active_loop_total [of "map snd (RESERVATIONS s)" now u 0]
    by (auto simp: count_active_reservations_def state_ok_def)
  obtain r where r: "check_participants env s now (clean_participants env u ps) = Inr r"
    using check_participants_total [OF assms(1)] by blast
  have rok: "list_all reservation_ok (map snd (RESERVATIONS s))"
    using assms(1) by (simp add: state_ok_def)
  show ?thesis
    using pd pt [of st] pt [of en] assms(2,3) n r
    unfolding create_reservation_def Let_def
    by (auto simp: find_conflicts_filter [OF rok] split: sum.splits exn.splits option.splits
          if_splits)
qed

text \<open>
  Two requests on 1 January 2030, 08:00.  One is for 9 January from 10:30 to 11:00, out
  of the window and misaligned: the result is \<open>OutOfWindow\<close>.  The other overlaps the
  reservation of alice: the message lists its start, end and owner.
\<close>

lemma check_order_examples:
  "parse_date ''2030-01-09'' = Inr 741086 \<and> parse_time ''10:30'' = Inr (Time 10 30) \<and>
   parse_time ''11:00'' = Inr (Time 11 0) \<and> \<not> is_past_datetime now0 741086 (Time 10 30) \<and>
   \<not> is_within_7_days now0 741086 \<and> \<not> is_valid_time_slot (Time 10 30) (Time 11 0) \<and>
   create_reservation env0 now0 init_state ''alice'' 1 ''2030-01-09'' ''10:30'' ''11:00'' None
     = (init_state, Inr (False, OutOfWindow)) \<and>
   create_reservation env0 now0 alice_booked ''bob'' 1 ''2030-01-01'' ''14:00'' ''16:00'' None
     = (alice_booked,
        Inr (False, TimeConflict ''14:00'' ''16:00'' [(''14:00'', ''15:00'', ''alice'')]))"
proof -
  have a: "create_reservation env0 now0 init_state ''alice'' 1 ''2030-01-09'' ''10:30'' ''11:00'' None
             = (init_state, Inr (False, OutOfWindow))"
    using create_reservation_check_order [of env0 now0 init_state "''alice''" 1 "''2030-01-09''"
            "''10:30''" "''11:00''" None]
    by (simp add: Let_def parse_date_2030_01_09 parse_time_1030 parse_time_1100
        is_past_datetime_def is_within_7_days_def date_of_def combine_def day_micros_def
        now0_eval is_valid_time_slot_def)
  have b: "create_reservation env0 now0 alice_booked ''bob'' 1 ''2030-01-01'' ''14:00'' ''16:00'' None
             = (alice_booked,
                Inr (False, TimeConflict ''14:00'' ''16:00'' [(''14:00'', ''15:00'', ''alice'')]))"
    by (simp add: eval_defs alice_booked_def)
  show ?thesis
    using a b
    by (simp add: parse_date_2030_01_09 parse_time_1030 parse_time_1100 is_past_datetime_def
        is_within_7_days_def date_of_def combine_def day_micros_def now0_eval
        is_valid_time_slot_def)
qed

text \<open>A request for the day before today is refused as \<open>PastTime\<close>: the check of the
  past comes before the check of the window.\<close>

lemma past_before_window:
  "\<not> is_within_7_days now0 741077 \<and> \<not> is_valid_time_slot (Time 10 30) (Time 11 0) \<and>
   parse_date ''2029-12-31'' = Inr 741077 \<and> parse_time ''10:30'' = Inr (Time 10 30) \<and>
   parse_time ''11:00'' = Inr (Time 11 0) \<and>
   create_reservation env0 now0 init_state ''alice'' 1 ''2029-12-31'' ''10:30'' ''11:00'' None
     = (init_state, Inr (False, PastTime))"
  by (simp add: eval_defs)

text \<open>
  C4.  The claim: the checks are made in a fixed order, parsing first, and the first
  check that fails determines the result and its reason.  \<^verbatim>\<open>_parse_time\<close> and step 1 of
  \<^verbatim>\<open>create_reservation\<close> turn a date or time that cannot be read into the format message:
  both catch \<^verbatim>\<open>ValueError\<close>.  For the start time ``2147483648:00'' the hour is an integer
  that \<^verbatim>\<open>time(hour, minute)\<close> cannot convert, it raises \<^verbatim>\<open>OverflowError\<close>, and neither
  \<^verbatim>\<open>except\<close> clause catches that: the exception leaves \<open>create_reservation\<close>, and the
  request that fails the first check gets no result and no reason.  The same holds for
  the end time.  For ``24:00'', where \<^verbatim>\<open>time\<close> raises \<^verbatim>\<open>ValueError\<close>, the result is the
  format message.
\<close>

theorem C4_overflow_escapes:
  "parse_date ''2030-01-01'' = Inr 741078 \<and>
   parse_time ''2147483648:00'' = Inl OverflowError \<and>
   create_reservation env0 now0 init_state ''alice'' 1 ''2030-01-01'' ''2147483648:00'' ''15:00'' None
     = (init_state, Inl OverflowError) \<and>
   create_reservation env0 now0 init_state ''alice'' 1 ''2030-01-01'' ''14:00'' ''2147483648:00'' None
     = (init_state, Inl OverflowError) \<and>
   parse_time ''24:00'' = Inl ValueError \<and>
   create_reservation env0 now0 init_state ''alice'' 1 ''2030-01-01'' ''24:00'' ''15:00'' None
     = (init_state, Inr (False, BadTimeFormat ''24:00''))"
  by (simp add: create_reservation_def parse_date_2030_01_01 parse_time_overflow parse_time_2400
      parse_time_1400)

theorem C4_overflow_escapes_witness:
  "isl (snd (create_reservation env0 now0 init_state ''alice'' 1 ''2030-01-01'' ''2147483648:00''
               ''15:00'' None)) \<and>
   \<not> isl (snd (create_reservation env0 now0 init_state ''alice'' 1 ''2030-01-01'' ''24:00''
                 ''15:00'' None))"
  using C4_overflow_escapes by simp

end
